theory Spec2Isabelle
  imports Main "HOL-Library.Sublist" "HOL-Library.Word"
begin

section \<open>The pull-progress display (package log, DisplayInteractiveProgress)\<close>

text \<open>
  \<^verbatim>\<open>DisplayInteractiveProgress\<close> reads the progress stream of an image pull through
  a \<^verbatim>\<open>json.Decoder\<close> of Go's standard library. What the loop does depends on four
  things a call of \<^verbatim>\<open>Decode\<close> can meet at the front of the stream:
  \<^item> a complete JSON value that unmarshals into the progress struct;
  \<^item> a complete JSON value that does not (a field of the wrong JSON type): the value is
    consumed and an \<^verbatim>\<open>UnmarshalTypeError\<close> is returned, the decoder stays usable;
  \<^item> bytes that are not JSON: the scanner reports a \<^verbatim>\<open>SyntaxError\<close>, and
    \<^verbatim>\<open>readValue\<close> stores it in \<^verbatim>\<open>dec.err\<close>;
  \<^item> the end of the input: \<^verbatim>\<open>io.EOF\<close> when nothing but white space is left,
    \<^verbatim>\<open>io.ErrUnexpectedEOF\<close> when the input stops inside a value, or the error of
    the underlying reader; each is stored in \<^verbatim>\<open>dec.err\<close> too.
  \<^verbatim>\<open>Decode\<close> starts with \<^verbatim>\<open>if dec.err != nil { return dec.err }\<close>: a stored error
  is returned by every later call, and nothing more is read.
\<close>

text \<open>
  The fields of the progress struct that the function reads; it never reads
  \<^verbatim>\<open>ProgressDetail\<close>.
\<close>

record progress =
  Status :: string
  Progress :: string
  ID :: string

datatype json_item =
    Value progress
  | Mismatch
  | Garbage

datatype stream_end = CleanEnd | CutShort | ReadFailure

datatype decode_error =
    EOF
  | ErrUnexpectedEOF
  | SyntaxError
  | UnmarshalTypeError
  | ReaderError

record decoder =
  input :: "json_item list"
  ending :: stream_end
  err :: "decode_error option"

definition NewDecoder :: "json_item list \<Rightarrow> stream_end \<Rightarrow> decoder" where
  "NewDecoder items e = \<lparr>input = items, ending = e, err = None\<rparr>"

definition end_error :: "stream_end \<Rightarrow> decode_error" where
  "end_error e = (case e of CleanEnd \<Rightarrow> EOF | CutShort \<Rightarrow> ErrUnexpectedEOF
                  | ReadFailure \<Rightarrow> ReaderError)"

definition Decode :: "decoder \<Rightarrow> (decode_error + progress) \<times> decoder" where
  "Decode dec =
     (case err dec of
        Some e \<Rightarrow> (Inl e, dec)
      | None \<Rightarrow>
          (case input dec of
             [] \<Rightarrow> (Inl (end_error (ending dec)), dec\<lparr>err := Some (end_error (ending dec))\<rparr>)
           | Value p # rest \<Rightarrow> (Inr p, dec\<lparr>input := rest\<rparr>)
           | Mismatch # rest \<Rightarrow> (Inl UnmarshalTypeError, dec\<lparr>input := rest\<rparr>)
           | Garbage # rest \<Rightarrow> (Inl SyntaxError, dec\<lparr>err := Some SyntaxError\<rparr>)))"

text \<open>What the function writes to standard output, one value per \<^verbatim>\<open>fmt\<close> call.\<close>

datatype term_out =
    CursorUp nat
  | ClearLine
  | Println string

record display =
  layers :: "string \<rightharpoonup> string"
  layerOrder :: "string list"
  outputLines :: nat
  printed :: "term_out list"

definition init_display :: display where
  "init_display = \<lparr>layers = Map.empty, layerOrder = [], outputLines = 0, printed = []\<rparr>"

text \<open>Lines 34 to 47: the entry of a layer, or a one-off status line.\<close>

definition record_progress :: "progress \<Rightarrow> display \<Rightarrow> display" where
  "record_progress p st =
     (if ID p \<noteq> [] then
        (let order' = (if layers st (ID p) = None then layerOrder st @ [ID p]
                       else layerOrder st);
             line = (if Progress p \<noteq> []
                     then ID p @ '': '' @ Status p @ '' '' @ Progress p
                     else ID p @ '': '' @ Status p)
         in st\<lparr>layers := (layers st)(ID p \<mapsto> line), layerOrder := order'\<rparr>)
      else
        st\<lparr>layers := (layers st)(''message_'' @ Status p \<mapsto> Status p),
           layerOrder := layerOrder st @ [''message_'' @ Status p]\<rparr>)"

text \<open>Lines 49 to 55 and 66 to 72: move up over the last drawing and blank it.\<close>

definition clear_drawn :: "display \<Rightarrow> display" where
  "clear_drawn st =
     (if outputLines st > 0 then
        st\<lparr>printed := printed st @ [CursorUp (outputLines st)]
              @ replicate (outputLines st) ClearLine @ [CursorUp (outputLines st)]\<rparr>
      else st)"

definition count_newlines :: "string \<Rightarrow> nat" where
  "count_newlines s = length (filter (\<lambda>c. c = CHR 0x0A) s)"

text \<open>Lines 57 to 63: print every known layer in first-seen order.\<close>

fun draw :: "string list \<Rightarrow> display \<Rightarrow> display" where
  "draw [] st = st"
| "draw (i # ids) st =
     (case layers st i of
        Some status \<Rightarrow>
          draw ids (st\<lparr>printed := printed st @ [Println status],
                       outputLines := outputLines st + (count_newlines status + 1)\<rparr>)
      | None \<Rightarrow> draw ids st)"

definition redraw :: "progress \<Rightarrow> display \<Rightarrow> display" where
  "redraw p st =
     (let st1 = record_progress p st;
          st2 = clear_drawn st1
      in draw (layerOrder st2) (st2\<lparr>outputLines := 0\<rparr>))"

text \<open>
  The \<^verbatim>\<open>for\<close> loop of lines 16 to 64. It leaves only through \<^verbatim>\<open>break\<close> on
  \<^verbatim>\<open>io.EOF\<close>; every other error takes \<^verbatim>\<open>continue\<close>. \<open>None\<close> is a loop that never
  leaves.
\<close>

partial_function (option) progress_loop :: "decoder \<Rightarrow> display \<Rightarrow> display option" where
  "progress_loop dec st =
     (case Decode dec of
        (Inl e, dec') \<Rightarrow> (if e = EOF then Some st else progress_loop dec' st)
      | (Inr p, dec') \<Rightarrow> progress_loop dec' (redraw p st))"

declare progress_loop.simps [code]

definition DisplayInteractiveProgress :: "json_item list \<Rightarrow> stream_end \<Rightarrow> term_out list option" where
  "DisplayInteractiveProgress items e =
     map_option (\<lambda>st. printed (clear_drawn st)) (progress_loop (NewDecoder items e) init_display)"

section \<open>Paths and strings of the standard library\<close>

text \<open>
  The functions of \<^verbatim>\<open>strings\<close> and \<^verbatim>\<open>path/filepath\<close> that the extraction and
  the staging use, for a host whose path separator is the slash.
\<close>

definition Separator :: char where
  "Separator = CHR ''/''"

definition HasPrefix :: "string \<Rightarrow> string \<Rightarrow> bool" where
  "HasPrefix s p = prefix p s"

definition TrimPrefix :: "string \<Rightarrow> string \<Rightarrow> string" where
  "TrimPrefix s p = (if HasPrefix s p then drop (length p) s else s)"

text \<open>
  The verb \<^verbatim>\<open>%c\<close> of \<^verbatim>\<open>fmt\<close> on a byte writes the UTF-8 encoding of the code point
  with the value of the byte: the byte itself below \<^verbatim>\<open>0x80\<close>, and two bytes from
  \<^verbatim>\<open>0x80\<close> on.
\<close>

definition format_c :: "char \<Rightarrow> string" where
  "format_c c =
     (let n = (of_char c :: nat)
      in if n < 128 then [c]
         else [char_of (192 + n div 64), char_of (128 + n mod 64)])"

fun split_slash :: "string \<Rightarrow> string list" where
  "split_slash [] = [[]]"
| "split_slash (c # cs) =
     (if c = Separator then [] # split_slash cs
      else (case split_slash cs of
              w # ws \<Rightarrow> (c # w) # ws
            | [] \<Rightarrow> [[c]]))"

fun join_slash :: "string list \<Rightarrow> string" where
  "join_slash [] = []"
| "join_slash [e] = e"
| "join_slash (e # es) = e @ [Separator] @ join_slash es"

text \<open>
  The element loop of \<^verbatim>\<open>filepath.Clean\<close>: empty and \<^verbatim>\<open>.\<close> elements are dropped,
  \<^verbatim>\<open>..\<close> removes the element before it when there is one to remove, is dropped at
  the root, and is kept in front of a relative path. \<open>out\<close> holds the elements written
  so far, last one first.
\<close>

fun clean_elems :: "bool \<Rightarrow> string list \<Rightarrow> string list \<Rightarrow> string list" where
  "clean_elems rooted [] out = rev out"
| "clean_elems rooted (e # es) out =
     (if e = [] \<or> e = ''.'' then clean_elems rooted es out
      else if e = ''..'' then
        (case out of
           t # ts \<Rightarrow>
             (if t \<noteq> ''..'' then clean_elems rooted es ts
              else if rooted then clean_elems rooted es out
              else clean_elems rooted es (''..'' # out))
         | [] \<Rightarrow>
             (if rooted then clean_elems rooted es out
              else clean_elems rooted es [''..'']))
      else clean_elems rooted es (e # out))"

definition Clean :: "string \<Rightarrow> string" where
  "Clean path =
     (if path = [] then ''.''
      else
        (let rooted = (hd path = Separator);
             res = (if rooted then [Separator] else [])
                   @ join_slash (clean_elems rooted (split_slash path) [])
         in if res = [] then ''.'' else res))"

text \<open>\<^verbatim>\<open>filepath.Join\<close> of two elements: empty elements are ignored, the rest is cleaned.\<close>

definition Join :: "string \<Rightarrow> string \<Rightarrow> string" where
  "Join a b =
     (if a \<noteq> [] then Clean (a @ [Separator] @ b)
      else if b \<noteq> [] then Clean b
      else [])"

definition Dir :: "string \<Rightarrow> string" where
  "Dir path = Clean (rev (dropWhile (\<lambda>c. c \<noteq> Separator) (rev path)))"

definition Base :: "string \<Rightarrow> string" where
  "Base path =
     (if path = [] then ''.''
      else
        (let stripped = rev (dropWhile (\<lambda>c. c = Separator) (rev path));
             last_elem = rev (takeWhile (\<lambda>c. c \<noteq> Separator) (rev stripped))
         in if last_elem = [] then [Separator] else last_elem))"

section \<open>The host, the trace of a run, and errors\<close>

text \<open>
  A Go \<^verbatim>\<open>error\<close> is modelled by its message. The host file system is a parameter:
  \<open>sys\<close> performs one call on a file system of any type \<open>'fs\<close>, giving the error of
  the call, if any, and the file system after it; \<open>stat\<close> is the error of
  \<^verbatim>\<open>os.Stat\<close>, \<open>None\<close> when it returns none, which is what the code takes for a
  path that exists. The trace of a run holds, in order, every call
  made, every line the progress display prints, and the log lines that report a skipped
  entry, an error or the log of the container; the lines that only report progress (the
  image, the container ID, the number of files copied, the processing time) are left
  out.
\<close>

type_synonym error = string

datatype fs_call =
    MkdirAll string "32 word"
  | Create string
  | Copy string string
  | Close string
  | Symlink string string

datatype level = TraceLevel | DebugLevel | InfoLevel | WarnLevel | ErrorLevel | FatalLevel

record 'fs host =
  sys :: "fs_call \<Rightarrow> 'fs \<Rightarrow> error option \<times> 'fs"
  stat :: "'fs \<Rightarrow> string \<Rightarrow> error option"

text \<open>The calls of the Docker client and of the readers it hands out.\<close>

datatype docker_call =
    NewClient
  | ImagePull string string
  | PullReaderClose
  | ImageInspect string
  | ContainerCreate string "string list" "string list"
  | TarWithOptions string string string
  | CliCopyToContainer string string
  | TarStreamClose
  | ContainerStart string
  | ContainerWait string
  | ContainerInspect string
  | ContainerLogs string
  | LogsReaderClose
  | CliCopyFromContainer string string
  | ArchiveReaderClose
  | ContainerStop string
  | ContainerRemove string
  | ContainerKill string string
  | ClientClose

datatype event =
    Sys fs_call
  | Docker docker_call
  | Log level string
  | Print term_out

text \<open>
  The calls that \<^verbatim>\<open>RunGhcrContainer\<close> defers: closing the client (line 270), closing
  the reader of the pull (line 309), killing the container (line 370) and closing the
  reader of the logs (line 407), which holds a reader or \<^verbatim>\<open>nil\<close>.
\<close>

datatype deferred_call =
    CloseClient
  | ClosePullReader
  | KillContainer string
  | CloseLogs bool

record 'fs state =
  fs :: 'fs
  trace :: "event list"
  deferred :: "deferred_call list"

definition emit :: "event \<Rightarrow> 'fs state \<Rightarrow> 'fs state" where
  "emit ev st = st\<lparr>trace := trace st @ [ev]\<rparr>"

definition do_sys :: "'fs host \<Rightarrow> fs_call \<Rightarrow> 'fs state \<Rightarrow> error option \<times> 'fs state" where
  "do_sys h c st =
     (case sys h c (fs st) of
        (e, fs') \<Rightarrow> (e, st\<lparr>fs := fs', trace := trace st @ [Sys c]\<rparr>))"

section \<open>Extraction of a tar stream (package utils, ExtractTar)\<close>

record tar_header =
  Name :: string
  Typeflag :: char
  Mode :: "64 word"
  Linkname :: string

definition TypeReg :: char where "TypeReg = CHR ''0''"
definition TypeSymlink :: char where "TypeSymlink = CHR ''2''"
definition TypeDir :: char where "TypeDir = CHR ''5''"
definition TypeXGlobalHeader :: char where "TypeXGlobalHeader = CHR ''g''"

text \<open>
  What \<^verbatim>\<open>tr.Next()\<close> finds: an entry (its header, the bytes of its body and the
  error, if any, that reading the body ends with), or a stream it cannot read. At the
  end of the list \<^verbatim>\<open>Next\<close> returns \<^verbatim>\<open>io.EOF\<close>.
\<close>

datatype tar_item =
    Entry tar_header string "error option"
  | Corrupt error

definition handleDirectory ::
  "'fs host \<Rightarrow> string \<Rightarrow> tar_header \<Rightarrow> 'fs state \<Rightarrow> error option \<times> 'fs state" where
  "handleDirectory h target hdr st =
     (case do_sys h (MkdirAll target (ucast (Mode hdr))) st of
        (Some e, st') \<Rightarrow> (Some (''failed to create directory '' @ target @ '': '' @ e), st')
      | (None, st') \<Rightarrow> (None, st'))"

text \<open>
  \<^verbatim>\<open>handleRegularFile\<close>. The deferred function closes the file on every return after
  \<^verbatim>\<open>os.Create\<close> succeeded; it assigns the error of \<^verbatim>\<open>Close\<close> to the local variable
  \<^verbatim>\<open>err\<close>, which is not the result of the function, so that error is lost.
  \<^verbatim>\<open>io.Copy\<close> writes what it could read, and fails with the error of the write or
  else with the error the body ends with.
\<close>

definition handleRegularFile ::
  "'fs host \<Rightarrow> string \<Rightarrow> error option \<Rightarrow> string \<Rightarrow> tar_header \<Rightarrow> 'fs state
     \<Rightarrow> error option \<times> 'fs state" where
  "handleRegularFile h body body_err target hdr st =
     (case do_sys h (MkdirAll (Dir target) 493) st of
        (Some e, st1) \<Rightarrow>
          (Some (''failed to create parent dir for file '' @ target @ '': '' @ e), st1)
      | (None, st1) \<Rightarrow>
          (case do_sys h (Create target) st1 of
             (Some e, st2) \<Rightarrow> (Some (''failed to create file '' @ target @ '': '' @ e), st2)
           | (None, st2) \<Rightarrow>
               (case do_sys h (Copy target body) st2 of
                  (w, st3) \<Rightarrow>
                    (let copy_err = (case w of Some e \<Rightarrow> Some e | None \<Rightarrow> body_err);
                         st4 = snd (do_sys h (Close target) st3)
                     in case copy_err of
                          Some e \<Rightarrow>
                            (Some (''failed to copy contents to '' @ target @ '': '' @ e), st4)
                        | None \<Rightarrow> (None, st4)))))"

definition handleSymlink ::
  "'fs host \<Rightarrow> string \<Rightarrow> tar_header \<Rightarrow> 'fs state \<Rightarrow> error option \<times> 'fs state" where
  "handleSymlink h target hdr st =
     (case do_sys h (MkdirAll (Dir target) 493) st of
        (Some e, st1) \<Rightarrow>
          (Some (''failed to create parent dir for symlink '' @ target @ '': '' @ e), st1)
      | (None, st1) \<Rightarrow>
          (case do_sys h (Symlink (Linkname hdr) target) st1 of
             (Some e, st2) \<Rightarrow>
               (Some (''failed to create symlink from '' @ target @ '' to ''
                        @ Linkname hdr @ '': '' @ e), st2)
           | (None, st2) \<Rightarrow> (None, st2)))"

text \<open>
  \<^verbatim>\<open>ExtractTar\<close>: one round of the loop for each item of the stream, until the end
  of the stream, an unreadable item or the first handler that fails.
\<close>

fun ExtractTar ::
  "'fs host \<Rightarrow> tar_item list \<Rightarrow> string \<Rightarrow> string \<Rightarrow> bool \<Rightarrow> 'fs state
     \<Rightarrow> error option \<times> 'fs state" where
  "ExtractTar h [] basePath destPath isSourceDir st = (None, st)"
| "ExtractTar h (Corrupt e # rest) basePath destPath isSourceDir st =
     (Some (''error reading tar archive: '' @ e), st)"
| "ExtractTar h (Entry hdr body body_err # rest) basePath destPath isSourceDir st =
     (let relPath = TrimPrefix (TrimPrefix (Name hdr) basePath) [Separator];
          target = (if isSourceDir then Join destPath relPath else destPath)
      in if Typeflag hdr = TypeDir then
           (case handleDirectory h target hdr st of
              (Some e, st') \<Rightarrow> (Some e, st')
            | (None, st') \<Rightarrow> ExtractTar h rest basePath destPath isSourceDir st')
         else if Typeflag hdr = TypeReg then
           (case handleRegularFile h body body_err target hdr st of
              (Some e, st') \<Rightarrow> (Some e, st')
            | (None, st') \<Rightarrow> ExtractTar h rest basePath destPath isSourceDir st')
         else if Typeflag hdr = TypeSymlink then
           (case handleSymlink h target hdr st of
              (Some e, st') \<Rightarrow> (Some e, st')
            | (None, st') \<Rightarrow> ExtractTar h rest basePath destPath isSourceDir st')
         else if Typeflag hdr = TypeXGlobalHeader then
           ExtractTar h rest basePath destPath isSourceDir
             (emit (Log TraceLevel ''Skipping global header'') st)
         else
           ExtractTar h rest basePath destPath isSourceDir
             (emit (Log WarnLevel (''Skipping unsupported type '' @ format_c (Typeflag hdr) @ '': ''
                                    @ Name hdr)) st))"

section \<open>The task runner (package container\_run, RunGhcrContainer)\<close>

text \<open>
  Line numbers are those of \<^verbatim>\<open>src/main.go\<close>, which holds the package.

  \<^verbatim>\<open>logrus.Fatalf\<close> writes the line and calls \<^verbatim>\<open>os.Exit(1)\<close>: the process ends there,
  and the deferred calls of the functions on the stack do not run. Each call site is a
  constructor of \<open>fatal\<close>, with the values its message is formatted from.
\<close>

datatype fatal =
    FileAlreadyExist string
  | ClientCreateFailed error
  | DockerConfigLoadFailed error
  | AuthEncodeFailed error
  | ImageUnusable string error
  | ContainerCreateFailed error
  | CopyToFailed error
  | CloseTarStreamFailed error
  | ContainerStartFailed error
  | ContainerRunFailed error
  | InspectAfterRunFailed error
  | StartTimeFailed error
  | EndTimeFailed error
  | LogsReadFailed error
  | NonZeroExitCode "64 word"
  | StepProblem string string
  | CloseFileFailed error
  | ContainerStopFailed error
  | ContainerRemoveFailed error

text \<open>
  How a call of \<^verbatim>\<open>RunGhcrContainer\<close> ends: it returns, the process exits in
  \<^verbatim>\<open>Fatalf\<close>, a deferred call panics, or it never ends (the progress display loops,
  or neither channel of the wait delivers).
\<close>

datatype outcome =
    Returned
  | Exited fatal
  | Panicked
  | Hangs

datatype wait_signal =
    ErrSignal "error option"
  | StatusSignal "64 word"
  | NoSignal

record auth_config =
  Username :: string
  Password :: string

text \<open>
  What the run reads from the configuration, and what the Docker client, the Docker CLI
  configuration and the library readers answer. A result \<open>error option\<close> is the error
  of the call; \<open>error + 'a\<close> is the error or the value.
  \<^item> \<open>Token\<close>, \<open>Quiet\<close>, \<open>LogPath\<close>: \<^verbatim>\<open>globals.Config.Github.Token\<close>,
    \<^verbatim>\<open>globals.Config.Quiet\<close> and \<^verbatim>\<open>globals.LogPath\<close>;
  \<^item> \<open>client_new\<close>: \<^verbatim>\<open>client.NewClientWithOpts\<close>;
  \<^item> \<open>config_load\<close>: \<^verbatim>\<open>cliconfig.Load\<close>, and for each host what
    \<^verbatim>\<open>GetAuthConfig\<close> returns;
  \<^item> \<open>json_marshal\<close>, \<open>base64url\<close>: \<^verbatim>\<open>json.Marshal\<close> and
    \<^verbatim>\<open>base64.URLEncoding.EncodeToString\<close>;
  \<^item> \<open>image_pull\<close>: \<^verbatim>\<open>cli.ImagePull\<close> for an image and a value of
    \<^verbatim>\<open>RegistryAuth\<close>: the error, or the progress stream the reader delivers;
  \<^item> \<open>image_inspect\<close>, \<open>container_create\<close> (the error or the ID of the container),
    \<open>container_start\<close>, \<open>container_stop\<close>, \<open>container_remove\<close>: the calls of the
    client of these names;
  \<^item> \<open>tar_with_options\<close>: \<^verbatim>\<open>archive.TarWithOptions\<close> for a parent directory, a base
    name and a destination; \<open>copy_to_container\<close>: \<^verbatim>\<open>cli.CopyToContainer\<close> for a local
    directory and a destination; \<open>tar_stream_close\<close>: \<^verbatim>\<open>tarStream.Close\<close>;
  \<^item> \<open>container_wait\<close>: the channel of \<^verbatim>\<open>cli.ContainerWait\<close> that delivers first,
    with what it delivers;
  \<^item> \<open>container_inspect\<close>: the error of \<^verbatim>\<open>cli.ContainerInspect\<close>, or
    \<^verbatim>\<open>State.StartedAt\<close> and \<^verbatim>\<open>State.FinishedAt\<close>; \<open>time_parse\<close>: the error of
    \<^verbatim>\<open>time.Parse\<close>;
  \<^item> \<open>container_logs\<close>: the error of \<^verbatim>\<open>cli.ContainerLogs\<close>, or what
    \<^verbatim>\<open>stdcopy.StdCopy\<close> makes of the reader: its error, or the bytes it wrote;
  \<^item> \<open>scan\<close>: the lines a \<^verbatim>\<open>bufio.Scanner\<close> yields on a buffer, and
    \<^verbatim>\<open>scanner.Err()\<close>;
  \<^item> \<open>copy_from_container\<close>: \<^verbatim>\<open>cli.CopyFromContainer\<close> for a path in the
    container: the error, or the items of the tar stream with \<^verbatim>\<open>stat.Name\<close> and
    \<^verbatim>\<open>stat.Mode.IsDir()\<close>; \<open>archive_reader_close\<close>: \<^verbatim>\<open>reader.Close\<close>.
\<close>

record env =
  Token :: string
  Quiet :: bool
  LogPath :: string
  client_new :: "error option"
  config_load :: "error + (string \<Rightarrow> auth_config)"
  json_marshal :: "auth_config \<Rightarrow> error + string"
  base64url :: "string \<Rightarrow> string"
  image_pull :: "string \<Rightarrow> string \<Rightarrow> error + (json_item list \<times> stream_end)"
  image_inspect :: "string \<Rightarrow> error option"
  container_create :: "error + string"
  tar_with_options :: "string \<Rightarrow> string \<Rightarrow> string \<Rightarrow> error option"
  copy_to_container :: "string \<Rightarrow> string \<Rightarrow> error option"
  tar_stream_close :: "error option"
  container_start :: "error option"
  container_wait :: wait_signal
  container_inspect :: "error + (string \<times> string)"
  time_parse :: "string \<Rightarrow> error option"
  container_logs :: "error + (error + string)"
  scan :: "string \<Rightarrow> string list \<times> error option"
  copy_from_container :: "string \<Rightarrow> error + (tar_item list \<times> string \<times> bool)"
  archive_reader_close :: "string \<Rightarrow> error option"
  container_stop :: "error option"
  container_remove :: "error option"

definition GithubDockerHost :: string where
  "GithubDockerHost = ''ghcr.io''"

definition ghcrUsername :: string where
  "ghcrUsername = ''USERNAME''"

text \<open>
  A step of the run either ends the call (\<open>Inl\<close>, with the outcome and the state it
  ends in) or goes on with a value and a state (\<open>Inr\<close>).
\<close>

type_synonym ('fs, 'a) step = "'fs state \<Rightarrow> (outcome \<times> 'fs state) + ('a \<times> 'fs state)"

definition andThen :: "('fs, 'a) step \<Rightarrow> ('a \<Rightarrow> ('fs, 'b) step) \<Rightarrow> ('fs, 'b) step" where
  "andThen m f st = (case m st of Inl fin \<Rightarrow> Inl fin | Inr (a, st') \<Rightarrow> f a st')"

definition Fatalf :: "fatal \<Rightarrow> 'fs state \<Rightarrow> (outcome \<times> 'fs state) + ('a \<times> 'fs state)" where
  "Fatalf f st = Inl (Exited f, st)"

definition defer_call :: "deferred_call \<Rightarrow> 'fs state \<Rightarrow> 'fs state" where
  "defer_call d st = st\<lparr>deferred := d # deferred st\<rparr>"

text \<open>
  A return of \<^verbatim>\<open>RunGhcrContainer\<close> runs the deferred calls, last deferred first. The
  results of \<^verbatim>\<open>Close\<close> and of \<^verbatim>\<open>ContainerKill\<close> are assigned or dropped, never
  tested. \<^verbatim>\<open>out.Close()\<close> on a \<^verbatim>\<open>nil\<close> reader panics; the remaining deferred calls
  still run, and the process ends with the panic.
\<close>

fun run_deferred :: "deferred_call list \<Rightarrow> bool \<Rightarrow> 'fs state \<Rightarrow> outcome \<times> 'fs state" where
  "run_deferred [] panicking st = (if panicking then Panicked else Returned, st)"
| "run_deferred (CloseClient # ds) panicking st =
     run_deferred ds panicking (emit (Docker ClientClose) st)"
| "run_deferred (ClosePullReader # ds) panicking st =
     run_deferred ds panicking (emit (Docker PullReaderClose) st)"
| "run_deferred (KillContainer containerID # ds) panicking st =
     run_deferred ds panicking (emit (Docker (ContainerKill containerID ''SIGKILL'')) st)"
| "run_deferred (CloseLogs has_reader # ds) panicking st =
     (if has_reader then run_deferred ds panicking (emit (Docker LogsReaderClose) st)
      else run_deferred ds True st)"

definition return_now :: "'fs state \<Rightarrow> outcome \<times> 'fs state" where
  "return_now st = run_deferred (deferred st) False (st\<lparr>deferred := []\<rparr>)"

text \<open>Lines 259 to 263: no destination of an output mapping may exist.\<close>

fun preflight :: "'fs host \<Rightarrow> (string \<times> string) list \<Rightarrow> ('fs, unit) step" where
  "preflight h [] st = Inr ((), st)"
| "preflight h ((copyFrom, copyTo) # rest) st =
     (if stat h (fs st) copyTo = None then Fatalf (FileAlreadyExist copyTo) st
      else preflight h rest st)"

text \<open>Lines 265 to 272: the client, and its deferred \<^verbatim>\<open>Close\<close>.\<close>

definition new_client :: "env \<Rightarrow> ('fs, unit) step" where
  "new_client ev st =
     (let st1 = emit (Docker NewClient) st
      in case client_new ev of
           Some e \<Rightarrow> Fatalf (ClientCreateFailed e) st1
         | None \<Rightarrow> Inr ((), defer_call CloseClient st1))"

text \<open>
  Lines 274 to 305: the value of \<^verbatim>\<open>options.RegistryAuth\<close>, empty when no credential is
  sent. The error of \<^verbatim>\<open>GetAuthConfig\<close> is dropped; only the password it returns is
  used.
\<close>

definition pull_options :: "env \<Rightarrow> string \<Rightarrow> ('fs, string) step" where
  "pull_options ev imageLink st =
     (if HasPrefix imageLink GithubDockerHost then
        (case (if Token ev = [] then
                 (case config_load ev of
                    Inl e \<Rightarrow> Inl e
                  | Inr cfg \<Rightarrow> Inr (Password (cfg GithubDockerHost)))
               else Inr (Token ev)) of
           Inl e \<Rightarrow> Fatalf (DockerConfigLoadFailed e) st
         | Inr password \<Rightarrow>
             (if password \<noteq> [] then
                (case json_marshal ev \<lparr>Username = ghcrUsername, Password = password\<rparr> of
                   Inl e \<Rightarrow> Fatalf (AuthEncodeFailed e) st
                 | Inr encodedJSON \<Rightarrow> Inr (base64url ev encodedJSON, st))
              else Inr ([], st)))
      else Inr ([], st))"

text \<open>
  Lines 307 to 322: the pull. When it succeeds its reader is read to the end, silently
  or through the progress display; the value is the error of the pull.
\<close>

definition pull_image :: "env \<Rightarrow> string \<Rightarrow> string \<Rightarrow> ('fs, error option) step" where
  "pull_image ev imageLink registryAuth st =
     (let st1 = emit (Docker (ImagePull imageLink registryAuth)) st
      in case image_pull ev imageLink registryAuth of
           Inl imagePullErr \<Rightarrow> Inr (Some imagePullErr, st1)
         | Inr (items, e) \<Rightarrow>
             (let st2 = defer_call ClosePullReader st1
              in if Quiet ev then Inr (None, st2)
                 else (case DisplayInteractiveProgress items e of
                         None \<Rightarrow> Inl (Hangs, st2)
                       | Some out \<Rightarrow> Inr (None, st2\<lparr>trace := trace st2 @ map Print out\<rparr>))))"

text \<open>Lines 324 to 345: the image must be there, pulled now or before.\<close>

definition inspect_image :: "env \<Rightarrow> string \<Rightarrow> error option \<Rightarrow> ('fs, unit) step" where
  "inspect_image ev imageLink imagePullErr st =
     (let st1 = emit (Docker (ImageInspect imageLink)) st
      in case image_inspect ev imageLink of
           Some e \<Rightarrow>
             (case imagePullErr of
                Some pe \<Rightarrow> Fatalf (ImageUnusable imageLink pe) st1
              | None \<Rightarrow> Fatalf (ImageUnusable imageLink e) st1)
         | None \<Rightarrow> Inr ((), st1))"

text \<open>Lines 347 to 350.\<close>

definition create_container ::
  "env \<Rightarrow> string \<Rightarrow> string list \<Rightarrow> string list \<Rightarrow> ('fs, string) step" where
  "create_container ev imageLink flags envCont st =
     (let st1 = emit (Docker (ContainerCreate imageLink flags envCont)) st
      in case container_create ev of
           Inl e \<Rightarrow> Fatalf (ContainerCreateFailed e) st1
         | Inr containerID \<Rightarrow> Inr (containerID, st1))"

text \<open>
  \<^verbatim>\<open>CopyToContainer\<close> (lines 488 to 532). The value is the error it returns. The
  deferred function closes the tar stream on every return after the stream was opened,
  and ends the process when closing fails.
\<close>

definition CopyToContainer ::
  "'fs host \<Rightarrow> env \<Rightarrow> string \<Rightarrow> string \<Rightarrow> string \<Rightarrow> ('fs, error option) step" where
  "CopyToContainer h ev containerID localDir containerDestPath st =
     (case stat h (fs st) localDir of
        Some e \<Rightarrow> Inr (Some (''cannot stat local path: '' @ e), st)
      | None \<Rightarrow>
          (let baseName = Base localDir;
               parentDir = Dir localDir;
               st1 = emit (Docker (TarWithOptions parentDir baseName containerDestPath)) st
           in case tar_with_options ev parentDir baseName containerDestPath of
                Some e \<Rightarrow> Inr (Some (''failed to create tar archive: '' @ e), st1)
              | None \<Rightarrow>
                  (let st2 = emit (Docker (CliCopyToContainer containerID [Separator])) st1;
                       result = (case copy_to_container ev localDir containerDestPath of
                                   Some e \<Rightarrow> Some (''failed to copy to container: '' @ e)
                                 | None \<Rightarrow> None);
                       st3 = emit (Docker TarStreamClose) st2
                   in case tar_stream_close ev of
                        Some e \<Rightarrow> Fatalf (CloseTarStreamFailed e) st3
                      | None \<Rightarrow> Inr (result, st3))))"

text \<open>Lines 356 to 364: every input mapping is staged before the container starts.\<close>

fun stage_inputs ::
  "'fs host \<Rightarrow> env \<Rightarrow> string \<Rightarrow> (string \<times> string) list \<Rightarrow> ('fs, unit) step" where
  "stage_inputs h ev containerID [] st = Inr ((), st)"
| "stage_inputs h ev containerID ((copyFrom, copyTo) # rest) st =
     (case CopyToContainer h ev containerID copyFrom copyTo st of
        Inl fin \<Rightarrow> Inl fin
      | Inr (Some e, st') \<Rightarrow>
          Fatalf (CopyToFailed e)
            (emit (Log ErrorLevel
               (''Unexpected error occurred while trying to copy files to container: from ''
                  @ copyFrom @ '' to '' @ copyTo)) st')
      | Inr (None, st') \<Rightarrow> stage_inputs h ev containerID rest st')"

text \<open>Lines 366 to 372: the start, and the deferred kill once it succeeded.\<close>

definition start_container :: "env \<Rightarrow> string \<Rightarrow> ('fs, unit) step" where
  "start_container ev containerID st =
     (let st1 = emit (Docker (ContainerStart containerID)) st
      in case container_start ev of
           Some e \<Rightarrow> Fatalf (ContainerStartFailed e) st1
         | None \<Rightarrow> Inr ((), defer_call (KillContainer containerID) st1))"

text \<open>
  Lines 401 to 433, in the status case of the \<^verbatim>\<open>select\<close>: the logs, then the exit
  code. The deferred \<^verbatim>\<open>out.Close()\<close> is set up before the error of
  \<^verbatim>\<open>ContainerLogs\<close> is tested; with an error the client returns no reader. The
  \<^verbatim>\<open>return\<close> of line 412 returns from \<^verbatim>\<open>RunGhcrContainer\<close>.
\<close>

definition collect_logs :: "env \<Rightarrow> string \<Rightarrow> 64 word \<Rightarrow> ('fs, unit) step" where
  "collect_logs ev containerID statusCode st =
     (let st1 = emit (Docker (ContainerLogs containerID)) st
      in case container_logs ev of
           Inl e \<Rightarrow>
             Inl (return_now
                    (emit (Log DebugLevel (''Failed to get container logs: '' @ e))
                       (defer_call (CloseLogs False) st1)))
         | Inr out \<Rightarrow>
             (let st2 = defer_call (CloseLogs True) st1
              in case out of
                   Inl e \<Rightarrow> Fatalf (LogsReadFailed e) st2
                 | Inr sourceBuffer \<Rightarrow>
                     (let allLogs = concat (map (\<lambda>line. line @ [CHR 0x0A])
                                              (fst (scan ev sourceBuffer)));
                          st3 = (case snd (scan ev sourceBuffer) of
                                   Some e \<Rightarrow>
                                     emit (Log DebugLevel
                                             (''Error reading container logs: '' @ e)) st2
                                 | None \<Rightarrow> st2);
                          st4 = emit (Log DebugLevel
                                        (''Container log:'' @ [CHR 0x0A] @ allLogs)) st3
                      in if statusCode \<noteq> 0 then Fatalf (NonZeroExitCode statusCode) st4
                         else Inr ((), st4))))"

text \<open>
  Lines 374 to 434: the \<^verbatim>\<open>select\<close> on the two channels of \<^verbatim>\<open>ContainerWait\<close>. An
  error channel that delivers \<^verbatim>\<open>nil\<close> leaves the \<^verbatim>\<open>select\<close> at once.
\<close>

definition wait_container :: "env \<Rightarrow> string \<Rightarrow> ('fs, unit) step" where
  "wait_container ev containerID st =
     (let st1 = emit (Docker (ContainerWait containerID)) st
      in case container_wait ev of
           NoSignal \<Rightarrow> Inl (Hangs, st1)
         | ErrSignal (Some e) \<Rightarrow> Fatalf (ContainerRunFailed e) st1
         | ErrSignal None \<Rightarrow> Inr ((), st1)
         | StatusSignal statusCode \<Rightarrow>
             (let st2 = emit (Docker (ContainerInspect containerID)) st1
              in case container_inspect ev of
                   Inl e \<Rightarrow> Fatalf (InspectAfterRunFailed e) st2
                 | Inr (startedAt, finishedAt) \<Rightarrow>
                     (case time_parse ev startedAt of
                        Some e \<Rightarrow> Fatalf (StartTimeFailed e) st2
                      | None \<Rightarrow>
                          (case time_parse ev finishedAt of
                             Some e \<Rightarrow> Fatalf (EndTimeFailed e) st2
                           | None \<Rightarrow> collect_logs ev containerID statusCode st2))))"

text \<open>
  \<^verbatim>\<open>CopyFileFromContainer\<close> (lines 461 to 486). The value is the error it returns. The
  deferred function closes the archive reader on every return after the reader was
  opened, and ends the process when closing fails.
\<close>

definition CopyFileFromContainer ::
  "'fs host \<Rightarrow> env \<Rightarrow> string \<Rightarrow> string \<Rightarrow> string \<Rightarrow> ('fs, error option) step" where
  "CopyFileFromContainer h ev containerID containerPath hostPath st =
     (if stat h (fs st) hostPath = None then
        Inr (Some (''file already exists: '' @ hostPath), st)
      else
        (let st1 = emit (Docker (CliCopyFromContainer containerID containerPath)) st
         in case copy_from_container ev containerPath of
              Inl e \<Rightarrow> Inr (Some (''failed to copy from container: '' @ e), st1)
            | Inr (items, statName, isDir) \<Rightarrow>
                (case ExtractTar h items statName hostPath isDir st1 of
                   (r, st2) \<Rightarrow>
                     (let result = (case r of
                                      Some e \<Rightarrow> Some (''failed to extract tar archive: '' @ e)
                                    | None \<Rightarrow> None);
                          st3 = emit (Docker ArchiveReaderClose) st2
                      in case archive_reader_close ev containerPath of
                           Some e \<Rightarrow> Fatalf (CloseFileFailed e) st3
                         | None \<Rightarrow> Inr (result, st3)))))"

text \<open>Lines 436 to 447: every output mapping is collected after the wait.\<close>

fun collect_outputs ::
  "'fs host \<Rightarrow> env \<Rightarrow> string \<Rightarrow> string \<Rightarrow> (string \<times> string) list \<Rightarrow> ('fs, unit) step" where
  "collect_outputs h ev taskName containerID [] st = Inr ((), st)"
| "collect_outputs h ev taskName containerID ((copyFrom, copyTo) # rest) st =
     (case CopyFileFromContainer h ev containerID copyFrom copyTo st of
        Inl fin \<Rightarrow> Inl fin
      | Inr (Some e, st') \<Rightarrow>
          (let st1 = emit (Log ErrorLevel e) st';
               st2 = (if taskName = ''Compile''
                      then emit (Log ErrorLevel ''Try compile with flag --native'') st1
                      else st1)
           in Fatalf (StepProblem taskName (LogPath ev)) st2)
      | Inr (None, st') \<Rightarrow> collect_outputs h ev taskName containerID rest st')"

text \<open>Lines 449 to 458.\<close>

definition stop_container :: "env \<Rightarrow> string \<Rightarrow> ('fs, unit) step" where
  "stop_container ev containerID st =
     (let st1 = emit (Docker (ContainerStop containerID)) st
      in case container_stop ev of
           Some e \<Rightarrow> Fatalf (ContainerStopFailed e) st1
         | None \<Rightarrow> Inr ((), st1))"

definition remove_container :: "env \<Rightarrow> string \<Rightarrow> ('fs, unit) step" where
  "remove_container ev containerID st =
     (let st1 = emit (Docker (ContainerRemove containerID)) st
      in case container_remove ev of
           Some e \<Rightarrow> Fatalf (ContainerRemoveFailed e) st1
         | None \<Rightarrow> Inr ((), st1))"

text \<open>
  The parts of \<^verbatim>\<open>RunGhcrContainer\<close> in the order of the source. A map of Go is given
  as the list of its entries in the order the \<^verbatim>\<open>range\<close> visits them.
\<close>

definition upto_options ::
  "'fs host \<Rightarrow> env \<Rightarrow> string \<Rightarrow> (string \<times> string) list \<Rightarrow> ('fs, string) step" where
  "upto_options h ev imageLink copyFromContainer =
     andThen (preflight h copyFromContainer) (\<lambda>_.
     andThen (new_client ev) (\<lambda>_.
     pull_options ev imageLink))"

definition acquire_image :: "env \<Rightarrow> string \<Rightarrow> string \<Rightarrow> ('fs, unit) step" where
  "acquire_image ev imageLink registryAuth =
     andThen (pull_image ev imageLink registryAuth) (\<lambda>imagePullErr.
     inspect_image ev imageLink imagePullErr)"

definition upto_create ::
  "'fs host \<Rightarrow> env \<Rightarrow> string \<Rightarrow> string list \<Rightarrow> string list \<Rightarrow> (string \<times> string) list
     \<Rightarrow> ('fs, string) step" where
  "upto_create h ev imageLink flags envCont copyFromContainer =
     andThen (upto_options h ev imageLink copyFromContainer) (\<lambda>registryAuth.
     andThen (acquire_image ev imageLink registryAuth) (\<lambda>_.
     create_container ev imageLink flags envCont))"

definition upto_start ::
  "'fs host \<Rightarrow> env \<Rightarrow> string \<Rightarrow> string list \<Rightarrow> string list \<Rightarrow> (string \<times> string) list
     \<Rightarrow> (string \<times> string) list \<Rightarrow> ('fs, string) step" where
  "upto_start h ev imageLink flags envCont copyToContainer copyFromContainer =
     andThen (upto_create h ev imageLink flags envCont copyFromContainer) (\<lambda>containerID.
     andThen (stage_inputs h ev containerID copyToContainer) (\<lambda>_.
     andThen (start_container ev containerID) (\<lambda>_.
     (\<lambda>st. Inr (containerID, st)))))"

definition after_wait ::
  "'fs host \<Rightarrow> env \<Rightarrow> string \<Rightarrow> string \<Rightarrow> (string \<times> string) list \<Rightarrow> ('fs, unit) step" where
  "after_wait h ev taskName containerID copyFromContainer =
     andThen (collect_outputs h ev taskName containerID copyFromContainer) (\<lambda>_.
     andThen (stop_container ev containerID) (\<lambda>_.
     remove_container ev containerID))"

definition finish :: "(outcome \<times> 'fs state) + (unit \<times> 'fs state) \<Rightarrow> outcome \<times> 'fs state" where
  "finish r = (case r of Inl fin \<Rightarrow> fin | Inr (_, st) \<Rightarrow> return_now st)"

definition RunGhcrContainer ::
  "'fs host \<Rightarrow> env \<Rightarrow> string \<Rightarrow> string \<Rightarrow> string list \<Rightarrow> string list
     \<Rightarrow> (string \<times> string) list \<Rightarrow> (string \<times> string) list \<Rightarrow> 'fs state
     \<Rightarrow> outcome \<times> 'fs state" where
  "RunGhcrContainer h ev taskName imageLink flags envCont copyToContainer copyFromContainer st =
     finish
       (andThen (upto_start h ev imageLink flags envCont copyToContainer copyFromContainer)
          (\<lambda>containerID.
        andThen (wait_container ev containerID) (\<lambda>_.
        after_wait h ev taskName containerID copyFromContainer)) st)"

section \<open>A concrete run\<close>

text \<open>
  The scenario of the specification, used to evaluate the runner: a host on which no
  call fails and whose file system is the list of the paths that exist, and a daemon
  that answers every call without error. The task compiles \<^verbatim>\<open>/host/proj\<close> and collects
  \<^verbatim>\<open>/data/build\<close> into \<^verbatim>\<open>/host/out\<close>.
\<close>

definition plain_host :: "string list host" where
  "plain_host =
     \<lparr>sys = (\<lambda>c paths.
              (None,
               (case c of
                  MkdirAll p m \<Rightarrow> p # paths
                | Create p \<Rightarrow> p # paths
                | Symlink l p \<Rightarrow> p # paths
                | Copy p b \<Rightarrow> paths
                | Close p \<Rightarrow> paths))),
      stat = (\<lambda>paths p. if p \<in> set paths then None else Some ''no such file or directory'')\<rparr>"

definition build_archive :: "tar_item list" where
  "build_archive =
     [Entry \<lparr>Name = ''build/'', Typeflag = TypeDir, Mode = 493, Linkname = []\<rparr> [] None,
      Entry \<lparr>Name = ''build/app.jar'', Typeflag = TypeReg, Mode = 420, Linkname = []\<rparr>
        ''PK'' None]"

definition pull_progress :: "json_item list" where
  "pull_progress =
     [Value \<lparr>Status = ''Pulling fs layer'', Progress = [], ID = ''a1''\<rparr>,
      Value \<lparr>Status = ''Pull complete'', Progress = [], ID = ''a1''\<rparr>]"

definition scenario_env :: env where
  "scenario_env =
     \<lparr>Token = [], Quiet = False, LogPath = ''/home/user/.seqra/logs/run.log'',
      client_new = None,
      config_load = Inr (\<lambda>host. \<lparr>Username = [], Password = []\<rparr>),
      json_marshal = (\<lambda>a. Inr (Username a @ '':'' @ Password a)),
      base64url = (\<lambda>s. s),
      image_pull = (\<lambda>image auth. Inr (pull_progress, CleanEnd)),
      image_inspect = (\<lambda>image. None),
      container_create = Inr ''c0ffee'',
      tar_with_options = (\<lambda>parentDir baseName dest. None),
      copy_to_container = (\<lambda>localDir dest. None),
      tar_stream_close = None,
      container_start = None,
      container_wait = StatusSignal 0,
      container_inspect = Inr (''2025-09-01T10:00:00Z'', ''2025-09-01T10:00:05Z''),
      time_parse = (\<lambda>t. None),
      container_logs = Inr (Inr ''BUILD OK''),
      scan = (\<lambda>buf. ([buf], None)),
      copy_from_container = (\<lambda>containerPath. Inr (build_archive, ''build'', True)),
      archive_reader_close = (\<lambda>containerPath. None),
      container_stop = None,
      container_remove = None\<rparr>"

definition pax_header :: tar_header where
  "pax_header = \<lparr>Name = ''pax_global_header'', Typeflag = TypeXGlobalHeader, Mode = 0, Linkname = []\<rparr>"

definition jar_header :: tar_header where
  "jar_header = \<lparr>Name = ''build/app.jar'', Typeflag = TypeReg, Mode = 420, Linkname = []\<rparr>"

definition scenario_start :: "string list state" where
  "scenario_start = \<lparr>fs = [''/host/proj''], trace = [], deferred = []\<rparr>"

definition client_ready :: "string list state" where
  "client_ready = \<lparr>fs = [''/host/proj''], trace = [Docker NewClient], deferred = [CloseClient]\<rparr>"

definition scenario_run :: "env \<Rightarrow> outcome \<times> string list state" where
  "scenario_run ev =
     RunGhcrContainer plain_host ev ''Compile'' ''registry/builder:v1'' [] []
       [(''/host/proj'', ''/data/project'')] [(''/data/build'', ''/host/out'')] scenario_start"

section \<open>Notions used to state the properties\<close>

text \<open>
  The calls of a trace are its events other than log lines. Two states have the same
  effects when they agree on the file system, on the deferred calls and on the calls
  made so far; they may differ in what was logged.
\<close>

definition calls_of :: "event list \<Rightarrow> event list" where
  "calls_of tr = filter (\<lambda>e. case e of Log l m \<Rightarrow> False | _ \<Rightarrow> True) tr"

definition same_effects :: "'fs state \<Rightarrow> 'fs state \<Rightarrow> bool" where
  "same_effects s t \<longleftrightarrow>
     fs s = fs t \<and> deferred s = deferred t \<and> calls_of (trace s) = calls_of (trace t)"

text \<open>
  The state a step ends in, whether it ends the call or goes on. A step extends the
  trace when the trace it starts from is a prefix of the trace it ends with. Two
  results are the same up to logging when both end the call with the same outcome, or
  both go on with the same value, in states with the same effects.
\<close>

definition state_of :: "(outcome \<times> 'fs state) + ('a \<times> 'fs state) \<Rightarrow> 'fs state" where
  "state_of r = (case r of Inl (out, st) \<Rightarrow> st | Inr (a, st) \<Rightarrow> st)"

text \<open>The states the scenario is in after the start, the wait and the collection.\<close>

definition started_with :: "env \<Rightarrow> string list state" where
  "started_with ev =
     state_of (upto_start plain_host ev ''registry/builder:v1'' [] []
                 [(''/host/proj'', ''/data/project'')] [(''/data/build'', ''/host/out'')]
                 scenario_start)"

definition waited_with :: "env \<Rightarrow> string list state" where
  "waited_with ev = state_of (wait_container ev ''c0ffee'' (started_with ev))"

definition collected_with :: "env \<Rightarrow> string list state" where
  "collected_with ev =
     state_of (collect_outputs plain_host ev ''Compile'' ''c0ffee''
                 [(''/data/build'', ''/host/out'')] (waited_with ev))"

definition extends_trace :: "('fs, 'a) step \<Rightarrow> bool" where
  "extends_trace f \<longleftrightarrow> (\<forall>st. prefix (trace st) (trace (state_of (f st))))"

definition same_result ::
  "(outcome \<times> 'fs state) + ('a \<times> 'fs state) \<Rightarrow> (outcome \<times> 'fs state) + ('a \<times> 'fs state) \<Rightarrow> bool"
  where
  "same_result r1 r2 =
     (case r1 of
        Inl (out1, s1) \<Rightarrow>
          (case r2 of Inl (out2, s2) \<Rightarrow> out1 = out2 \<and> same_effects s1 s2 | Inr x \<Rightarrow> False)
      | Inr (a1, s1) \<Rightarrow>
          (case r2 of Inl x \<Rightarrow> False | Inr (a2, s2) \<Rightarrow> a1 = a2 \<and> same_effects s1 s2))"

text \<open>
  A step emits only events of a kind when what it appends to the trace is of that
  kind. The teardown calls are \<^verbatim>\<open>ContainerStop\<close> and \<^verbatim>\<open>ContainerRemove\<close>.
\<close>

definition emits_only :: "(event \<Rightarrow> bool) \<Rightarrow> ('fs, 'a) step \<Rightarrow> bool" where
  "emits_only P f \<longleftrightarrow>
     (\<forall>st. \<exists>evs. trace (state_of (f st)) = trace st @ evs \<and> list_all P evs)"

fun teardown_call :: "event \<Rightarrow> bool" where
  "teardown_call (Docker (ContainerStop c)) = True"
| "teardown_call (Docker (ContainerRemove c)) = True"
| "teardown_call e = False"

abbreviation no_teardown :: "('fs, 'a) step \<Rightarrow> bool" where
  "no_teardown f \<equiv> emits_only (\<lambda>e. \<not> teardown_call e) f"

text \<open>
  The rebasing in the words of the specification: the base path is stripped from the
  name as a prefix, and then one path separator that follows.
\<close>

definition strip_base :: "string \<Rightarrow> string \<Rightarrow> string" where
  "strip_base basePath name =
     (let r = (if prefix basePath name then drop (length basePath) name else name)
      in case r of
           [] \<Rightarrow> []
         | c # cs \<Rightarrow> (if c = Separator then cs else r))"

text \<open>
  What writing an entry at a path means, in the words of the specification: a
  directory entry creates the directory with the mode of the entry; a regular file
  creates the parent directory, creates the file, copies the content and closes the
  file; a symlink creates the parent directory and the link; any other entry writes
  nothing.
\<close>

fun entry_calls :: "string \<Rightarrow> tar_item \<Rightarrow> event list" where
  "entry_calls target (Corrupt e) = []"
| "entry_calls target (Entry hdr body body_err) =
     (if Typeflag hdr = TypeDir then [Sys (MkdirAll target (ucast (Mode hdr)))]
      else if Typeflag hdr = TypeReg then
        [Sys (MkdirAll (Dir target) 493), Sys (Create target), Sys (Copy target body),
         Sys (Close target)]
      else if Typeflag hdr = TypeSymlink then
        [Sys (MkdirAll (Dir target) 493), Sys (Symlink (Linkname hdr) target)]
      else [])"

fun item_name :: "tar_item \<Rightarrow> string" where
  "item_name (Corrupt e) = []"
| "item_name (Entry hdr body body_err) = Name hdr"

section \<open>Properties of the progress display\<close>

lemma Decode_stored:
  "err dec = Some e \<Longrightarrow> Decode dec = (Inl e, dec)"
  by (simp add: Decode_def)

lemma progress_loop_stuck_aux:
  assumes "progress_loop dec st = Some r"
  shows "err dec = None \<or> err dec = Some EOF"
proof (rule progress_loop.raw_induct
    [where P = "\<lambda>d s y. err d = None \<or> err d = Some EOF" and dec = dec and st = st and y = r])
  show "progress_loop dec st = Some r" by fact
next
  fix loop :: "decoder \<Rightarrow> display \<Rightarrow> display option" and d s y
  assume IH: "\<And>d' s' y'. loop d' s' = Some y' \<Longrightarrow> err d' = None \<or> err d' = Some EOF"
  assume step: "(case Decode d of
        (Inl e, dec') \<Rightarrow> (if e = EOF then Some s else loop dec' s)
      | (Inr p, dec') \<Rightarrow> loop dec' (redraw p s)) = Some y"
  show "err d = None \<or> err d = Some EOF"
  proof (cases "err d")
    case None
    then show ?thesis by simp
  next
    case (Some e)
    show ?thesis
    proof (cases "e = EOF")
      case True
      with Some show ?thesis by simp
    next
      case False
      with Some step have "loop d s = Some y"
        by (simp add: Decode_stored)
      from IH [OF this] show ?thesis .
    qed
  qed
qed

lemma progress_loop_stuck:
  "err dec = Some e \<Longrightarrow> e \<noteq> EOF \<Longrightarrow> progress_loop dec st = None"
  using progress_loop_stuck_aux [of dec st] by (cases "progress_loop dec st") auto

lemma progress_loop_Garbage:
  "err dec = None \<Longrightarrow> Garbage \<in> set (input dec) \<Longrightarrow> progress_loop dec st = None"
proof (induction "input dec" arbitrary: dec st)
  case Nil
  then show ?case by simp
next
  case (Cons x xs)
  from Cons.hyps(2) have inp: "input dec = x # xs" by simp
  show ?case
  proof (cases x)
    case (Value p)
    with Cons.prems inp have "Garbage \<in> set xs" by auto
    with Cons.prems have "progress_loop (dec\<lparr>input := xs\<rparr>) (redraw p st) = None"
      by (intro Cons.hyps(1)) simp_all
    with Cons.prems inp Value show ?thesis
      by (subst progress_loop.simps) (simp add: Decode_def)
  next
    case Mismatch
    with Cons.prems inp have "Garbage \<in> set xs" by auto
    with Cons.prems have "progress_loop (dec\<lparr>input := xs\<rparr>) st = None"
      by (intro Cons.hyps(1)) simp_all
    with Cons.prems inp Mismatch show ?thesis
      by (subst progress_loop.simps) (simp add: Decode_def)
  next
    case Garbage
    have "progress_loop (dec\<lparr>err := Some SyntaxError\<rparr>) st = None"
      by (rule progress_loop_stuck [where e = SyntaxError]) simp_all
    with Cons.prems inp Garbage show ?thesis
      by (subst progress_loop.simps) (simp add: Decode_def)
  qed
qed

lemma DisplayInteractiveProgress_Garbage:
  "Garbage \<in> set items \<Longrightarrow> DisplayInteractiveProgress items e = None"
  by (simp add: DisplayInteractiveProgress_def NewDecoder_def progress_loop_Garbage)

text \<open>
  The loop does leave when the stream holds only complete JSON values and ends
  cleanly, whether the values fit the progress struct or not.
\<close>

lemma progress_loop_total:
  "err dec = None \<Longrightarrow> ending dec = CleanEnd \<Longrightarrow> Garbage \<notin> set (input dec)
    \<Longrightarrow> \<exists>r. progress_loop dec st = Some r"
proof (induction "input dec" arbitrary: dec st)
  case Nil
  then show ?case
    by (subst progress_loop.simps) (simp add: Decode_def end_error_def)
next
  case (Cons x xs)
  from Cons.hyps(2) have inp: "input dec = x # xs" by simp
  show ?case
  proof (cases x)
    case (Value p)
    have "\<exists>r. progress_loop (dec\<lparr>input := xs\<rparr>) (redraw p st) = Some r"
      using Cons.prems inp by (intro Cons.hyps(1)) auto
    then show ?thesis using Cons.prems inp Value
      by (subst progress_loop.simps) (simp add: Decode_def)
  next
    case Mismatch
    have "\<exists>r. progress_loop (dec\<lparr>input := xs\<rparr>) st = Some r"
      using Cons.prems inp by (intro Cons.hyps(1)) auto
    then show ?thesis using Cons.prems inp Mismatch
      by (subst progress_loop.simps) (simp add: Decode_def)
  next
    case Garbage
    with Cons.prems inp show ?thesis by simp
  qed
qed

lemma DisplayInteractiveProgress_total:
  "Garbage \<notin> set items \<Longrightarrow> \<exists>out. DisplayInteractiveProgress items CleanEnd = Some out"
  using progress_loop_total [of "NewDecoder items CleanEnd" init_display]
  by (auto simp: DisplayInteractiveProgress_def NewDecoder_def)

lemma progress_loop_unclean_end:
  "err dec = None \<Longrightarrow> ending dec \<noteq> CleanEnd \<Longrightarrow> progress_loop dec st = None"
proof (induction "input dec" arbitrary: dec st)
  case Nil
  have "progress_loop (dec\<lparr>err := Some (end_error (ending dec))\<rparr>) st = None"
    using Nil.prems(2)
    by (intro progress_loop_stuck [where e = "end_error (ending dec)"])
       (cases "ending dec"; simp add: end_error_def)+
  moreover have "end_error (ending dec) \<noteq> EOF"
    using Nil.prems(2) by (cases "ending dec") (simp_all add: end_error_def)
  ultimately show ?case using Nil
    by (subst progress_loop.simps) (simp add: Decode_def)
next
  case (Cons x xs)
  from Cons.hyps(2) have inp: "input dec = x # xs" by simp
  show ?case
  proof (cases x)
    case (Value p)
    from Cons.prems have "progress_loop (dec\<lparr>input := xs\<rparr>) (redraw p st) = None"
      by (intro Cons.hyps(1)) simp_all
    with Cons.prems inp Value show ?thesis
      by (subst progress_loop.simps) (simp add: Decode_def)
  next
    case Mismatch
    from Cons.prems have "progress_loop (dec\<lparr>input := xs\<rparr>) st = None"
      by (intro Cons.hyps(1)) simp_all
    with Cons.prems inp Mismatch show ?thesis
      by (subst progress_loop.simps) (simp add: Decode_def)
  next
    case Garbage
    with Cons.prems inp show ?thesis
      by (intro progress_loop_Garbage) simp_all
  qed
qed

text \<open>
  The display returns exactly on a stream of complete JSON values that ends cleanly.
\<close>

lemma DisplayInteractiveProgress_returns_iff:
  "DisplayInteractiveProgress items e \<noteq> None \<longleftrightarrow> Garbage \<notin> set items \<and> e = CleanEnd"
proof
  assume r: "DisplayInteractiveProgress items e \<noteq> None"
  show "Garbage \<notin> set items \<and> e = CleanEnd"
  proof (rule ccontr)
    assume "\<not> (Garbage \<notin> set items \<and> e = CleanEnd)"
    then consider "Garbage \<in> set items" | "e \<noteq> CleanEnd" by blast
    then have "DisplayInteractiveProgress items e = None"
    proof cases
      case 1
      then show ?thesis by (rule DisplayInteractiveProgress_Garbage)
    next
      case 2
      then show ?thesis
        by (simp add: DisplayInteractiveProgress_def NewDecoder_def progress_loop_unclean_end)
    qed
    with r show False by simp
  qed
next
  assume "Garbage \<notin> set items \<and> e = CleanEnd"
  with DisplayInteractiveProgress_total [of items] show "DisplayInteractiveProgress items e \<noteq> None"
    by auto
qed

text \<open>
  With the display on, a pull whose progress stream holds bytes that are not JSON
  never gets past the display.
\<close>

lemma pull_image_hangs:
  assumes "image_pull ev imageLink auth = Inr (items, e)" and "\<not> Quiet ev"
    and "Garbage \<in> set items"
  shows "pull_image ev imageLink auth st
           = Inl (Hangs, defer_call ClosePullReader (emit (Docker (ImagePull imageLink auth)) st))"
  using assms by (simp add: pull_image_def DisplayInteractiveProgress_Garbage)

text \<open>
  Claim C10 says that the rendering loop of the pull progress ends for every finite
  stream, also one that holds bytes that are not JSON. In the code it does not: on a
  stream with a stretch of bytes that is not JSON between two progress values, the
  decoder returns the same syntax error on every call from then on, the loop takes
  \<^verbatim>\<open>continue\<close> each time, and \<^verbatim>\<open>io.EOF\<close> is never seen.
\<close>

theorem DisplayInteractiveProgress_malformed_never_returns:
  "DisplayInteractiveProgress
     [Value \<lparr>Status = ''Pulling fs layer'', Progress = [], ID = ''a1''\<rparr>, Garbage,
      Value \<lparr>Status = ''Pull complete'', Progress = [], ID = ''a1''\<rparr>] CleanEnd = None"
  by (rule DisplayInteractiveProgress_Garbage) simp

section \<open>Properties of the task runner\<close>

lemma preflight_conflict_aux:
  "(containerPath, hostPath) \<in> set outs \<Longrightarrow> stat h (fs st) hostPath = None \<Longrightarrow>
     \<exists>p \<in> snd ` set outs. stat h (fs st) p = None \<and>
        preflight h outs st = Inl (Exited (FileAlreadyExist p), st)"
proof (induction outs)
  case Nil
  then show ?case by simp
next
  case (Cons a outs)
  obtain cf ct where a: "a = (cf, ct)" by (cases a)
  show ?case
  proof (cases "stat h (fs st) ct = None")
    case True
    with a show ?thesis by (auto simp: Fatalf_def)
  next
    case False
    with Cons a have "(containerPath, hostPath) \<in> set outs" by auto
    from Cons.IH [OF this Cons.prems(2)] False a show ?thesis by auto
  qed
qed

text \<open>
  Claim C3: when the host destination of some output mapping exists before the run
  (\<^verbatim>\<open>os.Stat\<close> returns no error for it), the run ends with the fatal error that names
  an existing destination, and it ends in the state it started in: nothing was appended
  to the trace, so no client was made, no image pulled and no container created.
\<close>

theorem preflight_conflict_no_docker_call:
  assumes "(containerPath, hostPath) \<in> set copyFromContainer"
    and "stat h (fs st) hostPath = None"
  shows "\<exists>p \<in> snd ` set copyFromContainer. stat h (fs st) p = None \<and>
           RunGhcrContainer h ev taskName imageLink flags envCont copyToContainer
             copyFromContainer st = (Exited (FileAlreadyExist p), st)"
proof -
  from preflight_conflict_aux [OF assms] obtain p where
    p: "p \<in> snd ` set copyFromContainer" "stat h (fs st) p = None"
       "preflight h copyFromContainer st = Inl (Exited (FileAlreadyExist p), st)"
    by blast
  from p(3) have "RunGhcrContainer h ev taskName imageLink flags envCont copyToContainer
             copyFromContainer st = (Exited (FileAlreadyExist p), st)"
    by (simp add: RunGhcrContainer_def upto_start_def upto_create_def upto_options_def andThen_def
        finish_def)
  with p(1,2) show ?thesis by blast
qed

theorem preflight_conflict_no_docker_call_witness:
  "(''/data/build'', ''/host/out'') \<in> set [(''/data/build'', ''/host/out'')]
   \<and> stat plain_host [''/host/out'', ''/host/proj''] ''/host/out'' = None
   \<and> RunGhcrContainer plain_host scenario_env ''Compile'' ''registry/builder:v1'' [] []
        [(''/host/proj'', ''/data/project'')] [(''/data/build'', ''/host/out'')]
        \<lparr>fs = [''/host/out'', ''/host/proj''], trace = [], deferred = []\<rparr>
      = (Exited (FileAlreadyExist ''/host/out''),
         \<lparr>fs = [''/host/out'', ''/host/proj''], trace = [], deferred = []\<rparr>)"
  using preflight_conflict_no_docker_call
    [of "''/data/build''" "''/host/out''" "[(''/data/build'', ''/host/out'')]" plain_host
        "\<lparr>fs = [''/host/out'', ''/host/proj''], trace = [], deferred = []\<rparr>"
        scenario_env "''Compile''" "''registry/builder:v1''" "[]" "[]"
        "[(''/host/proj'', ''/data/project'')]"]
  by (simp add: plain_host_def)

section \<open>Properties of the extraction\<close>

lemma format_c_ascii: "format_c CHR ''x'' = ''x''"
  by (simp add: format_c_def)

lemma format_c_high: "format_c (CHR 0xE9) = [CHR 0xC3, CHR 0xA9]"
  by code_simp

lemma TrimPrefix_Separator:
  "TrimPrefix r [Separator] = (case r of [] \<Rightarrow> [] | c # cs \<Rightarrow> (if c = Separator then cs else r))"
  by (cases r) (simp_all add: TrimPrefix_def HasPrefix_def)

lemma TrimPrefix_strip_base:
  "TrimPrefix (TrimPrefix name basePath) [Separator] = strip_base basePath name"
  unfolding TrimPrefix_Separator
  by (simp add: TrimPrefix_def HasPrefix_def strip_base_def Let_def split: list.splits)

lemma strip_base_rel: "strip_base basePath (basePath @ Separator # rel) = rel"
  by (simp add: strip_base_def)

lemma calls_of_append [simp]: "calls_of (xs @ ys) = calls_of xs @ calls_of ys"
  by (simp add: calls_of_def)

lemma calls_of_simps [simp]:
  "calls_of [] = []"
  "calls_of (Log l m # tr) = calls_of tr"
  "calls_of (Sys c # tr) = Sys c # calls_of tr"
  "calls_of (Docker d # tr) = Docker d # calls_of tr"
  "calls_of (Print t # tr) = Print t # calls_of tr"
  by (simp_all add: calls_of_def)

lemma same_effects_refl [simp]: "same_effects s s"
  by (simp add: same_effects_def)

lemma same_effects_emit_Log: "same_effects s t \<Longrightarrow> same_effects (emit (Log l m) s) t"
  by (simp add: same_effects_def emit_def)

lemma do_sys_sim:
  "same_effects s t \<Longrightarrow>
     fst (do_sys h c s) = fst (do_sys h c t) \<and> same_effects (snd (do_sys h c s)) (snd (do_sys h c t))"
  by (simp add: same_effects_def do_sys_def split: prod.splits)

lemma handleDirectory_sim:
  "same_effects s t \<Longrightarrow>
     fst (handleDirectory h target hdr s) = fst (handleDirectory h target hdr t) \<and>
     same_effects (snd (handleDirectory h target hdr s)) (snd (handleDirectory h target hdr t))"
  by (auto simp: same_effects_def handleDirectory_def do_sys_def split: prod.splits option.splits)

lemma handleSymlink_sim:
  "same_effects s t \<Longrightarrow>
     fst (handleSymlink h target hdr s) = fst (handleSymlink h target hdr t) \<and>
     same_effects (snd (handleSymlink h target hdr s)) (snd (handleSymlink h target hdr t))"
  by (auto simp: same_effects_def handleSymlink_def do_sys_def split: prod.splits option.splits)

lemma handleRegularFile_sim:
  "same_effects s t \<Longrightarrow>
     fst (handleRegularFile h body be target hdr s) = fst (handleRegularFile h body be target hdr t) \<and>
     same_effects (snd (handleRegularFile h body be target hdr s)) (snd (handleRegularFile h body be target hdr t))"
  by (auto simp: same_effects_def handleRegularFile_def do_sys_def Let_def split: prod.splits option.splits)


lemma ExtractTar_sim:
  "same_effects s t \<Longrightarrow>
     fst (ExtractTar h items b d i s) = fst (ExtractTar h items b d i t) \<and>
     same_effects (snd (ExtractTar h items b d i s)) (snd (ExtractTar h items b d i t))"
proof (induction items arbitrary: s t)
  case Nil
  then show ?case by simp
next
  case (Cons it items)
  show ?case
  proof (cases it)
    case (Corrupt e)
    with Cons.prems show ?thesis by simp
  next
    case (Entry hdr body be)
    define T where "T = (if i then Join d (TrimPrefix (TrimPrefix (Name hdr) b) [Separator]) else d)"
    note sims = handleDirectory_sim [OF Cons.prems, of h T hdr]
      handleRegularFile_sim [OF Cons.prems, of h body be T hdr]
      handleSymlink_sim [OF Cons.prems, of h T hdr]
    consider (dir) "Typeflag hdr = TypeDir"
      | (reg) "Typeflag hdr \<noteq> TypeDir" "Typeflag hdr = TypeReg"
      | (sym) "Typeflag hdr \<noteq> TypeDir" "Typeflag hdr \<noteq> TypeReg" "Typeflag hdr = TypeSymlink"
      | (glob) "Typeflag hdr \<noteq> TypeDir" "Typeflag hdr \<noteq> TypeReg" "Typeflag hdr \<noteq> TypeSymlink"
          "Typeflag hdr = TypeXGlobalHeader"
      | (other) "Typeflag hdr \<noteq> TypeDir" "Typeflag hdr \<noteq> TypeReg" "Typeflag hdr \<noteq> TypeSymlink"
          "Typeflag hdr \<noteq> TypeXGlobalHeader"
      by blast
    then show ?thesis
    proof cases
      case dir
      obtain e1 s1 where r1: "handleDirectory h T hdr s = (e1, s1)" by (cases "handleDirectory h T hdr s")
      obtain e2 t1 where r2: "handleDirectory h T hdr t = (e2, t1)" by (cases "handleDirectory h T hdr t")
      from sims(1) r1 r2 have eq: "e1 = e2" "same_effects s1 t1" by simp_all
      show ?thesis
        using Entry dir r1 r2 eq Cons.IH [OF eq(2)]
        by (cases e2) (simp_all add: T_def)
    next
      case reg
      obtain e1 s1 where r1: "handleRegularFile h body be T hdr s = (e1, s1)"
        by (cases "handleRegularFile h body be T hdr s")
      obtain e2 t1 where r2: "handleRegularFile h body be T hdr t = (e2, t1)"
        by (cases "handleRegularFile h body be T hdr t")
      from sims(2) r1 r2 have eq: "e1 = e2" "same_effects s1 t1" by simp_all
      show ?thesis
        using Entry reg r1 r2 eq Cons.IH [OF eq(2)]
        by (cases e2) (simp_all add: T_def)
    next
      case sym
      obtain e1 s1 where r1: "handleSymlink h T hdr s = (e1, s1)" by (cases "handleSymlink h T hdr s")
      obtain e2 t1 where r2: "handleSymlink h T hdr t = (e2, t1)" by (cases "handleSymlink h T hdr t")
      from sims(3) r1 r2 have eq: "e1 = e2" "same_effects s1 t1" by simp_all
      show ?thesis
        using Entry sym r1 r2 eq Cons.IH [OF eq(2)]
        by (cases e2) (simp_all add: T_def)
    next
      case glob
      have "same_effects (emit (Log TraceLevel ''Skipping global header'') s)
              (emit (Log TraceLevel ''Skipping global header'') t)"
        using Cons.prems by (simp add: same_effects_def emit_def)
      from Cons.IH [OF this] Entry glob show ?thesis by simp
    next
      case other
      let ?m = "''Skipping unsupported type '' @ format_c (Typeflag hdr) @ '': '' @ Name hdr"
      have "same_effects (emit (Log WarnLevel ?m) s) (emit (Log WarnLevel ?m) t)"
        using Cons.prems by (simp add: same_effects_def emit_def)
      from Cons.IH [OF this] Entry other show ?thesis by simp
    qed
  qed
qed

text \<open>The log line of a skipped entry.\<close>

lemma ExtractTar_skip:
  assumes "Typeflag hdr \<noteq> TypeDir" "Typeflag hdr \<noteq> TypeReg" "Typeflag hdr \<noteq> TypeSymlink"
  shows "ExtractTar h (Entry hdr body be # rest) b d i st =
           ExtractTar h rest b d i
             (emit (if Typeflag hdr = TypeXGlobalHeader
                    then Log TraceLevel ''Skipping global header''
                    else Log WarnLevel (''Skipping unsupported type '' @ format_c (Typeflag hdr) @ '': ''
                                         @ Name hdr)) st)"
  using assms by simp

lemma ExtractTar_head:
  "(\<exists>e s'. \<forall>rest. ExtractTar h (it # rest) b d i st = (Some e, s')) \<or>
   (\<exists>s'. \<forall>rest. ExtractTar h (it # rest) b d i st = ExtractTar h rest b d i s')"
proof (cases it)
  case (Corrupt e)
  then show ?thesis by simp
next
  case (Entry hdr body be)
  define T where "T = (if i then Join d (TrimPrefix (TrimPrefix (Name hdr) b) [Separator]) else d)"
  obtain e1 s1 where r1: "handleDirectory h T hdr st = (e1, s1)"
    by (cases "handleDirectory h T hdr st")
  obtain e2 s2 where r2: "handleRegularFile h body be T hdr st = (e2, s2)"
    by (cases "handleRegularFile h body be T hdr st")
  obtain e3 s3 where r3: "handleSymlink h T hdr st = (e3, s3)"
    by (cases "handleSymlink h T hdr st")
  consider (dir) "Typeflag hdr = TypeDir"
    | (reg) "Typeflag hdr \<noteq> TypeDir" "Typeflag hdr = TypeReg"
    | (sym) "Typeflag hdr \<noteq> TypeDir" "Typeflag hdr \<noteq> TypeReg" "Typeflag hdr = TypeSymlink"
    | (skip) "Typeflag hdr \<noteq> TypeDir" "Typeflag hdr \<noteq> TypeReg" "Typeflag hdr \<noteq> TypeSymlink"
    by blast
  then show ?thesis
  proof cases
    case dir
    with Entry r1 show ?thesis by (cases e1) (auto simp: T_def)
  next
    case reg
    with Entry r2 show ?thesis by (cases e2) (auto simp: T_def)
  next
    case sym
    with Entry r3 show ?thesis by (cases e3) (auto simp: T_def)
  next
    case skip
    with Entry show ?thesis by auto
  qed
qed

lemma ExtractTar_skip_anywhere:
  assumes "Typeflag hdr \<noteq> TypeDir" "Typeflag hdr \<noteq> TypeReg" "Typeflag hdr \<noteq> TypeSymlink"
  shows "fst (ExtractTar h (pre @ Entry hdr body be # post) b d i st)
           = fst (ExtractTar h (pre @ post) b d i st) \<and>
         same_effects (snd (ExtractTar h (pre @ Entry hdr body be # post) b d i st))
           (snd (ExtractTar h (pre @ post) b d i st))"
proof (induction pre arbitrary: st)
  case Nil
  let ?l = "if Typeflag hdr = TypeXGlobalHeader
                    then Log TraceLevel ''Skipping global header''
                    else Log WarnLevel (''Skipping unsupported type '' @ format_c (Typeflag hdr) @ '': ''
                                         @ Name hdr)"
  have "same_effects (emit ?l st) st"
    by (simp add: same_effects_def emit_def)
  from ExtractTar_sim [OF this, of h post b d i] show ?case
    unfolding append_Nil ExtractTar_skip [OF assms] .
next
  case (Cons it pre)
  from ExtractTar_head [of h it b d i st] Cons.IH show ?case
    by (elim disjE exE) simp_all
qed

lemma do_sys_calls:
  "do_sys h c st = (e, s') \<Longrightarrow> calls_of (trace s') = calls_of (trace st) @ [Sys c]"
  by (auto simp: do_sys_def split: prod.splits)

lemma handleDirectory_calls:
  assumes "handleDirectory h T hdr st = (e, s')"
  shows "calls_of (trace s') = calls_of (trace st) @ [Sys (MkdirAll T (ucast (Mode hdr)))]"
proof -
  obtain e1 s1 where r: "do_sys h (MkdirAll T (ucast (Mode hdr))) st = (e1, s1)"
    by (cases "do_sys h (MkdirAll T (ucast (Mode hdr))) st")
  from assms r have "s' = s1" by (cases e1) (simp_all add: handleDirectory_def)
  with do_sys_calls [OF r] show ?thesis by simp
qed

lemma handleSymlink_calls:
  assumes "handleSymlink h T hdr st = (e, s')"
  shows "\<exists>X. calls_of (trace s') = calls_of (trace st) @ X \<and>
           prefix X [Sys (MkdirAll (Dir T) 493), Sys (Symlink (Linkname hdr) T)] \<and>
           (e = None \<longrightarrow> X = [Sys (MkdirAll (Dir T) 493), Sys (Symlink (Linkname hdr) T)])"
proof -
  obtain e1 s1 where r1: "do_sys h (MkdirAll (Dir T) 493) st = (e1, s1)"
    by (cases "do_sys h (MkdirAll (Dir T) 493) st")
  obtain e2 s2 where r2: "do_sys h (Symlink (Linkname hdr) T) s1 = (e2, s2)"
    by (cases "do_sys h (Symlink (Linkname hdr) T) s1")
  note c1 = do_sys_calls [OF r1] and c2 = do_sys_calls [OF r2]
  show ?thesis
  proof (cases e1)
    case (Some a)
    with assms r1 have "s' = s1" "e \<noteq> None" by (auto simp: handleSymlink_def)
    with c1 show ?thesis by simp
  next
    case None
    with assms r1 r2 have "s' = s2" by (cases e2) (simp_all add: handleSymlink_def)
    with c1 c2 show ?thesis by simp
  qed
qed

lemma handleRegularFile_calls:
  assumes "handleRegularFile h body be T hdr st = (e, s')"
  shows "\<exists>X. calls_of (trace s') = calls_of (trace st) @ X \<and>
           prefix X [Sys (MkdirAll (Dir T) 493), Sys (Create T), Sys (Copy T body), Sys (Close T)] \<and>
           (e = None \<longrightarrow>
              X = [Sys (MkdirAll (Dir T) 493), Sys (Create T), Sys (Copy T body), Sys (Close T)])"
proof -
  obtain e1 s1 where r1: "do_sys h (MkdirAll (Dir T) 493) st = (e1, s1)"
    by (cases "do_sys h (MkdirAll (Dir T) 493) st")
  obtain e2 s2 where r2: "do_sys h (Create T) s1 = (e2, s2)"
    by (cases "do_sys h (Create T) s1")
  obtain e3 s3 where r3: "do_sys h (Copy T body) s2 = (e3, s3)"
    by (cases "do_sys h (Copy T body) s2")
  obtain e4 s4 where r4: "do_sys h (Close T) s3 = (e4, s4)"
    by (cases "do_sys h (Close T) s3")
  note c = do_sys_calls [OF r1] do_sys_calls [OF r2] do_sys_calls [OF r3] do_sys_calls [OF r4]
  show ?thesis
  proof (cases e1)
    case (Some a)
    with assms r1 have "s' = s1" "e \<noteq> None" by (auto simp: handleRegularFile_def)
    with c show ?thesis by simp
  next
    case None
    note e1 = this
    show ?thesis
    proof (cases e2)
      case (Some a)
      with assms r1 r2 e1 have "s' = s2" "e \<noteq> None" by (auto simp: handleRegularFile_def)
      with c show ?thesis by simp
    next
      case None
      with assms r1 r2 r3 r4 e1 have "s' = s4"
        by (auto simp: handleRegularFile_def Let_def split: option.splits)
      with c show ?thesis by simp
    qed
  qed
qed

lemma ExtractTar_step:
  fixes st :: "'a state"
  assumes hc: "\<exists>X. calls_of (trace s') = calls_of (trace st) @ X \<and> prefix X E
                  \<and> (e = None \<longrightarrow> X = E)"
    and ex: "R = (case e of Some a \<Rightarrow> (Some a, s') | None \<Rightarrow> R')"
    and IH: "\<exists>Y. calls_of (trace (snd R')) = calls_of (trace s') @ Y \<and> prefix Y A \<and>
                (fst R' = None \<longrightarrow> Y = A)"
  shows "\<exists>X. calls_of (trace (snd R)) = calls_of (trace st) @ X \<and>
       prefix X (E @ A) \<and> (fst R = None \<longrightarrow> X = E @ A)"
proof -
  from hc obtain X where X: "calls_of (trace s') = calls_of (trace st) @ X" "prefix X E"
      "e = None \<longrightarrow> X = E"
    by (elim exE conjE)
  from IH obtain Y where
    Y: "calls_of (trace (snd R')) = calls_of (trace s') @ Y" "prefix Y A" "fst R' = None \<longrightarrow> Y = A"
    by (elim exE conjE)
  show ?thesis
  proof (cases e)
    case (Some a)
    from Some ex have R: "R = (Some a, s')" by simp
    have "prefix X (E @ A)" using X(2) by (rule prefix_prefix)
    with X(1) R show ?thesis by (intro exI [of _ X]) simp
  next
    case None
    with X have c: "calls_of (trace s') = calls_of (trace st) @ E" by simp
    from None ex have "R = R'" by simp
    with Y c show ?thesis
      by (intro exI [of _ "E @ Y"]) simp
  qed
qed

lemma ExtractTar_calls:
  "\<exists>X. calls_of (trace (snd (ExtractTar h items b d i st))) = calls_of (trace st) @ X \<and>
     prefix X (concat (map (\<lambda>it. entry_calls (if i then Join d (strip_base b (item_name it)) else d) it) items)) \<and>
     (fst (ExtractTar h items b d i st) = None \<longrightarrow>
        X = concat (map (\<lambda>it. entry_calls (if i then Join d (strip_base b (item_name it)) else d) it) items))"
proof (induction items arbitrary: st)
  case Nil
  then show ?case by simp
next
  case (Cons it items)
  let ?T = "if i then Join d (strip_base b (item_name it)) else d"
  let ?all = "concat (map (\<lambda>it. entry_calls (if i then Join d (strip_base b (item_name it)) else d) it) items)"
  show ?case
  proof (cases it)
    case (Corrupt e)
    then show ?thesis by simp
  next
    case (Entry hdr body be)
    have T: "(if i then Join d (TrimPrefix (TrimPrefix (Name hdr) b) [Separator]) else d) = ?T"
      using Entry by (simp add: TrimPrefix_strip_base)
    consider (dir) "Typeflag hdr = TypeDir"
      | (reg) "Typeflag hdr \<noteq> TypeDir" "Typeflag hdr = TypeReg"
      | (sym) "Typeflag hdr \<noteq> TypeDir" "Typeflag hdr \<noteq> TypeReg" "Typeflag hdr = TypeSymlink"
      | (skip) "Typeflag hdr \<noteq> TypeDir" "Typeflag hdr \<noteq> TypeReg" "Typeflag hdr \<noteq> TypeSymlink"
      by blast
    then have "\<exists>X. calls_of (trace (snd (ExtractTar h (it # items) b d i st))) = calls_of (trace st) @ X \<and>
       prefix X (entry_calls ?T it @ ?all) \<and>
       (fst (ExtractTar h (it # items) b d i st) = None \<longrightarrow> X = entry_calls ?T it @ ?all)"
    proof cases
      case dir
      obtain e s' where r: "handleDirectory h ?T hdr st = (e, s')"
        by (cases "handleDirectory h ?T hdr st")
      show ?thesis
      proof (rule ExtractTar_step [where e = e and s' = s' and R' = "ExtractTar h items b d i s'"])
        from handleDirectory_calls [OF r] dir Entry
        show "\<exists>X. calls_of (trace s') = calls_of (trace st) @ X \<and> prefix X (entry_calls ?T it)
                  \<and> (e = None \<longrightarrow> X = entry_calls ?T it)" by simp
        from r dir Entry show "ExtractTar h (it # items) b d i st
                  = (case e of Some a \<Rightarrow> (Some a, s') | None \<Rightarrow> ExtractTar h items b d i s')"
          unfolding Entry ExtractTar.simps Let_def T by (cases e) simp_all
        show "\<exists>Y. calls_of (trace (snd (ExtractTar h items b d i s'))) = calls_of (trace s') @ Y \<and>
            prefix Y ?all \<and> (fst (ExtractTar h items b d i s') = None \<longrightarrow> Y = ?all)"
          by (rule Cons.IH)
      qed
    next
      case reg
      obtain e s' where r: "handleRegularFile h body be ?T hdr st = (e, s')"
        by (cases "handleRegularFile h body be ?T hdr st")
      show ?thesis
      proof (rule ExtractTar_step [where e = e and s' = s' and R' = "ExtractTar h items b d i s'"])
        from handleRegularFile_calls [OF r] reg Entry
        show "\<exists>X. calls_of (trace s') = calls_of (trace st) @ X \<and> prefix X (entry_calls ?T it)
                  \<and> (e = None \<longrightarrow> X = entry_calls ?T it)" by simp
        from r reg Entry show "ExtractTar h (it # items) b d i st
                  = (case e of Some a \<Rightarrow> (Some a, s') | None \<Rightarrow> ExtractTar h items b d i s')"
          unfolding Entry ExtractTar.simps Let_def T by (cases e) simp_all
        show "\<exists>Y. calls_of (trace (snd (ExtractTar h items b d i s'))) = calls_of (trace s') @ Y \<and>
            prefix Y ?all \<and> (fst (ExtractTar h items b d i s') = None \<longrightarrow> Y = ?all)"
          by (rule Cons.IH)
      qed
    next
      case sym
      obtain e s' where r: "handleSymlink h ?T hdr st = (e, s')"
        by (cases "handleSymlink h ?T hdr st")
      show ?thesis
      proof (rule ExtractTar_step [where e = e and s' = s' and R' = "ExtractTar h items b d i s'"])
        from handleSymlink_calls [OF r] sym Entry
        show "\<exists>X. calls_of (trace s') = calls_of (trace st) @ X \<and> prefix X (entry_calls ?T it)
                  \<and> (e = None \<longrightarrow> X = entry_calls ?T it)" by simp
        from r sym Entry show "ExtractTar h (it # items) b d i st
                  = (case e of Some a \<Rightarrow> (Some a, s') | None \<Rightarrow> ExtractTar h items b d i s')"
          unfolding Entry ExtractTar.simps Let_def T by (cases e) simp_all
        show "\<exists>Y. calls_of (trace (snd (ExtractTar h items b d i s'))) = calls_of (trace s') @ Y \<and>
            prefix Y ?all \<and> (fst (ExtractTar h items b d i s') = None \<longrightarrow> Y = ?all)"
          by (rule Cons.IH)
      qed
    next
      case skip
      let ?l = "if Typeflag hdr = TypeXGlobalHeader
                    then Log TraceLevel ''Skipping global header''
                    else Log WarnLevel (''Skipping unsupported type '' @ format_c (Typeflag hdr) @ '': ''
                                         @ Name hdr)"
      show ?thesis
      proof (rule ExtractTar_step [where e = None and s' = "emit ?l st"
              and R' = "ExtractTar h items b d i (emit ?l st)"])
        from skip Entry
        show "\<exists>X. calls_of (trace (emit ?l st)) = calls_of (trace st) @ X \<and> prefix X (entry_calls ?T it)
                  \<and> (None = None \<longrightarrow> X = entry_calls ?T it)" by (simp add: emit_def)
        have "ExtractTar h (it # items) b d i st = ExtractTar h items b d i (emit ?l st)"
          unfolding Entry by (rule ExtractTar_skip [OF skip])
        then show "ExtractTar h (it # items) b d i st
                  = (case None of Some a \<Rightarrow> (Some a, emit ?l st) | None \<Rightarrow> ExtractTar h items b d i (emit ?l st))"
          by simp
        show "\<exists>Y. calls_of (trace (snd (ExtractTar h items b d i (emit ?l st)))) = calls_of (trace (emit ?l st)) @ Y \<and>
            prefix Y ?all \<and> (fst (ExtractTar h items b d i (emit ?l st)) = None \<longrightarrow> Y = ?all)"
          by (rule Cons.IH)
      qed
    qed
    then show ?thesis by simp
  qed
qed

lemma do_sys_ok:
  assumes "\<forall>c f. fst (sys h c f) = None"
  shows "\<exists>s'. do_sys h c st = (None, s') \<and> trace s' = trace st @ [Sys c]"
proof -
  obtain e f' where r: "sys h c (fs st) = (e, f')" by (cases "sys h c (fs st)")
  with assms have "e = None" by (metis fst_conv)
  with r show ?thesis by (simp add: do_sys_def)
qed

lemma handleRegularFile_ok:
  assumes ok: "\<forall>c f. fst (sys h c f) = None"
  shows "fst (handleRegularFile h body None T hdr st) = None \<and>
         trace (snd (handleRegularFile h body None T hdr st))
           = trace st @ [Sys (MkdirAll (Dir T) 493), Sys (Create T), Sys (Copy T body), Sys (Close T)]"
proof -
  from do_sys_ok [OF ok, of "MkdirAll (Dir T) 493" st] obtain s1 where
    r1: "do_sys h (MkdirAll (Dir T) 493) st = (None, s1)" "trace s1 = trace st @ [Sys (MkdirAll (Dir T) 493)]"
    by (elim exE conjE)
  from do_sys_ok [OF ok, of "Create T" s1] obtain s2 where
    r2: "do_sys h (Create T) s1 = (None, s2)" "trace s2 = trace s1 @ [Sys (Create T)]"
    by (elim exE conjE)
  from do_sys_ok [OF ok, of "Copy T body" s2] obtain s3 where
    r3: "do_sys h (Copy T body) s2 = (None, s3)" "trace s3 = trace s2 @ [Sys (Copy T body)]"
    by (elim exE conjE)
  from do_sys_ok [OF ok, of "Close T" s3] obtain s4 where
    r4: "do_sys h (Close T) s3 = (None, s4)" "trace s4 = trace s3 @ [Sys (Close T)]"
    by (elim exE conjE)
  from r1 r2 r3 r4 show ?thesis
    by (simp add: handleRegularFile_def)
qed

text \<open>
  Claim C7: an entry whose type is neither directory, regular file nor symlink is
  logged and skipped, and the extraction goes on. For such an entry: (1) at the head of
  a stream, the extraction is the extraction of the rest after one more log line, at
  trace level for a global header and at warning level otherwise, where the line holds
  the type as the verb \<^verbatim>\<open>%c\<close> writes it, in UTF-8, and the name; (2) anywhere in a
  stream, the result and the effects are those of the stream without the entry; and
  (3) on a host where no call fails, a global header followed by a regular file returns
  no error, and the trace gains the log line and the four calls that write the file.
\<close>

theorem ExtractTar_skips_unsupported:
  assumes "Typeflag hdr \<noteq> TypeDir" "Typeflag hdr \<noteq> TypeReg" "Typeflag hdr \<noteq> TypeSymlink"
  shows "ExtractTar h (Entry hdr body body_err # rest) basePath destPath isSourceDir st
           = ExtractTar h rest basePath destPath isSourceDir
               (emit (if Typeflag hdr = TypeXGlobalHeader
                      then Log TraceLevel ''Skipping global header''
                      else Log WarnLevel (''Skipping unsupported type '' @ format_c (Typeflag hdr)
                                           @ '': '' @ Name hdr)) st)
       \<and> fst (ExtractTar h (pre @ Entry hdr body body_err # post) basePath destPath isSourceDir st)
           = fst (ExtractTar h (pre @ post) basePath destPath isSourceDir st)
       \<and> same_effects
           (snd (ExtractTar h (pre @ Entry hdr body body_err # post) basePath destPath isSourceDir st))
           (snd (ExtractTar h (pre @ post) basePath destPath isSourceDir st))
       \<and> (Typeflag hdr = TypeXGlobalHeader \<and> Typeflag reg = TypeReg
            \<and> (\<forall>c f. fst (sys h c f) = None) \<longrightarrow>
          ExtractTar h [Entry hdr body body_err, Entry reg content None] basePath destPath
              isSourceDir st
            = (None, snd (ExtractTar h [Entry hdr body body_err, Entry reg content None] basePath
                            destPath isSourceDir st))
          \<and> trace (snd (ExtractTar h [Entry hdr body body_err, Entry reg content None] basePath
                            destPath isSourceDir st))
            = trace st @
                (let target = (if isSourceDir then Join destPath (strip_base basePath (Name reg))
                               else destPath)
                 in [Log TraceLevel ''Skipping global header'',
                     Sys (MkdirAll (Dir target) 493), Sys (Create target),
                     Sys (Copy target content), Sys (Close target)]))"
proof (intro conjI impI)
  show "ExtractTar h (Entry hdr body body_err # rest) basePath destPath isSourceDir st
           = ExtractTar h rest basePath destPath isSourceDir
               (emit (if Typeflag hdr = TypeXGlobalHeader
                      then Log TraceLevel ''Skipping global header''
                      else Log WarnLevel (''Skipping unsupported type '' @ format_c (Typeflag hdr)
                                           @ '': '' @ Name hdr)) st)"
    by (rule ExtractTar_skip [OF assms])
next
  from ExtractTar_skip_anywhere [OF assms, of h pre body body_err post basePath destPath isSourceDir st]
  show "fst (ExtractTar h (pre @ Entry hdr body body_err # post) basePath destPath isSourceDir st)
           = fst (ExtractTar h (pre @ post) basePath destPath isSourceDir st)"
    and "same_effects
           (snd (ExtractTar h (pre @ Entry hdr body body_err # post) basePath destPath isSourceDir st))
           (snd (ExtractTar h (pre @ post) basePath destPath isSourceDir st))"
    by simp_all
next
  assume a: "Typeflag hdr = TypeXGlobalHeader \<and> Typeflag reg = TypeReg
            \<and> (\<forall>c f. fst (sys h c f) = None)"
  let ?T = "if isSourceDir then Join destPath (strip_base basePath (Name reg)) else destPath"
  let ?st = "emit (Log TraceLevel ''Skipping global header'') st"
  from a have ok: "\<forall>c f. fst (sys h c f) = None" by simp
  have neq: "TypeReg \<noteq> TypeDir" by (simp add: TypeReg_def TypeDir_def)
  obtain e s' where r: "handleRegularFile h content None ?T reg ?st = (e, s')"
    by (cases "handleRegularFile h content None ?T reg ?st")
  from handleRegularFile_ok [OF ok, of content ?T reg ?st] r
  have e: "e = None" and tr: "trace s' = trace ?st @ [Sys (MkdirAll (Dir ?T) 493), Sys (Create ?T),
      Sys (Copy ?T content), Sys (Close ?T)]"
    by simp_all
  have run: "ExtractTar h [Entry hdr body body_err, Entry reg content None] basePath destPath
              isSourceDir st = (None, s')"
    unfolding ExtractTar_skip [OF assms]
    using a r e neq by (simp add: TrimPrefix_strip_base)
  show "ExtractTar h [Entry hdr body body_err, Entry reg content None] basePath destPath
              isSourceDir st
            = (None, snd (ExtractTar h [Entry hdr body body_err, Entry reg content None] basePath
                            destPath isSourceDir st))"
    unfolding run by simp
  show "trace (snd (ExtractTar h [Entry hdr body body_err, Entry reg content None] basePath
                            destPath isSourceDir st))
            = trace st @
                (let target = (if isSourceDir then Join destPath (strip_base basePath (Name reg))
                               else destPath)
                 in [Log TraceLevel ''Skipping global header'',
                     Sys (MkdirAll (Dir target) 493), Sys (Create target),
                     Sys (Copy target content), Sys (Close target)])"
    unfolding run using tr by (simp add: emit_def Let_def)
qed

theorem ExtractTar_skips_unsupported_witness:
  "Typeflag pax_header \<noteq> TypeDir \<and> Typeflag pax_header \<noteq> TypeReg
   \<and> Typeflag pax_header \<noteq> TypeSymlink \<and> Typeflag pax_header = TypeXGlobalHeader
   \<and> Typeflag jar_header = TypeReg \<and> (\<forall>c f. fst (sys plain_host c f) = None)
   \<and> fst (ExtractTar plain_host [Entry pax_header [] None, Entry jar_header ''PK'' None]
             ''build'' ''/host/out'' True scenario_start) = None
   \<and> trace (snd (ExtractTar plain_host [Entry pax_header [] None, Entry jar_header ''PK'' None]
             ''build'' ''/host/out'' True scenario_start))
       = [Log TraceLevel ''Skipping global header'', Sys (MkdirAll ''/host/out'' 493),
          Sys (Create ''/host/out/app.jar''), Sys (Copy ''/host/out/app.jar'' ''PK''),
          Sys (Close ''/host/out/app.jar'')]"
proof -
  have h1: "Typeflag pax_header \<noteq> TypeDir" and h2: "Typeflag pax_header \<noteq> TypeReg"
    and h3: "Typeflag pax_header \<noteq> TypeSymlink"
    by (simp_all add: pax_header_def TypeXGlobalHeader_def TypeDir_def TypeReg_def TypeSymlink_def)
  have h4: "Typeflag pax_header = TypeXGlobalHeader" and h5: "Typeflag jar_header = TypeReg"
    by (simp_all add: pax_header_def jar_header_def)
  have h6: "\<forall>c f. fst (sys plain_host c f) = None"
    by (simp add: plain_host_def)
  have p1: "Join ''/host/out'' (strip_base ''build'' (Name jar_header)) = ''/host/out/app.jar''"
    by code_simp
  have p2: "Dir ''/host/out/app.jar'' = ''/host/out''"
    by code_simp
  from ExtractTar_skips_unsupported [OF h1 h2 h3, of plain_host "[]" None "[]" "''build''"
      "''/host/out''" True scenario_start "[]" "[]" jar_header "''PK''"] h4 h5 h6
  have "ExtractTar plain_host [Entry pax_header [] None, Entry jar_header ''PK'' None]
             ''build'' ''/host/out'' True scenario_start
        = (None, snd (ExtractTar plain_host [Entry pax_header [] None, Entry jar_header ''PK'' None]
             ''build'' ''/host/out'' True scenario_start))"
    and "trace (snd (ExtractTar plain_host [Entry pax_header [] None, Entry jar_header ''PK'' None]
             ''build'' ''/host/out'' True scenario_start))
       = trace scenario_start @ [Log TraceLevel ''Skipping global header'', Sys (MkdirAll ''/host/out'' 493),
          Sys (Create ''/host/out/app.jar''), Sys (Copy ''/host/out/app.jar'' ''PK''),
          Sys (Close ''/host/out/app.jar'')]"
    by (simp_all only: p1 p2 Let_def if_True simp_thms)
  then have "fst (ExtractTar plain_host [Entry pax_header [] None, Entry jar_header ''PK'' None]
             ''build'' ''/host/out'' True scenario_start) = None"
    and "trace (snd (ExtractTar plain_host [Entry pax_header [] None, Entry jar_header ''PK'' None]
             ''build'' ''/host/out'' True scenario_start))
       = [Log TraceLevel ''Skipping global header'', Sys (MkdirAll ''/host/out'' 493),
          Sys (Create ''/host/out/app.jar''), Sys (Copy ''/host/out/app.jar'' ''PK''),
          Sys (Close ''/host/out/app.jar'')]"
    by (metis fst_conv, simp add: scenario_start_def del: ExtractTar.simps)
  with h1 h2 h3 h4 h5 h6 show ?thesis
    by (simp only: simp_thms)
qed

text \<open>
  Claim C8: every entry is written at the rebased path. The calls an extraction makes
  are, entry by entry, the calls that write the entry at \<open>destPath\<close> joined with the
  name stripped of \<open>basePath\<close> and of one separator when the source is a directory,
  and at \<open>destPath\<close> itself otherwise: all of them when the extraction returns no
  error, and a prefix of them when it stops early. Stripping \<open>basePath\<close> from
  \<open>basePath/rel\<close> leaves \<open>rel\<close>.
\<close>

theorem ExtractTar_rebases_entries:
  "strip_base basePath (basePath @ Separator # rel) = rel \<and>
   (\<exists>X. calls_of (trace (snd (ExtractTar h items basePath destPath isSourceDir st)))
           = calls_of (trace st) @ X \<and>
        prefix X (concat (map (\<lambda>it. entry_calls
                    (if isSourceDir then Join destPath (strip_base basePath (item_name it))
                     else destPath) it) items)) \<and>
        (fst (ExtractTar h items basePath destPath isSourceDir st) = None \<longrightarrow>
           X = concat (map (\<lambda>it. entry_calls
                    (if isSourceDir then Join destPath (strip_base basePath (item_name it))
                     else destPath) it) items)))"
  using strip_base_rel [of basePath rel] ExtractTar_calls [of h items basePath destPath isSourceDir st]
  by (rule conjI)

theorem ExtractTar_rebases_entries_witness:
  "fst (ExtractTar plain_host build_archive ''build'' ''/host/out'' True scenario_start) = None
   \<and> calls_of (trace (snd (ExtractTar plain_host build_archive ''build'' ''/host/out'' True
                              scenario_start)))
       = [Sys (MkdirAll ''/host/out'' 493), Sys (MkdirAll ''/host/out'' 493),
          Sys (Create ''/host/out/app.jar''), Sys (Copy ''/host/out/app.jar'' ''PK''),
          Sys (Close ''/host/out/app.jar'')]
   \<and> strip_base ''build'' ''build/app.jar'' = ''app.jar''"
proof -
  have ok: "fst (ExtractTar plain_host build_archive ''build'' ''/host/out'' True scenario_start) = None"
    by code_simp
  have all: "concat (map (\<lambda>it. entry_calls
                    (if True then Join ''/host/out'' (strip_base ''build'' (item_name it))
                     else ''/host/out'') it) build_archive)
       = [Sys (MkdirAll ''/host/out'' 493), Sys (MkdirAll ''/host/out'' 493),
          Sys (Create ''/host/out/app.jar''), Sys (Copy ''/host/out/app.jar'' ''PK''),
          Sys (Close ''/host/out/app.jar'')]"
    by code_simp
  have s: "''build/app.jar'' = ''build'' @ Separator # ''app.jar''"
    by (simp add: Separator_def)
  from ExtractTar_rebases_entries [of "''build''" "''app.jar''" plain_host build_archive
      "''/host/out''" True scenario_start] ok
  have "calls_of (trace (snd (ExtractTar plain_host build_archive ''build'' ''/host/out'' True
                              scenario_start)))
       = calls_of (trace scenario_start) @ concat (map (\<lambda>it. entry_calls
                    (if True then Join ''/host/out'' (strip_base ''build'' (item_name it))
                     else ''/host/out'') it) build_archive)"
    and "strip_base ''build'' (''build'' @ Separator # ''app.jar'') = ''app.jar''"
    by auto
  with ok all s show ?thesis
    by (simp add: scenario_start_def del: ExtractTar.simps)
qed

section \<open>Steps of the run: composition and traces\<close>

lemma andThen_Inl: "m st = Inl fin \<Longrightarrow> andThen m k st = Inl fin"
  by (simp add: andThen_def)

lemma andThen_Inr: "m st = Inr (a, st') \<Longrightarrow> andThen m k st = k a st'"
  by (simp add: andThen_def)

lemma state_of_simps [simp]:
  "state_of (Inl fin) = snd fin"
  "state_of (Inr r) = snd r"
  "state_of (Fatalf f st) = st"
  by (simp_all add: state_of_def Fatalf_def split: prod.splits)

lemma trace_emit [simp]: "trace (emit ev st) = trace st @ [ev]"
  by (simp add: emit_def)

lemma fs_emit [simp]: "fs (emit ev st) = fs st"
  by (simp add: emit_def)

lemma deferred_emit [simp]: "deferred (emit ev st) = deferred st"
  by (simp add: emit_def)

lemma defer_call_simps [simp]:
  "trace (defer_call d st) = trace st"
  "fs (defer_call d st) = fs st"
  "deferred (defer_call d st) = d # deferred st"
  by (simp_all add: defer_call_def)

lemma extends_traceI:
  "(\<And>st. prefix (trace st) (trace (state_of (f st)))) \<Longrightarrow> extends_trace f"
  by (simp add: extends_trace_def)

lemma extends_traceD:
  "extends_trace f \<Longrightarrow> prefix (trace st) (trace (state_of (f st)))"
  by (simp add: extends_trace_def)

lemma extends_trace_andThen:
  assumes "extends_trace m" and "\<And>a. extends_trace (k a)"
  shows "extends_trace (andThen m k)"
proof (rule extends_traceI)
  fix st
  show "prefix (trace st) (trace (state_of (andThen m k st)))"
  proof (cases "m st")
    case (Inl fin)
    with extends_traceD [OF assms(1), of st] show ?thesis
      by (simp add: andThen_Inl)
  next
    case (Inr r)
    obtain a s1 where r: "r = (a, s1)" by (cases r)
    from extends_traceD [OF assms(1), of st] Inr r have "prefix (trace st) (trace s1)" by simp
    moreover from extends_traceD [OF assms(2) [of a], of s1]
    have "prefix (trace s1) (trace (state_of (k a s1)))" .
    ultimately have "prefix (trace st) (trace (state_of (k a s1)))"
      by (rule prefix_order.order_trans)
    with Inr r show ?thesis
      by (simp add: andThen_Inr)
  qed
qed

lemma run_deferred_trace:
  "prefix (trace st) (trace (snd (run_deferred ds p st)))"
proof (induction ds p st rule: run_deferred.induct)
  case (1 panicking st)
  then show ?case by simp
next
  case (2 ds panicking st)
  then show ?case by (simp add: append_prefixD)
next
  case (3 ds panicking st)
  then show ?case by (simp add: append_prefixD)
next
  case (4 containerID ds panicking st)
  then show ?case by (simp add: append_prefixD)
next
  case (5 has_reader ds panicking st)
  then show ?case by (auto simp: append_prefixD)
qed

lemma return_now_trace: "prefix (trace st) (trace (snd (return_now st)))"
  using run_deferred_trace [of "st\<lparr>deferred := []\<rparr>" "deferred st" False]
  by (simp add: return_now_def)

lemma finish_trace: "prefix (trace (state_of r)) (trace (snd (finish r)))"
  by (cases r) (auto simp: finish_def return_now_trace)

lemma extends_preflight: "extends_trace (preflight h outs)"
proof (rule extends_traceI)
  fix st :: "'a state"
  show "prefix (trace st) (trace (state_of (preflight h outs st)))"
    by (induction outs) auto
qed

lemma extends_new_client: "extends_trace (new_client ev)"
  by (rule extends_traceI) (simp add: new_client_def Let_def split: option.splits)

lemma extends_pull_options: "extends_trace (pull_options ev imageLink)"
  by (rule extends_traceI) (simp add: pull_options_def split: sum.splits)

lemma extends_pull_image: "extends_trace (pull_image ev imageLink auth)"
  by (rule extends_traceI) (simp add: pull_image_def Let_def split: sum.splits option.splits prod.splits)

lemma extends_inspect_image: "extends_trace (inspect_image ev imageLink pe)"
  by (rule extends_traceI) (simp add: inspect_image_def Let_def split: option.splits)

lemma extends_create_container: "extends_trace (create_container ev imageLink flags envCont)"
  by (rule extends_traceI) (simp add: create_container_def Let_def split: sum.splits)

lemma extends_CopyToContainer: "extends_trace (CopyToContainer h ev cid localDir dest)"
  by (rule extends_traceI) (simp add: CopyToContainer_def Let_def split: option.splits)

lemma extends_stage_inputs: "extends_trace (stage_inputs h ev cid ins)"
proof (rule extends_traceI)
  fix st :: "'a state"
  show "prefix (trace st) (trace (state_of (stage_inputs h ev cid ins st)))"
  proof (induction ins arbitrary: st)
    case Nil
    then show ?case by simp
  next
    case (Cons a ins)
    obtain cf ct where a: "a = (cf, ct)" by (cases a)
    note c = extends_traceD [OF extends_CopyToContainer, of st h ev cid cf ct]
    show ?case
    proof (cases "CopyToContainer h ev cid cf ct st")
      case (Inl fin)
      with c a show ?thesis by simp
    next
      case (Inr r)
      obtain e s1 where r: "r = (e, s1)" by (cases r)
      from c Inr r have p: "prefix (trace st) (trace s1)" by simp
      show ?thesis
      proof (cases e)
        case None
        from p Cons.IH [of s1] have "prefix (trace st) (trace (state_of (stage_inputs h ev cid ins s1)))"
          by (rule prefix_order.order_trans)
        with None Inr r a show ?thesis
          by simp
      next
        case (Some x)
        with Inr r a p show ?thesis by (simp add: prefix_prefix)
      qed
    qed
  qed
qed

lemma extends_start_container: "extends_trace (start_container ev cid)"
  by (rule extends_traceI) (simp add: start_container_def Let_def split: option.splits)

lemma extends_collect_logs: "extends_trace (collect_logs ev cid code)"
proof (rule extends_traceI)
  fix st :: "'a state"
  let ?st = "emit (Log DebugLevel (''Failed to get container logs: '' @ e))
                       (defer_call (CloseLogs False) (emit (Docker (ContainerLogs cid)) st))"
  have "prefix (trace st) (trace (snd (return_now
            (emit (Log DebugLevel (''Failed to get container logs: '' @ e))
                       (defer_call (CloseLogs False) (emit (Docker (ContainerLogs cid)) st))))))" for e
    using return_now_trace [of "emit (Log DebugLevel (''Failed to get container logs: '' @ e))
                       (defer_call (CloseLogs False) (emit (Docker (ContainerLogs cid)) st))"]
    by (simp add: append_prefixD)
  then show "prefix (trace st) (trace (state_of (collect_logs ev cid code st)))"
    by (simp add: collect_logs_def Let_def split: sum.splits option.splits)
qed

lemma extends_wait_container: "extends_trace (wait_container ev cid)"
proof (rule extends_traceI)
  fix st :: "'a state"
  have "prefix (trace st) (trace (state_of (collect_logs ev cid code
           (emit (Docker (ContainerInspect cid)) (emit (Docker (ContainerWait cid)) st)))))" for code
    using extends_traceD [OF extends_collect_logs, of
        "emit (Docker (ContainerInspect cid)) (emit (Docker (ContainerWait cid)) st)" ev cid code]
    by (simp add: append_prefixD)
  then show "prefix (trace st) (trace (state_of (wait_container ev cid st)))"
    by (simp add: wait_container_def Let_def
          split: wait_signal.splits sum.splits option.splits prod.splits)
qed

lemma do_sys_trace: "trace (snd (do_sys h c st)) = trace st @ [Sys c]"
  by (simp add: do_sys_def split: prod.splits)

lemma handleDirectory_trace: "prefix (trace st) (trace (snd (handleDirectory h T hdr st)))"
  by (simp add: handleDirectory_def do_sys_def split: prod.splits option.splits)

lemma handleSymlink_trace: "prefix (trace st) (trace (snd (handleSymlink h T hdr st)))"
  by (auto simp: handleSymlink_def do_sys_def prefix_def split: prod.splits option.splits)

lemma handleRegularFile_trace:
  "prefix (trace st) (trace (snd (handleRegularFile h body be T hdr st)))"
  by (auto simp: handleRegularFile_def do_sys_def prefix_def Let_def split: prod.splits option.splits)

lemma ExtractTar_trace:
  "prefix (trace st) (trace (snd (ExtractTar h items b d i st)))"
proof (induction items arbitrary: st)
  case Nil
  then show ?case by simp
next
  case (Cons it items)
  show ?case
  proof (cases it)
    case (Corrupt e)
    then show ?thesis by simp
  next
    case (Entry hdr body be)
    define T where "T = (if i then Join d (TrimPrefix (TrimPrefix (Name hdr) b) [Separator]) else d)"
    have step: "prefix (trace st) (trace (snd (case r of (None, s') \<Rightarrow> ExtractTar h items b d i s'
                    | (Some e, s') \<Rightarrow> (Some e, s'))))"
      if "prefix (trace st) (trace (snd r))" for r :: "error option \<times> 'a state"
    proof (cases r)
      case (Pair e s')
      show ?thesis
      proof (cases e)
        case None
        from that Pair Cons.IH [of s'] have "prefix (trace st) (trace (snd (ExtractTar h items b d i s')))"
          by (auto intro: prefix_order.order_trans)
        with None Pair show ?thesis by simp
      next
        case (Some a)
        with that Pair show ?thesis by simp
      qed
    qed
    have skip: "prefix (trace st) (trace (snd (ExtractTar h items b d i (emit l st))))" for l
      using Cons.IH [of "emit l st"] by (simp add: append_prefixD)
    show ?thesis
      unfolding Entry ExtractTar.simps Let_def T_def [symmetric]
      using step [OF handleDirectory_trace [of st h T hdr]]
        step [OF handleRegularFile_trace [of st h body be T hdr]]
        step [OF handleSymlink_trace [of st h T hdr]] skip
      by (simp only: split: if_splits) auto
  qed
qed

lemma extends_CopyFileFromContainer:
  "extends_trace (CopyFileFromContainer h ev cid containerPath hostPath)"
proof (rule extends_traceI)
  fix st :: "'a state"
  let ?st1 = "emit (Docker (CliCopyFromContainer cid containerPath)) st"
  show "prefix (trace st) (trace (state_of (CopyFileFromContainer h ev cid containerPath hostPath st)))"
  proof (cases "stat h (fs st) hostPath = None")
    case True
    then show ?thesis by (simp add: CopyFileFromContainer_def)
  next
    case False
    show ?thesis
    proof (cases "copy_from_container ev containerPath")
      case (Inl e)
      with False show ?thesis by (simp add: CopyFileFromContainer_def Let_def)
    next
      case (Inr x)
      obtain items n isd where x: "x = (items, n, isd)" by (cases x)
      obtain r s2 where ex: "ExtractTar h items n hostPath isd ?st1 = (r, s2)"
        by (cases "ExtractTar h items n hostPath isd ?st1")
      from ExtractTar_trace [of ?st1 h items n hostPath isd] ex
      have "prefix (trace st) (trace s2)" by (simp add: append_prefixD)
      with False Inr x ex show ?thesis
        by (simp add: CopyFileFromContainer_def Let_def prefix_prefix split: option.splits)
    qed
  qed
qed

lemma extends_collect_outputs: "extends_trace (collect_outputs h ev taskName cid outs)"
proof (rule extends_traceI)
  fix st :: "'a state"
  show "prefix (trace st) (trace (state_of (collect_outputs h ev taskName cid outs st)))"
  proof (induction outs arbitrary: st)
    case Nil
    then show ?case by simp
  next
    case (Cons a outs)
    obtain cf ct where a: "a = (cf, ct)" by (cases a)
    note c = extends_traceD [OF extends_CopyFileFromContainer, of st h ev cid cf ct]
    show ?case
    proof (cases "CopyFileFromContainer h ev cid cf ct st")
      case (Inl fin)
      with c a show ?thesis by simp
    next
      case (Inr r)
      obtain e s1 where r: "r = (e, s1)" by (cases r)
      from c Inr r have p: "prefix (trace st) (trace s1)" by simp
      show ?thesis
      proof (cases e)
        case None
        from p Cons.IH [of s1]
        have "prefix (trace st) (trace (state_of (collect_outputs h ev taskName cid outs s1)))"
          by (rule prefix_order.order_trans)
        with None Inr r a show ?thesis
          by simp
      next
        case (Some x)
        with Inr r a p show ?thesis by (simp add: prefix_prefix Let_def)
      qed
    qed
  qed
qed

lemma extends_stop_container: "extends_trace (stop_container ev cid)"
  by (rule extends_traceI) (simp add: stop_container_def Let_def split: option.splits)

lemma extends_remove_container: "extends_trace (remove_container ev cid)"
  by (rule extends_traceI) (simp add: remove_container_def Let_def split: option.splits)

lemma extends_after_wait: "extends_trace (after_wait h ev taskName cid outs)"
  unfolding after_wait_def
  by (intro extends_trace_andThen extends_collect_outputs extends_stop_container
        extends_remove_container)

lemma extends_acquire_image: "extends_trace (acquire_image ev imageLink auth)"
  unfolding acquire_image_def
  by (intro extends_trace_andThen extends_pull_image extends_inspect_image)

lemma extends_Inr: "extends_trace (\<lambda>st. Inr (a, st))"
  by (rule extends_traceI) simp

text \<open>What follows a step in the run extends the trace the step ends with.\<close>

lemma run_after_options:
  assumes "upto_options h ev imageLink outs st = Inr (auth, st1)"
  shows "RunGhcrContainer h ev taskName imageLink flags envCont ins outs st =
           finish (andThen (acquire_image ev imageLink auth) (\<lambda>_.
                   andThen (create_container ev imageLink flags envCont) (\<lambda>containerID.
                   andThen (stage_inputs h ev containerID ins) (\<lambda>_.
                   andThen (start_container ev containerID) (\<lambda>_.
                   andThen (wait_container ev containerID) (\<lambda>_.
                   after_wait h ev taskName containerID outs))))) st1)"
  using assms
  by (simp add: RunGhcrContainer_def upto_start_def upto_create_def andThen_def
        split: sum.splits prod.splits)

lemma run_after_start:
  assumes "upto_start h ev imageLink flags envCont ins outs st = Inr (cid, st1)"
  shows "RunGhcrContainer h ev taskName imageLink flags envCont ins outs st =
           finish (andThen (wait_container ev cid) (\<lambda>_. after_wait h ev taskName cid outs) st1)"
  using assms
  by (simp add: RunGhcrContainer_def andThen_def)

lemma andThen_assoc:
  "andThen (andThen m k) k' = andThen m (\<lambda>a. andThen (k a) k')"
  by (rule ext) (simp add: andThen_def split: sum.splits prod.splits)

lemma finish_andThen_trace:
  assumes "\<And>a. extends_trace (k a)"
  shows "prefix (trace (state_of (m st))) (trace (snd (finish (andThen m k st))))"
proof (cases "m st")
  case (Inl fin)
  then show ?thesis by (simp add: andThen_Inl finish_def)
next
  case (Inr r)
  obtain a s1 where r: "r = (a, s1)" by (cases r)
  from extends_traceD [OF assms [of a], of s1] finish_trace [of "k a s1"]
  have "prefix (trace s1) (trace (snd (finish (k a s1))))"
    by (rule prefix_order.order_trans)
  with Inr r show ?thesis by (simp add: andThen_Inr)
qed

lemma preflight_ok:
  "\<forall>(cf, ct) \<in> set outs. stat h (fs st) ct \<noteq> None \<Longrightarrow> preflight h outs st = Inr ((), st)"
  by (induction outs) auto

lemma pull_image_event:
  "prefix (trace st @ [Docker (ImagePull imageLink auth)])
     (trace (state_of (pull_image ev imageLink auth st)))"
  by (simp add: pull_image_def Let_def split: sum.splits option.splits prod.splits)

lemma run_pulls_with:
  assumes "upto_options h ev imageLink outs st = Inr (auth, st1)"
  shows "Docker (ImagePull imageLink auth)
           \<in> set (trace (snd (RunGhcrContainer h ev taskName imageLink flags envCont ins outs st)))"
proof -
  let ?K = "\<lambda>imagePullErr. andThen (inspect_image ev imageLink imagePullErr) (\<lambda>_.
                   andThen (create_container ev imageLink flags envCont) (\<lambda>containerID.
                   andThen (stage_inputs h ev containerID ins) (\<lambda>_.
                   andThen (start_container ev containerID) (\<lambda>_.
                   andThen (wait_container ev containerID) (\<lambda>_.
                   after_wait h ev taskName containerID outs)))))"
  have K: "extends_trace (?K pe)" for pe
    by (intro extends_trace_andThen extends_inspect_image extends_create_container
          extends_stage_inputs extends_start_container extends_wait_container extends_after_wait)
  have run: "RunGhcrContainer h ev taskName imageLink flags envCont ins outs st
      = finish (andThen (pull_image ev imageLink auth) ?K st1)"
    unfolding run_after_options [OF assms] acquire_image_def andThen_assoc ..
  from pull_image_event [of st1 imageLink auth ev]
    finish_andThen_trace [of ?K "pull_image ev imageLink auth" st1, OF K]
  have "prefix (trace st1 @ [Docker (ImagePull imageLink auth)])
          (trace (snd (RunGhcrContainer h ev taskName imageLink flags envCont ins outs st)))"
    unfolding run by (rule prefix_order.order_trans)
  then show ?thesis
    by (auto simp: prefix_def)
qed

lemma upto_options_ok:
  assumes "\<forall>(cf, ct) \<in> set outs. stat h (fs st) ct \<noteq> None" and "client_new ev = None"
  shows "upto_options h ev imageLink outs st
           = pull_options ev imageLink (defer_call CloseClient (emit (Docker NewClient) st))"
  using preflight_ok [OF assms(1)] assms(2)
  by (simp add: upto_options_def andThen_def new_client_def)

text \<open>
  Claim C9, as amended: the credential is resolved only for an image reference that
  starts with the registry host \<^verbatim>\<open>ghcr.io\<close>. For a run that passes the preflight
  check and gets its client: (1) for any other image reference the pull is sent
  without a credential, whatever the token; (2) for such a reference a non-empty token
  is paired with the fixed user name and the pull is sent with the encoded pair; (3)
  with an empty token the Docker configuration is loaded, and a failure to load it is
  fatal; (4) the password it stores for the host, when not empty, is paired with the
  same fixed user name and sent; (5) when that password is empty too, the pull is sent
  without a credential.
\<close>

theorem credential_resolution:
  assumes "\<forall>(cf, ct) \<in> set copyFromContainer. stat h (fs st) ct \<noteq> None"
    and "client_new ev = None"
  shows
    "(let run = RunGhcrContainer h ev taskName imageLink flags envCont copyToContainer
                  copyFromContainer st;
          fixed = (\<lambda>password. \<lparr>Username = ghcrUsername, Password = password\<rparr>)
      in (\<not> HasPrefix imageLink GithubDockerHost \<longrightarrow>
            Docker (ImagePull imageLink []) \<in> set (trace (snd run)))
       \<and> (HasPrefix imageLink GithubDockerHost \<and> Token ev \<noteq> []
            \<and> json_marshal ev (fixed (Token ev)) = Inr js \<longrightarrow>
            Docker (ImagePull imageLink (base64url ev js)) \<in> set (trace (snd run)))
       \<and> (HasPrefix imageLink GithubDockerHost \<and> Token ev = [] \<and> config_load ev = Inl e \<longrightarrow>
            run = (Exited (DockerConfigLoadFailed e),
                   defer_call CloseClient (emit (Docker NewClient) st)))
       \<and> (HasPrefix imageLink GithubDockerHost \<and> Token ev = [] \<and> config_load ev = Inr cfg
            \<and> Password (cfg GithubDockerHost) \<noteq> []
            \<and> json_marshal ev (fixed (Password (cfg GithubDockerHost))) = Inr js \<longrightarrow>
            Docker (ImagePull imageLink (base64url ev js)) \<in> set (trace (snd run)))
       \<and> (HasPrefix imageLink GithubDockerHost \<and> Token ev = [] \<and> config_load ev = Inr cfg
            \<and> Password (cfg GithubDockerHost) = [] \<longrightarrow>
            Docker (ImagePull imageLink []) \<in> set (trace (snd run))))"
proof -
  let ?st1 = "defer_call CloseClient (emit (Docker NewClient) st)"
  note opts = upto_options_ok [OF assms, of imageLink]
  have pulls: "Docker (ImagePull imageLink auth)
           \<in> set (trace (snd (RunGhcrContainer h ev taskName imageLink flags envCont copyToContainer
                  copyFromContainer st)))"
    if "pull_options ev imageLink ?st1 = Inr (auth, ?st1)" for auth
    using run_pulls_with [of h ev imageLink copyFromContainer st auth ?st1] that opts by simp
  have c1: "Docker (ImagePull imageLink []) \<in> set (trace (snd (RunGhcrContainer h ev taskName
              imageLink flags envCont copyToContainer copyFromContainer st)))"
    if "\<not> HasPrefix imageLink GithubDockerHost"
    using that by (intro pulls) (simp add: pull_options_def)
  have c2: "Docker (ImagePull imageLink (base64url ev js)) \<in> set (trace (snd (RunGhcrContainer h ev
              taskName imageLink flags envCont copyToContainer copyFromContainer st)))"
    if "HasPrefix imageLink GithubDockerHost" "Token ev \<noteq> []"
       "json_marshal ev \<lparr>Username = ghcrUsername, Password = Token ev\<rparr> = Inr js"
    using that by (intro pulls) (simp add: pull_options_def)
  have c3: "RunGhcrContainer h ev taskName imageLink flags envCont copyToContainer
              copyFromContainer st = (Exited (DockerConfigLoadFailed e), ?st1)"
    if "HasPrefix imageLink GithubDockerHost" "Token ev = []" "config_load ev = Inl e"
    using that opts
    by (simp add: RunGhcrContainer_def upto_start_def upto_create_def andThen_def finish_def
          pull_options_def Fatalf_def)
  have c4: "Docker (ImagePull imageLink (base64url ev js)) \<in> set (trace (snd (RunGhcrContainer h ev
              taskName imageLink flags envCont copyToContainer copyFromContainer st)))"
    if "HasPrefix imageLink GithubDockerHost" "Token ev = []" "config_load ev = Inr cfg"
       "Password (cfg GithubDockerHost) \<noteq> []"
       "json_marshal ev \<lparr>Username = ghcrUsername, Password = Password (cfg GithubDockerHost)\<rparr> = Inr js"
    using that by (intro pulls) (simp add: pull_options_def)
  have c5: "Docker (ImagePull imageLink []) \<in> set (trace (snd (RunGhcrContainer h ev taskName
              imageLink flags envCont copyToContainer copyFromContainer st)))"
    if "HasPrefix imageLink GithubDockerHost" "Token ev = []" "config_load ev = Inr cfg"
       "Password (cfg GithubDockerHost) = []"
    using that by (intro pulls) (simp add: pull_options_def)
  from c1 c2 c3 c4 c5 show ?thesis
    unfolding Let_def by blast
qed

theorem credential_resolution_witness:
  "stat plain_host (fs scenario_start) ''/host/out'' \<noteq> None
   \<and> client_new (scenario_env\<lparr>Token := ''ghp_secret''\<rparr>) = None
   \<and> HasPrefix ''ghcr.io/seqrateam/builder:v1'' GithubDockerHost
   \<and> Token (scenario_env\<lparr>Token := ''ghp_secret''\<rparr>) \<noteq> []
   \<and> json_marshal (scenario_env\<lparr>Token := ''ghp_secret''\<rparr>)
        \<lparr>Username = ghcrUsername, Password = Token (scenario_env\<lparr>Token := ''ghp_secret''\<rparr>)\<rparr>
       = Inr ''USERNAME:ghp_secret''
   \<and> Docker (ImagePull ''ghcr.io/seqrateam/builder:v1''
         (base64url (scenario_env\<lparr>Token := ''ghp_secret''\<rparr>) ''USERNAME:ghp_secret''))
       \<in> set (trace (snd (RunGhcrContainer plain_host (scenario_env\<lparr>Token := ''ghp_secret''\<rparr>)
                ''Compile'' ''ghcr.io/seqrateam/builder:v1'' [] []
                [(''/host/proj'', ''/data/project'')] [(''/data/build'', ''/host/out'')]
                scenario_start)))"
proof -
  let ?E = "scenario_env\<lparr>Token := ''ghp_secret''\<rparr>"
  have h1: "\<forall>(cf, ct) \<in> set [(''/data/build'', ''/host/out'')].
              stat plain_host (fs scenario_start) ct \<noteq> None"
    by (simp add: plain_host_def scenario_start_def)
  have h1': "stat plain_host (fs scenario_start) ''/host/out'' \<noteq> None"
    by (simp add: plain_host_def scenario_start_def)
  have h2: "client_new ?E = None"
    by (simp add: scenario_env_def)
  have h3: "HasPrefix ''ghcr.io/seqrateam/builder:v1'' GithubDockerHost"
    by (simp add: HasPrefix_def GithubDockerHost_def)
  have h4: "Token ?E \<noteq> []"
    by simp
  have h5: "json_marshal ?E \<lparr>Username = ghcrUsername, Password = Token ?E\<rparr>
              = Inr ''USERNAME:ghp_secret''"
    by (simp add: scenario_env_def ghcrUsername_def)
  from credential_resolution [OF h1 h2, where imageLink = "''ghcr.io/seqrateam/builder:v1''"
      and js = "''USERNAME:ghp_secret''" and taskName = "''Compile''" and flags = "[]"
      and envCont = "[]" and copyToContainer = "[(''/host/proj'', ''/data/project'')]"]
    h3 h4 h5
  have "Docker (ImagePull ''ghcr.io/seqrateam/builder:v1''
         (base64url ?E ''USERNAME:ghp_secret''))
       \<in> set (trace (snd (RunGhcrContainer plain_host ?E
                ''Compile'' ''ghcr.io/seqrateam/builder:v1'' [] []
                [(''/host/proj'', ''/data/project'')] [(''/data/build'', ''/host/out'')]
                scenario_start)))"
    unfolding Let_def by blast
  with h1' h2 h3 h4 h5 show ?thesis
    by blast
qed

text \<open>
  The claim as stated fails for an image that is not hosted at \<^verbatim>\<open>ghcr.io\<close>: with the
  explicit token set, the run of the scenario pulls \<^verbatim>\<open>registry/builder:v1\<close> without any
  credential.
\<close>

theorem credential_resolution_counterexample:
  "Token (scenario_env\<lparr>Token := ''ghp_secret''\<rparr>) = ''ghp_secret''
   \<and> fst (scenario_run (scenario_env\<lparr>Token := ''ghp_secret''\<rparr>)) = Returned
   \<and> Docker (ImagePull ''registry/builder:v1'' [])
       \<in> set (trace (snd (scenario_run (scenario_env\<lparr>Token := ''ghp_secret''\<rparr>))))"
  by code_simp

lemma create_container_event:
  "prefix (trace st @ [Docker (ContainerCreate imageLink flags envCont)])
     (trace (state_of (create_container ev imageLink flags envCont st)))"
  by (simp add: create_container_def Let_def split: sum.splits)

lemma run_creates_after_acquire:
  assumes "upto_options h ev imageLink outs st = Inr (auth, st1)"
    and "acquire_image ev imageLink auth st1 = Inr ((), st2)"
  shows "Docker (ContainerCreate imageLink flags envCont)
           \<in> set (trace (snd (RunGhcrContainer h ev taskName imageLink flags envCont ins outs st)))"
proof -
  let ?K = "\<lambda>containerID.
                   andThen (stage_inputs h ev containerID ins) (\<lambda>_.
                   andThen (start_container ev containerID) (\<lambda>_.
                   andThen (wait_container ev containerID) (\<lambda>_.
                   after_wait h ev taskName containerID outs)))"
  have K: "extends_trace (?K c)" for c
    by (intro extends_trace_andThen extends_stage_inputs extends_start_container
          extends_wait_container extends_after_wait)
  have run: "RunGhcrContainer h ev taskName imageLink flags envCont ins outs st
      = finish (andThen (create_container ev imageLink flags envCont) ?K st2)"
    unfolding run_after_options [OF assms(1)] using assms(2) by (simp add: andThen_def)
  from create_container_event [of st2 imageLink flags envCont ev]
    finish_andThen_trace [of ?K "create_container ev imageLink flags envCont" st2, OF K]
  have "prefix (trace st2 @ [Docker (ContainerCreate imageLink flags envCont)])
          (trace (snd (RunGhcrContainer h ev taskName imageLink flags envCont ins outs st)))"
    unfolding run by (rule prefix_order.order_trans)
  then show ?thesis
    by (auto simp: prefix_def)
qed

lemma acquire_image_cached:
  assumes "image_pull ev imageLink auth = Inl pe" and "image_inspect ev imageLink = None"
  shows "acquire_image ev imageLink auth st
           = Inr ((), emit (Docker (ImageInspect imageLink))
                        (emit (Docker (ImagePull imageLink auth)) st))"
  using assms by (simp add: acquire_image_def andThen_def pull_image_def inspect_image_def)

lemma acquire_image_inspect_ok:
  assumes "image_inspect ev imageLink = None"
  shows "acquire_image ev imageLink auth st \<noteq> Inl (Exited f, s)"
  using assms
  by (auto simp: acquire_image_def andThen_def pull_image_def inspect_image_def Let_def
        split: sum.splits option.splits prod.splits)

lemma acquire_image_both_fail:
  assumes "image_pull ev imageLink auth = Inl pe" and "image_inspect ev imageLink = Some ie"
  shows "acquire_image ev imageLink auth st
           = Inl (Exited (ImageUnusable imageLink pe),
                  emit (Docker (ImageInspect imageLink))
                    (emit (Docker (ImagePull imageLink auth)) st))"
  using assms
  by (simp add: acquire_image_def andThen_def pull_image_def inspect_image_def Fatalf_def)

lemma acquire_image_inspect_fails:
  assumes "image_pull ev imageLink auth = Inr (items, e)"
    and "Quiet ev \<or> DisplayInteractiveProgress items e \<noteq> None"
    and "image_inspect ev imageLink = Some ie"
  shows "\<exists>s. acquire_image ev imageLink auth st = Inl (Exited (ImageUnusable imageLink ie), s)"
  using assms
  by (auto simp: acquire_image_def andThen_def pull_image_def inspect_image_def Fatalf_def Let_def)

text \<open>
  Claim C4, as amended: the acquisition of the image fails exactly when the inspect
  fails. (1) When the pull fails and the inspect succeeds, the acquisition succeeds
  with the cached image, and the run goes on to create the container. (2) When the
  inspect succeeds the acquisition never ends in a fatal error. (3) When both fail the
  fatal error carries the error of the pull. (4) When the pull succeeds, its progress
  stream is read to the end, and the inspect fails, the fatal error carries the error
  of the inspect.
\<close>

theorem image_acquisition:
  "(image_pull ev imageLink auth = Inl pe \<and> image_inspect ev imageLink = None \<longrightarrow>
      acquire_image ev imageLink auth st
        = Inr ((), emit (Docker (ImageInspect imageLink))
                     (emit (Docker (ImagePull imageLink auth)) st))
      \<and> (upto_options h ev imageLink copyFromContainer st0 = Inr (auth, st) \<longrightarrow>
           Docker (ContainerCreate imageLink flags envCont)
             \<in> set (trace (snd (RunGhcrContainer h ev taskName imageLink flags envCont
                                  copyToContainer copyFromContainer st0)))))
   \<and> (image_inspect ev imageLink = None \<longrightarrow>
        (\<forall>f s. acquire_image ev imageLink auth st \<noteq> Inl (Exited f, s)))
   \<and> (image_pull ev imageLink auth = Inl pe \<and> image_inspect ev imageLink = Some ie \<longrightarrow>
        acquire_image ev imageLink auth st
          = Inl (Exited (ImageUnusable imageLink pe),
                 emit (Docker (ImageInspect imageLink))
                   (emit (Docker (ImagePull imageLink auth)) st)))
   \<and> (image_pull ev imageLink auth = Inr (items, e)
        \<and> (Quiet ev \<or> DisplayInteractiveProgress items e \<noteq> None)
        \<and> image_inspect ev imageLink = Some ie \<longrightarrow>
        (\<exists>s. acquire_image ev imageLink auth st
                = Inl (Exited (ImageUnusable imageLink ie), s)))"
proof (intro conjI impI allI)
  assume a: "image_pull ev imageLink auth = Inl pe \<and> image_inspect ev imageLink = None"
  then show c: "acquire_image ev imageLink auth st
        = Inr ((), emit (Docker (ImageInspect imageLink))
                     (emit (Docker (ImagePull imageLink auth)) st))"
    by (intro acquire_image_cached) simp_all
  assume "upto_options h ev imageLink copyFromContainer st0 = Inr (auth, st)"
  from run_creates_after_acquire [OF this c]
  show "Docker (ContainerCreate imageLink flags envCont)
             \<in> set (trace (snd (RunGhcrContainer h ev taskName imageLink flags envCont
                                  copyToContainer copyFromContainer st0)))" .
next
  fix f s
  assume "image_inspect ev imageLink = None"
  then show "acquire_image ev imageLink auth st \<noteq> Inl (Exited f, s)"
    by (rule acquire_image_inspect_ok)
next
  assume "image_pull ev imageLink auth = Inl pe \<and> image_inspect ev imageLink = Some ie"
  then show "acquire_image ev imageLink auth st
          = Inl (Exited (ImageUnusable imageLink pe),
                 emit (Docker (ImageInspect imageLink))
                   (emit (Docker (ImagePull imageLink auth)) st))"
    by (intro acquire_image_both_fail) simp_all
next
  assume "image_pull ev imageLink auth = Inr (items, e)
        \<and> (Quiet ev \<or> DisplayInteractiveProgress items e \<noteq> None)
        \<and> image_inspect ev imageLink = Some ie"
  then have "image_pull ev imageLink auth = Inr (items, e)"
    and "Quiet ev \<or> DisplayInteractiveProgress items e \<noteq> None"
    and "image_inspect ev imageLink = Some ie"
    by blast+
  then show "\<exists>s. acquire_image ev imageLink auth st
                = Inl (Exited (ImageUnusable imageLink ie), s)"
    by (rule acquire_image_inspect_fails)
qed

theorem image_acquisition_witness:
  "image_pull (scenario_env\<lparr>image_pull := (\<lambda>image auth. Inl ''unauthorized'')\<rparr>)
      ''registry/builder:v1'' [] = Inl ''unauthorized''
   \<and> image_inspect (scenario_env\<lparr>image_pull := (\<lambda>image auth. Inl ''unauthorized'')\<rparr>)
      ''registry/builder:v1'' = None
   \<and> upto_options plain_host (scenario_env\<lparr>image_pull := (\<lambda>image auth. Inl ''unauthorized'')\<rparr>)
        ''registry/builder:v1'' [(''/data/build'', ''/host/out'')] scenario_start
       = Inr ([], client_ready)
   \<and> acquire_image (scenario_env\<lparr>image_pull := (\<lambda>image auth. Inl ''unauthorized'')\<rparr>)
        ''registry/builder:v1'' [] client_ready
       = Inr ((), emit (Docker (ImageInspect ''registry/builder:v1''))
                    (emit (Docker (ImagePull ''registry/builder:v1'' [])) client_ready))
   \<and> Docker (ContainerCreate ''registry/builder:v1'' [] [])
       \<in> set (trace (snd (scenario_run
                  (scenario_env\<lparr>image_pull := (\<lambda>image auth. Inl ''unauthorized'')\<rparr>))))"
proof -
  let ?E = "scenario_env\<lparr>image_pull := (\<lambda>image auth. Inl ''unauthorized'')\<rparr>"
  have h1: "image_pull ?E ''registry/builder:v1'' [] = Inl ''unauthorized''"
    by simp
  have h2: "image_inspect ?E ''registry/builder:v1'' = None"
    by (simp add: scenario_env_def)
  have h3: "upto_options plain_host ?E ''registry/builder:v1'' [(''/data/build'', ''/host/out'')]
              scenario_start = Inr ([], client_ready)"
    by code_simp
  note t = image_acquisition [where ev = ?E and imageLink = "''registry/builder:v1''"
      and auth = "[]" and pe = "''unauthorized''" and st = client_ready and h = plain_host
      and copyFromContainer = "[(''/data/build'', ''/host/out'')]" and ?st0.0 = scenario_start
      and flags = "[]" and envCont = "[]" and taskName = "''Compile''"
      and copyToContainer = "[(''/host/proj'', ''/data/project'')]"]
  from t h1 h2 h3
  have "acquire_image ?E ''registry/builder:v1'' [] client_ready
       = Inr ((), emit (Docker (ImageInspect ''registry/builder:v1''))
                    (emit (Docker (ImagePull ''registry/builder:v1'' [])) client_ready))"
    and "Docker (ContainerCreate ''registry/builder:v1'' [] [])
       \<in> set (trace (snd (scenario_run ?E)))"
    unfolding scenario_run_def by blast+
  with h1 h2 h3 show ?thesis
    by blast
qed

text \<open>
  The claim as stated says that the acquisition fails only when both the pull and the
  inspect fail. In the scenario with an inspect that fails, the pull succeeds and the
  run ends with the fatal error of the inspect.
\<close>

theorem image_acquisition_counterexample:
  "image_pull (scenario_env\<lparr>image_inspect := (\<lambda>image. Some ''No such image'')\<rparr>)
      ''registry/builder:v1'' [] = Inr (pull_progress, CleanEnd)
   \<and> fst (scenario_run (scenario_env\<lparr>image_inspect := (\<lambda>image. Some ''No such image'')\<rparr>))
       = Exited (ImageUnusable ''registry/builder:v1'' ''No such image'')"
  by code_simp

section \<open>What the steps after the start append to the trace\<close>

lemma emits_onlyI:
  "(\<And>st. \<exists>evs. trace (state_of (f st)) = trace st @ evs \<and> list_all P evs) \<Longrightarrow> emits_only P f"
  by (simp add: emits_only_def)

lemma emits_onlyD:
  "emits_only P f \<Longrightarrow> \<exists>evs. trace (state_of (f st)) = trace st @ evs \<and> list_all P evs"
  by (simp add: emits_only_def)

lemma emits_chain:
  assumes "trace s1 = trace st @ xs" "list_all P xs"
    and "\<exists>evs. trace s2 = trace s1 @ evs \<and> list_all P evs"
  shows "\<exists>evs. trace s2 = trace st @ evs \<and> list_all P evs"
proof -
  from assms(3) obtain ys where "trace s2 = trace s1 @ ys" "list_all P ys"
    by (elim exE conjE)
  with assms(1,2) have "trace s2 = trace st @ (xs @ ys) \<and> list_all P (xs @ ys)"
    by simp
  then show ?thesis ..
qed

lemma emits_only_andThen:
  assumes "emits_only P m" and "\<And>a. emits_only P (k a)"
  shows "emits_only P (andThen m k)"
proof (rule emits_onlyI)
  fix st
  from emits_onlyD [OF assms(1), of st] obtain xs where
    xs: "trace (state_of (m st)) = trace st @ xs" "list_all P xs"
    by (elim exE conjE)
  show "\<exists>evs. trace (state_of (andThen m k st)) = trace st @ evs \<and> list_all P evs"
  proof (cases "m st")
    case (Inl fin)
    with xs have "trace (state_of (andThen m k st)) = trace st @ xs \<and> list_all P xs"
      by (simp add: andThen_Inl)
    then show ?thesis ..
  next
    case (Inr r)
    obtain a s1 where r: "r = (a, s1)" by (cases r)
    from xs Inr r have "trace s1 = trace st @ xs" by simp
    from emits_chain [OF this xs(2) emits_onlyD [OF assms(2) [of a], of s1]] Inr r
    show ?thesis by (simp add: andThen_Inr)
  qed
qed

lemma run_deferred_emits:
  "\<exists>evs. trace (snd (run_deferred ds p st)) = trace st @ evs
      \<and> list_all (\<lambda>e. \<not> teardown_call e) evs"
proof (induction ds p st rule: run_deferred.induct)
  case (1 panicking st)
  then show ?case by simp
next
  case (2 ds panicking st)
  show ?case
    using emits_chain [of "emit (Docker ClientClose) st" st "[Docker ClientClose]", OF _ _ 2]
    by simp
next
  case (3 ds panicking st)
  show ?case
    using emits_chain [of "emit (Docker PullReaderClose) st" st "[Docker PullReaderClose]", OF _ _ 3]
    by simp
next
  case (4 containerID ds panicking st)
  show ?case
    using emits_chain [of "emit (Docker (ContainerKill containerID ''SIGKILL'')) st" st
        "[Docker (ContainerKill containerID ''SIGKILL'')]", OF _ _ 4]
    by simp
next
  case (5 has_reader ds panicking st)
  show ?case
  proof (cases has_reader)
    case True
    with emits_chain [of "emit (Docker LogsReaderClose) st" st "[Docker LogsReaderClose]",
        OF _ _ 5(1) [OF True]]
    show ?thesis by simp
  next
    case False
    with 5(2) show ?thesis by simp
  qed
qed

lemma return_now_emits:
  "\<exists>evs. trace (snd (return_now st)) = trace st @ evs \<and> list_all (\<lambda>e. \<not> teardown_call e) evs"
  using run_deferred_emits [of "deferred st" False "st\<lparr>deferred := []\<rparr>"]
  by (simp add: return_now_def)

lemma no_teardown_collect_logs: "no_teardown (collect_logs ev cid code)"
proof (rule emits_onlyI)
  fix st :: "'a state"
  let ?st1 = "emit (Docker (ContainerLogs cid)) st"
  show "\<exists>evs. trace (state_of (collect_logs ev cid code st)) = trace st @ evs
          \<and> list_all (\<lambda>e. \<not> teardown_call e) evs"
  proof (cases "container_logs ev")
    case (Inl e)
    let ?st2 = "emit (Log DebugLevel (''Failed to get container logs: '' @ e))
                  (defer_call (CloseLogs False) ?st1)"
    have "trace ?st2 = trace st @ [Docker (ContainerLogs cid),
             Log DebugLevel (''Failed to get container logs: '' @ e)]"
      by simp
    from emits_chain [OF this _ return_now_emits [of ?st2]] Inl show ?thesis
      by (simp add: collect_logs_def)
  next
    case (Inr out)
    then show ?thesis
      by (cases out) (auto simp: collect_logs_def Let_def split: option.splits)
  qed
qed

lemma no_teardown_wait_container: "no_teardown (wait_container ev cid)"
proof (rule emits_onlyI)
  fix st :: "'a state"
  let ?st2 = "emit (Docker (ContainerInspect cid)) (emit (Docker (ContainerWait cid)) st)"
  have logs: "\<exists>evs. trace (state_of (collect_logs ev cid code ?st2)) = trace st @ evs
          \<and> list_all (\<lambda>e. \<not> teardown_call e) evs" for code
    using emits_chain [of ?st2 st "[Docker (ContainerWait cid), Docker (ContainerInspect cid)]",
        OF _ _ emits_onlyD [OF no_teardown_collect_logs, of ev cid code ?st2]]
    by simp
  show "\<exists>evs. trace (state_of (wait_container ev cid st)) = trace st @ evs
          \<and> list_all (\<lambda>e. \<not> teardown_call e) evs"
  proof (cases "container_wait ev")
    case (ErrSignal e)
    then show ?thesis by (cases e) (simp_all add: wait_container_def)
  next
    case (StatusSignal code)
    show ?thesis
    proof (cases "container_inspect ev")
      case (Inl e)
      with StatusSignal show ?thesis by (simp add: wait_container_def)
    next
      case (Inr times)
      obtain sa fa where times: "times = (sa, fa)" by (cases times)
      show ?thesis
      proof (cases "time_parse ev sa = None \<and> time_parse ev fa = None")
        case True
        with StatusSignal Inr times logs [of code] show ?thesis
          by (simp add: wait_container_def)
      next
        case False
        with StatusSignal Inr times show ?thesis
          by (cases "time_parse ev sa"; cases "time_parse ev fa")
             (simp_all add: wait_container_def Let_def)
      qed
    qed
  next
    case NoSignal
    then show ?thesis by (simp add: wait_container_def)
  qed
qed

lemma do_sys_emits:
  "\<exists>evs. trace (snd (do_sys h c st)) = trace st @ evs \<and> list_all (\<lambda>e. \<not> teardown_call e) evs"
  by (rule exI [of _ "[Sys c]"]) (simp add: do_sys_trace)

lemma handleDirectory_emits:
  "\<exists>evs. trace (snd (handleDirectory h T hdr st)) = trace st @ evs
      \<and> list_all (\<lambda>e. \<not> teardown_call e) evs"
  by (rule exI [of _ "[Sys (MkdirAll T (ucast (Mode hdr)))]"])
     (simp add: handleDirectory_def do_sys_def split: prod.splits option.splits)

lemma handleSymlink_emits:
  "\<exists>evs. trace (snd (handleSymlink h T hdr st)) = trace st @ evs
      \<and> list_all (\<lambda>e. \<not> teardown_call e) evs"
proof -
  obtain e1 s1 where r1: "do_sys h (MkdirAll (Dir T) 493) st = (e1, s1)"
    by (cases "do_sys h (MkdirAll (Dir T) 493) st")
  obtain e2 s2 where r2: "do_sys h (Symlink (Linkname hdr) T) s1 = (e2, s2)"
    by (cases "do_sys h (Symlink (Linkname hdr) T) s1")
  from do_sys_trace [of h "MkdirAll (Dir T) 493" st] r1
  have t1: "trace s1 = trace st @ [Sys (MkdirAll (Dir T) 493)]" by simp
  from do_sys_trace [of h "Symlink (Linkname hdr) T" s1] r2 t1
  have t2: "trace s2 = trace st @ [Sys (MkdirAll (Dir T) 493), Sys (Symlink (Linkname hdr) T)]"
    by simp
  show ?thesis
  proof (cases e1)
    case (Some a)
    with r1 t1 show ?thesis by (simp add: handleSymlink_def)
  next
    case None
    with r1 r2 t2 show ?thesis by (cases e2) (simp_all add: handleSymlink_def)
  qed
qed

lemma handleRegularFile_emits:
  "\<exists>evs. trace (snd (handleRegularFile h body be T hdr st)) = trace st @ evs
      \<and> list_all (\<lambda>e. \<not> teardown_call e) evs"
proof -
  obtain e1 s1 where r1: "do_sys h (MkdirAll (Dir T) 493) st = (e1, s1)"
    by (cases "do_sys h (MkdirAll (Dir T) 493) st")
  obtain e2 s2 where r2: "do_sys h (Create T) s1 = (e2, s2)"
    by (cases "do_sys h (Create T) s1")
  obtain e3 s3 where r3: "do_sys h (Copy T body) s2 = (e3, s3)"
    by (cases "do_sys h (Copy T body) s2")
  obtain e4 s4 where r4: "do_sys h (Close T) s3 = (e4, s4)"
    by (cases "do_sys h (Close T) s3")
  from do_sys_trace [of h "MkdirAll (Dir T) 493" st] r1
  have t1: "trace s1 = trace st @ [Sys (MkdirAll (Dir T) 493)]" by simp
  from do_sys_trace [of h "Create T" s1] r2 t1
  have t2: "trace s2 = trace st @ [Sys (MkdirAll (Dir T) 493), Sys (Create T)]" by simp
  from do_sys_trace [of h "Copy T body" s2] r3 t2
  have t3: "trace s3 = trace st @ [Sys (MkdirAll (Dir T) 493), Sys (Create T), Sys (Copy T body)]"
    by simp
  from do_sys_trace [of h "Close T" s3] r4 t3
  have t4: "trace s4 = trace st @ [Sys (MkdirAll (Dir T) 493), Sys (Create T), Sys (Copy T body),
              Sys (Close T)]"
    by simp
  show ?thesis
  proof (cases e1)
    case (Some a)
    with r1 t1 show ?thesis by (simp add: handleRegularFile_def)
  next
    case None
    note e1 = this
    show ?thesis
    proof (cases e2)
      case (Some a)
      with e1 r1 r2 t2 show ?thesis by (simp add: handleRegularFile_def)
    next
      case None
      with e1 r1 r2 r3 r4 t4 show ?thesis
        by (simp add: handleRegularFile_def Let_def split: option.splits)
    qed
  qed
qed

lemma ExtractTar_emits:
  "\<exists>evs. trace (snd (ExtractTar h items b d i st)) = trace st @ evs
      \<and> list_all (\<lambda>e. \<not> teardown_call e) evs"
proof (induction items arbitrary: st)
  case Nil
  then show ?case by simp
next
  case (Cons it items)
  show ?case
  proof (cases it)
    case (Corrupt e)
    then show ?thesis by simp
  next
    case (Entry hdr body be)
    define T where "T = (if i then Join d (TrimPrefix (TrimPrefix (Name hdr) b) [Separator]) else d)"
    have step: "\<exists>evs. trace (snd (case r of (None, s') \<Rightarrow> ExtractTar h items b d i s'
                    | (Some e, s') \<Rightarrow> (Some e, s'))) = trace st @ evs
                  \<and> list_all (\<lambda>e. \<not> teardown_call e) evs"
      if "\<exists>evs. trace (snd r) = trace st @ evs \<and> list_all (\<lambda>e. \<not> teardown_call e) evs"
      for r :: "error option \<times> 'a state"
    proof -
      obtain e s' where r: "r = (e, s')" by (cases r)
      from that r obtain xs where xs: "trace s' = trace st @ xs"
          "list_all (\<lambda>e. \<not> teardown_call e) xs"
        by auto
      show ?thesis
      proof (cases e)
        case None
        from emits_chain [OF xs Cons.IH [of s']] None r show ?thesis by simp
      next
        case (Some a)
        with r xs show ?thesis by simp
      qed
    qed
    have skip: "\<exists>evs. trace (snd (ExtractTar h items b d i (emit (Log l m) st))) = trace st @ evs
                  \<and> list_all (\<lambda>e. \<not> teardown_call e) evs" for l m
      using emits_chain [of "emit (Log l m) st" st "[Log l m]", OF _ _ Cons.IH [of "emit (Log l m) st"]]
      by simp
    consider (dir) "Typeflag hdr = TypeDir"
      | (reg) "Typeflag hdr \<noteq> TypeDir" "Typeflag hdr = TypeReg"
      | (sym) "Typeflag hdr \<noteq> TypeDir" "Typeflag hdr \<noteq> TypeReg" "Typeflag hdr = TypeSymlink"
      | (glob) "Typeflag hdr \<noteq> TypeDir" "Typeflag hdr \<noteq> TypeReg" "Typeflag hdr \<noteq> TypeSymlink"
          "Typeflag hdr = TypeXGlobalHeader"
      | (other) "Typeflag hdr \<noteq> TypeDir" "Typeflag hdr \<noteq> TypeReg" "Typeflag hdr \<noteq> TypeSymlink"
          "Typeflag hdr \<noteq> TypeXGlobalHeader"
      by blast
    then show ?thesis
    proof cases
      case dir
      with step [OF handleDirectory_emits [of h T hdr st]] Entry show ?thesis
        by (simp add: T_def)
    next
      case reg
      with step [OF handleRegularFile_emits [of h body be T hdr st]] Entry show ?thesis
        by (simp add: T_def)
    next
      case sym
      with step [OF handleSymlink_emits [of h T hdr st]] Entry show ?thesis
        by (simp add: T_def)
    next
      case glob
      with skip [of TraceLevel "''Skipping global header''"] Entry show ?thesis
        by simp
    next
      case other
      with skip [of WarnLevel "''Skipping unsupported type '' @ format_c (Typeflag hdr) @ '': '' @ Name hdr"]
        Entry show ?thesis
        by simp
    qed
  qed
qed

lemma no_teardown_CopyFileFromContainer:
  "no_teardown (CopyFileFromContainer h ev cid containerPath hostPath)"
proof (rule emits_onlyI)
  fix st :: "'a state"
  let ?st1 = "emit (Docker (CliCopyFromContainer cid containerPath)) st"
  show "\<exists>evs. trace (state_of (CopyFileFromContainer h ev cid containerPath hostPath st))
            = trace st @ evs \<and> list_all (\<lambda>e. \<not> teardown_call e) evs"
  proof (cases "stat h (fs st) hostPath = None")
    case True
    then show ?thesis by (simp add: CopyFileFromContainer_def)
  next
    case False
    show ?thesis
    proof (cases "copy_from_container ev containerPath")
      case (Inl e)
      with False show ?thesis by (simp add: CopyFileFromContainer_def Let_def)
    next
      case (Inr x)
      obtain items n isd where x: "x = (items, n, isd)" by (cases x)
      obtain r s2 where ex: "ExtractTar h items n hostPath isd ?st1 = (r, s2)"
        by (cases "ExtractTar h items n hostPath isd ?st1")
      from ExtractTar_emits [of h items n hostPath isd ?st1] ex
      obtain xs where xs: "trace s2 = trace st @ Docker (CliCopyFromContainer cid containerPath) # xs"
          "list_all (\<lambda>e. \<not> teardown_call e) xs"
        by auto
      have "trace (emit (Docker ArchiveReaderClose) s2)
              = trace st @ (Docker (CliCopyFromContainer cid containerPath) # xs
                              @ [Docker ArchiveReaderClose])
            \<and> list_all (\<lambda>e. \<not> teardown_call e)
                 (Docker (CliCopyFromContainer cid containerPath) # xs @ [Docker ArchiveReaderClose])"
        using xs by simp
      then have "\<exists>evs. trace (emit (Docker ArchiveReaderClose) s2) = trace st @ evs
            \<and> list_all (\<lambda>e. \<not> teardown_call e) evs" ..
      with False Inr x ex show ?thesis
        by (simp add: CopyFileFromContainer_def Let_def split: option.splits)
    qed
  qed
qed

lemma no_teardown_collect_outputs: "no_teardown (collect_outputs h ev taskName cid outs)"
proof (rule emits_onlyI)
  fix st :: "'a state"
  show "\<exists>evs. trace (state_of (collect_outputs h ev taskName cid outs st)) = trace st @ evs
          \<and> list_all (\<lambda>e. \<not> teardown_call e) evs"
  proof (induction outs arbitrary: st)
    case Nil
    then show ?case by simp
  next
    case (Cons a outs)
    obtain cf ct where a: "a = (cf, ct)" by (cases a)
    from emits_onlyD [OF no_teardown_CopyFileFromContainer, of h ev cid cf ct st]
    obtain xs where xs: "trace (state_of (CopyFileFromContainer h ev cid cf ct st)) = trace st @ xs"
        "list_all (\<lambda>e. \<not> teardown_call e) xs"
      by (elim exE conjE)
    show ?case
    proof (cases "CopyFileFromContainer h ev cid cf ct st")
      case (Inl fin)
      with xs a have "trace (state_of (collect_outputs h ev taskName cid (a # outs) st))
          = trace st @ xs \<and> list_all (\<lambda>e. \<not> teardown_call e) xs"
        by simp
      then show ?thesis ..
    next
      case (Inr r)
      obtain e s1 where r: "r = (e, s1)" by (cases r)
      from xs Inr r have t1: "trace s1 = trace st @ xs" by simp
      show ?thesis
      proof (cases e)
        case None
        from emits_chain [OF t1 xs(2) Cons.IH [of s1]] None Inr r a show ?thesis
          by simp
      next
        case (Some x)
        have "trace (state_of (collect_outputs h ev taskName cid (a # outs) st))
            = trace st @ (xs @ (if taskName = ''Compile''
                                then [Log ErrorLevel x, Log ErrorLevel ''Try compile with flag --native'']
                                else [Log ErrorLevel x]))
          \<and> list_all (\<lambda>e. \<not> teardown_call e)
               (xs @ (if taskName = ''Compile''
                                then [Log ErrorLevel x, Log ErrorLevel ''Try compile with flag --native'']
                                else [Log ErrorLevel x]))"
          using Some Inr r a t1 xs(2) by (simp add: Let_def)
        then show ?thesis ..
      qed
    qed
  qed
qed

lemma run_ends_in_wait:
  assumes "upto_start h ev imageLink flags envCont ins outs st = Inr (cid, st1)"
    and "wait_container ev cid st1 = Inl fin"
  shows "RunGhcrContainer h ev taskName imageLink flags envCont ins outs st = fin"
  unfolding run_after_start [OF assms(1)] using assms(2) by (simp add: andThen_def finish_def)

lemma run_after_wait:
  assumes "upto_start h ev imageLink flags envCont ins outs st = Inr (cid, st1)"
    and "wait_container ev cid st1 = Inr ((), st2)"
  shows "RunGhcrContainer h ev taskName imageLink flags envCont ins outs st
           = finish (after_wait h ev taskName cid outs st2)"
  unfolding run_after_start [OF assms(1)] using assms(2) by (simp add: andThen_def)

lemma after_wait_collected:
  assumes "collect_outputs h ev taskName cid outs st2 = Inr ((), st3)"
  shows "finish (after_wait h ev taskName cid outs st2)
           = (case container_stop ev of
                Some e \<Rightarrow> (Exited (ContainerStopFailed e), emit (Docker (ContainerStop cid)) st3)
              | None \<Rightarrow>
                  (case container_remove ev of
                     Some e \<Rightarrow>
                       (Exited (ContainerRemoveFailed e),
                        emit (Docker (ContainerRemove cid)) (emit (Docker (ContainerStop cid)) st3))
                   | None \<Rightarrow>
                       return_now
                         (emit (Docker (ContainerRemove cid))
                            (emit (Docker (ContainerStop cid)) st3))))"
  using assms
  by (simp add: after_wait_def andThen_def finish_def stop_container_def remove_container_def
        Fatalf_def split: option.splits)

text \<open>
  Claim C1, as amended: once the container is started, (1) when the wait step ends in
  a fatal error, the run ends with that error, in the state of the error, and no
  teardown call was made; (2) when the collection of the outputs ends in a fatal error,
  the run ends with that error, in the state of the error, and no teardown call was
  made; (3) when the wait step and the collection of every output mapping go through,
  the run calls \<^verbatim>\<open>ContainerStop\<close>, then, if that succeeded, \<^verbatim>\<open>ContainerRemove\<close>,
  and returns if that succeeded too; a failure of either is the fatal error the run
  ends with.
\<close>

theorem teardown_after_clean_run:
  assumes "upto_start h ev imageLink flags envCont copyToContainer copyFromContainer st
             = Inr (containerID, st1)"
  shows
    "(let run = RunGhcrContainer h ev taskName imageLink flags envCont copyToContainer
                  copyFromContainer st;
          no_teardown_since = (\<lambda>s0 s. \<exists>evs. trace s = trace s0 @ evs
                                         \<and> list_all (\<lambda>e. \<not> teardown_call e) evs)
      in (wait_container ev containerID st1 = Inl (Exited f, s) \<longrightarrow>
            run = (Exited f, s) \<and> no_teardown_since st1 s)
       \<and> (wait_container ev containerID st1 = Inr ((), st2)
            \<and> collect_outputs h ev taskName containerID copyFromContainer st2 = Inl (Exited f, s)
            \<longrightarrow> run = (Exited f, s) \<and> no_teardown_since st2 s \<and> no_teardown_since st1 st2)
       \<and> (wait_container ev containerID st1 = Inr ((), st2)
            \<and> collect_outputs h ev taskName containerID copyFromContainer st2 = Inr ((), st3) \<longrightarrow>
            run = (case container_stop ev of
                     Some e \<Rightarrow>
                       (Exited (ContainerStopFailed e), emit (Docker (ContainerStop containerID)) st3)
                   | None \<Rightarrow>
                       (case container_remove ev of
                          Some e \<Rightarrow>
                            (Exited (ContainerRemoveFailed e),
                             emit (Docker (ContainerRemove containerID))
                               (emit (Docker (ContainerStop containerID)) st3))
                        | None \<Rightarrow>
                            return_now
                              (emit (Docker (ContainerRemove containerID))
                                 (emit (Docker (ContainerStop containerID)) st3))))))"
proof -
  have w: "\<exists>evs. trace s = trace st1 @ evs \<and> list_all (\<lambda>e. \<not> teardown_call e) evs"
    if "wait_container ev containerID st1 = Inl (Exited f, s)"
    using emits_onlyD [OF no_teardown_wait_container, of ev containerID st1] that by simp
  have w2: "\<exists>evs. trace st2 = trace st1 @ evs \<and> list_all (\<lambda>e. \<not> teardown_call e) evs"
    if "wait_container ev containerID st1 = Inr ((), st2)"
    using emits_onlyD [OF no_teardown_wait_container, of ev containerID st1] that by simp
  have c: "\<exists>evs. trace s = trace st2 @ evs \<and> list_all (\<lambda>e. \<not> teardown_call e) evs"
    if "collect_outputs h ev taskName containerID copyFromContainer st2 = Inl (Exited f, s)"
    using emits_onlyD [OF no_teardown_collect_outputs, of h ev taskName containerID
        copyFromContainer st2] that by simp
  have r2: "RunGhcrContainer h ev taskName imageLink flags envCont copyToContainer
                  copyFromContainer st = (Exited f, s)"
    if "wait_container ev containerID st1 = Inr ((), st2)"
      "collect_outputs h ev taskName containerID copyFromContainer st2 = Inl (Exited f, s)"
    unfolding run_after_wait [OF assms that(1)] using that(2)
    by (simp add: after_wait_def andThen_def finish_def)
  show ?thesis
    unfolding Let_def
    using run_ends_in_wait [OF assms, of "(Exited f, s)" taskName] w w2 c r2
      run_after_wait [OF assms, of st2 taskName]
      after_wait_collected [of h ev taskName containerID copyFromContainer st2 st3]
    by (intro conjI impI) (simp_all only: simp_thms)
qed

lemma upto_start_defers_kill:
  assumes "upto_start h ev imageLink flags envCont ins outs st = Inr (cid, st1)"
  shows "\<exists>ds. deferred st1 = KillContainer cid # ds"
proof -
  from assms obtain c s0 where
    "start_container ev c s0 = Inr ((), st1)" "c = cid"
    by (auto simp: upto_start_def andThen_def split: sum.splits prod.splits)
  then show ?thesis
    by (auto simp: start_container_def Let_def Fatalf_def split: option.splits)
qed

text \<open>
  Claim C2 says that an error of the container's wait triggers the deferred SIGKILL,
  which shuts the container down, and that, as \<^verbatim>\<open>ContainerStop\<close> and
  \<^verbatim>\<open>ContainerRemove\<close> are attempted as well, the container is never left behind. The
  code installs the kill with \<^verbatim>\<open>defer\<close> right after the start (line 370) and reports
  the error of the wait with \<^verbatim>\<open>logrus.Fatalf\<close> (line 378), which leaves the process
  without running what was deferred. So, whenever the container was started and the
  error channel of the wait delivers an error, the run ends with that error as a fatal
  error right after the wait, the kill of the container is still the first of the
  calls left pending, and after the start the trace holds the wait and nothing else:
  no kill, no \<^verbatim>\<open>ContainerStop\<close>, no \<^verbatim>\<open>ContainerRemove\<close>.
\<close>

theorem wait_error_skips_deferred_kill:
  assumes "upto_start h ev imageLink flags envCont copyToContainer copyFromContainer st
             = Inr (containerID, st1)"
    and "container_wait ev = ErrSignal (Some e)"
  shows "RunGhcrContainer h ev taskName imageLink flags envCont copyToContainer
           copyFromContainer st
         = (Exited (ContainerRunFailed e), emit (Docker (ContainerWait containerID)) st1)
       \<and> (\<exists>ds. deferred (snd (RunGhcrContainer h ev taskName imageLink flags envCont
                                 copyToContainer copyFromContainer st))
                 = KillContainer containerID # ds)
       \<and> trace (snd (RunGhcrContainer h ev taskName imageLink flags envCont
                        copyToContainer copyFromContainer st))
         = trace st1 @ [Docker (ContainerWait containerID)]"
proof -
  from assms(2) have "wait_container ev containerID st1
      = Inl (Exited (ContainerRunFailed e), emit (Docker (ContainerWait containerID)) st1)"
    by (simp add: wait_container_def Fatalf_def)
  from run_ends_in_wait [OF assms(1) this, of taskName]
  have run: "RunGhcrContainer h ev taskName imageLink flags envCont copyToContainer
           copyFromContainer st
         = (Exited (ContainerRunFailed e), emit (Docker (ContainerWait containerID)) st1)" .
  from upto_start_defers_kill [OF assms(1)] obtain ds where
    "deferred st1 = KillContainer containerID # ds" ..
  with run show ?thesis
    by (simp add: emit_def)
qed

text \<open>
  Claim C5, as amended: when the container was started and exits with a status code
  other than zero, and the inspect of the container, the parsing of its two time
  stamps, the fetch of the logs and their demultiplexing succeed, the run ends with the
  fatal error that carries the status code, whether or not splitting the logs into
  lines reported an error. After the start the trace holds the wait, the inspect, the
  fetch of the logs and the debug lines, and nothing else: the collection of the
  outputs is not attempted.
\<close>

theorem nonzero_exit_is_fatal:
  assumes "upto_start h ev imageLink flags envCont copyToContainer copyFromContainer st
             = Inr (containerID, st1)"
    and "container_wait ev = StatusSignal statusCode" and "statusCode \<noteq> 0"
    and "container_inspect ev = Inr (startedAt, finishedAt)"
    and "time_parse ev startedAt = None" and "time_parse ev finishedAt = None"
    and "container_logs ev = Inr (Inr sourceBuffer)"
  shows "fst (RunGhcrContainer h ev taskName imageLink flags envCont copyToContainer
                copyFromContainer st) = Exited (NonZeroExitCode statusCode)
       \<and> trace (snd (RunGhcrContainer h ev taskName imageLink flags envCont copyToContainer
                copyFromContainer st))
          = trace st1 @ [Docker (ContainerWait containerID), Docker (ContainerInspect containerID),
                         Docker (ContainerLogs containerID)]
              @ (case snd (scan ev sourceBuffer) of
                   Some e \<Rightarrow> [Log DebugLevel (''Error reading container logs: '' @ e)]
                 | None \<Rightarrow> [])
              @ [Log DebugLevel (''Container log:'' @ [CHR 0x0A]
                   @ concat (map (\<lambda>line. line @ [CHR 0x0A]) (fst (scan ev sourceBuffer))))]"
proof -
  let ?st4 = "emit (Log DebugLevel (''Container log:'' @ [CHR 0x0A]
                   @ concat (map (\<lambda>line. line @ [CHR 0x0A]) (fst (scan ev sourceBuffer)))))
               (case snd (scan ev sourceBuffer) of
                  Some e \<Rightarrow> emit (Log DebugLevel (''Error reading container logs: '' @ e))
                              (defer_call (CloseLogs True)
                                 (emit (Docker (ContainerLogs containerID))
                                    (emit (Docker (ContainerInspect containerID))
                                       (emit (Docker (ContainerWait containerID)) st1))))
                | None \<Rightarrow> defer_call (CloseLogs True)
                                 (emit (Docker (ContainerLogs containerID))
                                    (emit (Docker (ContainerInspect containerID))
                                       (emit (Docker (ContainerWait containerID)) st1))))"
  from assms(2-7) have "wait_container ev containerID st1
      = Inl (Exited (NonZeroExitCode statusCode), ?st4)"
    by (simp add: wait_container_def collect_logs_def Fatalf_def Let_def)
  from run_ends_in_wait [OF assms(1) this, of taskName] show ?thesis
    by (simp split: option.splits)
qed

theorem teardown_after_clean_run_witness:
  "upto_start plain_host scenario_env ''registry/builder:v1'' [] []
       [(''/host/proj'', ''/data/project'')] [(''/data/build'', ''/host/out'')] scenario_start
     = Inr (''c0ffee'', started_with scenario_env)
   \<and> wait_container scenario_env ''c0ffee'' (started_with scenario_env)
     = Inr ((), waited_with scenario_env)
   \<and> collect_outputs plain_host scenario_env ''Compile'' ''c0ffee''
       [(''/data/build'', ''/host/out'')] (waited_with scenario_env)
     = Inr ((), collected_with scenario_env)
   \<and> scenario_run scenario_env
     = return_now (emit (Docker (ContainerRemove ''c0ffee''))
                     (emit (Docker (ContainerStop ''c0ffee'')) (collected_with scenario_env)))
   \<and> fst (scenario_run scenario_env) = Returned
   \<and> trace (snd (scenario_run scenario_env))
     = trace (collected_with scenario_env)
         @ [Docker (ContainerStop ''c0ffee''), Docker (ContainerRemove ''c0ffee''),
            Docker LogsReaderClose, Docker (ContainerKill ''c0ffee'' ''SIGKILL''),
            Docker PullReaderClose, Docker ClientClose]"
proof -
  have h1: "upto_start plain_host scenario_env ''registry/builder:v1'' [] []
       [(''/host/proj'', ''/data/project'')] [(''/data/build'', ''/host/out'')] scenario_start
     = Inr (''c0ffee'', started_with scenario_env)"
    by code_simp
  have h2: "wait_container scenario_env ''c0ffee'' (started_with scenario_env)
     = Inr ((), waited_with scenario_env)"
    by code_simp
  have h3: "collect_outputs plain_host scenario_env ''Compile'' ''c0ffee''
       [(''/data/build'', ''/host/out'')] (waited_with scenario_env)
     = Inr ((), collected_with scenario_env)"
    by code_simp
  have h4: "container_stop scenario_env = None" "container_remove scenario_env = None"
    by (simp_all add: scenario_env_def)
  from teardown_after_clean_run [OF h1, where ?st2.0 = "waited_with scenario_env"
      and ?st3.0 = "collected_with scenario_env" and taskName = "''Compile''"] h2 h3 h4
  have run: "scenario_run scenario_env
     = return_now (emit (Docker (ContainerRemove ''c0ffee''))
                     (emit (Docker (ContainerStop ''c0ffee'')) (collected_with scenario_env)))"
    unfolding Let_def scenario_run_def by simp
  have r1: "fst (scenario_run scenario_env) = Returned"
    by code_simp
  have r2: "trace (snd (scenario_run scenario_env))
     = trace (collected_with scenario_env)
         @ [Docker (ContainerStop ''c0ffee''), Docker (ContainerRemove ''c0ffee''),
            Docker LogsReaderClose, Docker (ContainerKill ''c0ffee'' ''SIGKILL''),
            Docker PullReaderClose, Docker ClientClose]"
    by code_simp
  from h1 h2 h3 run r1 r2 show ?thesis
    by (simp only: simp_thms)
qed

text \<open>
  The claim as stated fails when the container exits with status 3: the container was
  created and the wait resolved, the run ends with the fatal error of the exit code,
  and the trace holds no teardown call.
\<close>

theorem teardown_after_clean_run_counterexample:
  "container_wait (scenario_env\<lparr>container_wait := StatusSignal 3\<rparr>) = StatusSignal 3
   \<and> fst (scenario_run (scenario_env\<lparr>container_wait := StatusSignal 3\<rparr>))
       = Exited (NonZeroExitCode 3)
   \<and> Docker (ContainerCreate ''registry/builder:v1'' [] [])
       \<in> set (trace (snd (scenario_run (scenario_env\<lparr>container_wait := StatusSignal 3\<rparr>))))
   \<and> Docker (ContainerWait ''c0ffee'')
       \<in> set (trace (snd (scenario_run (scenario_env\<lparr>container_wait := StatusSignal 3\<rparr>))))
   \<and> list_all (\<lambda>e. \<not> teardown_call e)
        (trace (snd (scenario_run (scenario_env\<lparr>container_wait := StatusSignal 3\<rparr>))))"
  by code_simp

theorem wait_error_skips_deferred_kill_witness:
  "upto_start plain_host (scenario_env\<lparr>container_wait := ErrSignal (Some ''connection reset'')\<rparr>)
       ''registry/builder:v1'' [] []
       [(''/host/proj'', ''/data/project'')] [(''/data/build'', ''/host/out'')] scenario_start
     = Inr (''c0ffee'', started_with (scenario_env\<lparr>container_wait := ErrSignal (Some ''connection reset'')\<rparr>))
   \<and> container_wait (scenario_env\<lparr>container_wait := ErrSignal (Some ''connection reset'')\<rparr>) = ErrSignal (Some ''connection reset'')
   \<and> scenario_run (scenario_env\<lparr>container_wait := ErrSignal (Some ''connection reset'')\<rparr>)
     = (Exited (ContainerRunFailed ''connection reset''),
        emit (Docker (ContainerWait ''c0ffee'')) (started_with (scenario_env\<lparr>container_wait := ErrSignal (Some ''connection reset'')\<rparr>)))
   \<and> (\<exists>ds. deferred (snd (scenario_run (scenario_env\<lparr>container_wait := ErrSignal (Some ''connection reset'')\<rparr>))) = KillContainer ''c0ffee'' # ds)
   \<and> trace (snd (scenario_run (scenario_env\<lparr>container_wait := ErrSignal (Some ''connection reset'')\<rparr>)))
     = trace (started_with (scenario_env\<lparr>container_wait := ErrSignal (Some ''connection reset'')\<rparr>)) @ [Docker (ContainerWait ''c0ffee'')]
   \<and> Docker (ContainerStart ''c0ffee'') \<in> set (trace (started_with (scenario_env\<lparr>container_wait := ErrSignal (Some ''connection reset'')\<rparr>)))
   \<and> deferred (snd (scenario_run (scenario_env\<lparr>container_wait := ErrSignal (Some ''connection reset'')\<rparr>)))
     = [KillContainer ''c0ffee'', ClosePullReader, CloseClient]
   \<and> Docker (ContainerKill ''c0ffee'' ''SIGKILL'') \<notin> set (trace (snd (scenario_run (scenario_env\<lparr>container_wait := ErrSignal (Some ''connection reset'')\<rparr>))))
   \<and> list_all (\<lambda>e. \<not> teardown_call e) (trace (snd (scenario_run (scenario_env\<lparr>container_wait := ErrSignal (Some ''connection reset'')\<rparr>))))"
proof -
  let ?E = "(scenario_env\<lparr>container_wait := ErrSignal (Some ''connection reset'')\<rparr>)"
  have h1: "upto_start plain_host ?E ''registry/builder:v1'' [] []
       [(''/host/proj'', ''/data/project'')] [(''/data/build'', ''/host/out'')] scenario_start
     = Inr (''c0ffee'', started_with ?E)"
    by code_simp
  have h2: "container_wait ?E = ErrSignal (Some ''connection reset'')"
    by simp
  have c1: "Docker (ContainerStart ''c0ffee'') \<in> set (trace (started_with ?E))"
    by code_simp
  have c2: "deferred (snd (scenario_run ?E))
     = [KillContainer ''c0ffee'', ClosePullReader, CloseClient]"
    by code_simp
  have c3: "Docker (ContainerKill ''c0ffee'' ''SIGKILL'') \<notin> set (trace (snd (scenario_run ?E)))"
    by code_simp
  have c4: "list_all (\<lambda>e. \<not> teardown_call e) (trace (snd (scenario_run ?E)))"
    by code_simp
  have t: "scenario_run ?E
     = (Exited (ContainerRunFailed ''connection reset''),
        emit (Docker (ContainerWait ''c0ffee'')) (started_with ?E))
   \<and> (\<exists>ds. deferred (snd (scenario_run ?E)) = KillContainer ''c0ffee'' # ds)
   \<and> trace (snd (scenario_run ?E))
     = trace (started_with ?E) @ [Docker (ContainerWait ''c0ffee'')]"
    unfolding scenario_run_def by (rule wait_error_skips_deferred_kill [OF h1 h2])
  note t1 = t [THEN conjunct1]
    and t2 = t [THEN conjunct2, THEN conjunct1]
    and t3 = t [THEN conjunct2, THEN conjunct2]
  show ?thesis
    by (intro conjI h1 h2 t1 t2 t3 c1 c2 c3 c4)
qed

theorem nonzero_exit_is_fatal_witness:
  "upto_start plain_host
       (scenario_env\<lparr>container_wait := StatusSignal 3,
                      scan := (\<lambda>buf. ([], Some ''token too long''))\<rparr>)
       ''registry/builder:v1'' [] []
       [(''/host/proj'', ''/data/project'')] [(''/data/build'', ''/host/out'')] scenario_start
     = Inr (''c0ffee'',
            started_with (scenario_env\<lparr>container_wait := StatusSignal 3,
                                         scan := (\<lambda>buf. ([], Some ''token too long''))\<rparr>))
   \<and> (3 :: 64 word) \<noteq> 0
   \<and> fst (scenario_run (scenario_env\<lparr>container_wait := StatusSignal 3,
                                       scan := (\<lambda>buf. ([], Some ''token too long''))\<rparr>))
     = Exited (NonZeroExitCode 3)
   \<and> trace (snd (scenario_run (scenario_env\<lparr>container_wait := StatusSignal 3,
                                       scan := (\<lambda>buf. ([], Some ''token too long''))\<rparr>)))
     = trace (started_with (scenario_env\<lparr>container_wait := StatusSignal 3,
                                         scan := (\<lambda>buf. ([], Some ''token too long''))\<rparr>))
         @ [Docker (ContainerWait ''c0ffee''), Docker (ContainerInspect ''c0ffee''),
            Docker (ContainerLogs ''c0ffee''),
            Log DebugLevel ''Error reading container logs: token too long'',
            Log DebugLevel (''Container log:'' @ [CHR 0x0A])]"
proof -
  let ?E = "scenario_env\<lparr>container_wait := StatusSignal 3,
                      scan := (\<lambda>buf. ([], Some ''token too long''))\<rparr>"
  have h1: "upto_start plain_host ?E ''registry/builder:v1'' [] []
       [(''/host/proj'', ''/data/project'')] [(''/data/build'', ''/host/out'')] scenario_start
     = Inr (''c0ffee'', started_with ?E)"
    by code_simp
  have h2: "container_wait ?E = StatusSignal 3" by simp
  have h3: "(3 :: 64 word) \<noteq> 0" by simp
  have h4: "container_inspect ?E = Inr (''2025-09-01T10:00:00Z'', ''2025-09-01T10:00:05Z'')"
    by (simp add: scenario_env_def)
  have h5: "time_parse ?E ''2025-09-01T10:00:00Z'' = None"
    "time_parse ?E ''2025-09-01T10:00:05Z'' = None"
    by (simp_all add: scenario_env_def)
  have h6: "container_logs ?E = Inr (Inr ''BUILD OK'')"
    by (simp add: scenario_env_def)
  from nonzero_exit_is_fatal [OF h1 h2 h3 h4 h5 h6, of "''Compile''"] h1 h3 show ?thesis
    unfolding scenario_run_def by simp
qed

text \<open>
  The claim as stated fails when the container exits with status 3 and the log stream
  cannot be demultiplexed: the fatal error is that of the logs, not that of the exit
  code.
\<close>

theorem nonzero_exit_is_fatal_counterexample:
  "container_wait (scenario_env\<lparr>container_wait := StatusSignal 3,
                                 container_logs := Inr (Inl ''broken frame'')\<rparr>) = StatusSignal 3
   \<and> fst (scenario_run (scenario_env\<lparr>container_wait := StatusSignal 3,
                                        container_logs := Inr (Inl ''broken frame'')\<rparr>))
       = Exited (LogsReadFailed ''broken frame'')"
  by code_simp

section \<open>Runs that differ only in what they log\<close>

lemma same_result_refl [simp]: "same_result r r"
  by (cases r) (auto simp: same_result_def)

lemma same_result_Inl [simp]:
  "same_result (Inl (o1, s1)) (Inl (o2, s2)) \<longleftrightarrow> o1 = o2 \<and> same_effects s1 s2"
  by (simp add: same_result_def)

lemma same_result_Inr [simp]:
  "same_result (Inr (a1, s1)) (Inr (a2, s2)) \<longleftrightarrow> a1 = a2 \<and> same_effects s1 s2"
  by (simp add: same_result_def)

lemma same_result_Fatalf [simp]:
  "same_result (Fatalf f1 s1) (Fatalf f2 s2) \<longleftrightarrow> f1 = f2 \<and> same_effects s1 s2"
  by (simp add: Fatalf_def)

lemma same_effects_emit [simp]:
  "same_effects s t \<Longrightarrow> same_effects (emit e s) (emit e t)"
  by (simp add: same_effects_def)

lemma same_effects_emit_Log_left [simp]:
  "same_effects s t \<Longrightarrow> same_effects (emit (Log l m) s) t"
  by (simp add: same_effects_def)

lemma same_effects_defer_call [simp]:
  "same_effects s t \<Longrightarrow> same_effects (defer_call d s) (defer_call d t)"
  by (simp add: same_effects_def)

lemma same_result_andThen:
  assumes "same_result (m1 s) (m2 t)"
    and "\<And>a s' t'. same_effects s' t' \<Longrightarrow> same_result (k1 a s') (k2 a t')"
  shows "same_result (andThen m1 k1 s) (andThen m2 k2 t)"
proof (cases "m1 s")
  case (Inl fin1)
  obtain o1 s1 where f1: "fin1 = (o1, s1)" by (cases fin1)
  from assms(1) Inl f1 obtain s2 where "m2 t = Inl (o1, s2)" "same_effects s1 s2"
    by (cases "m2 t") (auto simp: same_result_def)
  with Inl f1 show ?thesis by (simp add: andThen_def)
next
  case (Inr r1)
  obtain a s1 where r1: "r1 = (a, s1)" by (cases r1)
  from assms(1) Inr r1 obtain s2 where m2: "m2 t = Inr (a, s2)" "same_effects s1 s2"
    by (cases "m2 t") (auto simp: same_result_def)
  from assms(2) [OF m2(2), of a] Inr r1 m2(1) show ?thesis by (simp add: andThen_def)
qed

lemma run_deferred_sim:
  "same_effects s t \<Longrightarrow>
     fst (run_deferred ds p s) = fst (run_deferred ds p t) \<and>
     same_effects (snd (run_deferred ds p s)) (snd (run_deferred ds p t))"
proof (induction ds p s arbitrary: t rule: run_deferred.induct)
  case (1 panicking st)
  then show ?case by simp
next
  case (2 ds panicking st)
  from 2(1) [of "emit (Docker ClientClose) t"] 2(2) show ?case by simp
next
  case (3 ds panicking st)
  from 3(1) [of "emit (Docker PullReaderClose) t"] 3(2) show ?case by simp
next
  case (4 containerID ds panicking st)
  from 4(1) [of "emit (Docker (ContainerKill containerID ''SIGKILL'')) t"] 4(2) show ?case by simp
next
  case (5 has_reader ds panicking st)
  show ?case
  proof (cases has_reader)
    case True
    from 5(1) [OF True, of "emit (Docker LogsReaderClose) t"] 5(3) True show ?thesis by simp
  next
    case False
    from 5(2) [OF False, of t] 5(3) False show ?thesis by simp
  qed
qed

lemma return_now_sim:
  assumes "same_effects s t"
  shows "fst (return_now s) = fst (return_now t) \<and>
         same_effects (snd (return_now s)) (snd (return_now t))"
proof -
  from assms have d: "deferred s = deferred t"
    and e: "same_effects (s\<lparr>deferred := []\<rparr>) (t\<lparr>deferred := []\<rparr>)"
    by (simp_all add: same_effects_def)
  from run_deferred_sim [OF e, of "deferred t" False] d show ?thesis
    by (simp add: return_now_def)
qed

lemma finish_sim:
  assumes "same_result r1 r2"
  shows "fst (finish r1) = fst (finish r2) \<and> same_effects (snd (finish r1)) (snd (finish r2))"
proof (cases r1)
  case (Inl fin1)
  obtain o1 s1 where f1: "fin1 = (o1, s1)" by (cases fin1)
  from assms Inl f1 obtain s2 where "r2 = Inl (o1, s2)" "same_effects s1 s2"
    by (cases r2) (auto simp: same_result_def)
  with Inl f1 show ?thesis by (simp add: finish_def)
next
  case (Inr x1)
  obtain a s1 where x1: "x1 = (a, s1)" by (cases x1)
  from assms Inr x1 obtain s2 where r2: "r2 = Inr (a, s2)" "same_effects s1 s2"
    by (cases r2) (auto simp: same_result_def)
  from return_now_sim [OF r2(2)] Inr x1 r2(1) show ?thesis by (simp add: finish_def)
qed

lemma CopyFileFromContainer_sim:
  assumes "same_effects s t"
  shows "same_result (CopyFileFromContainer h ev cid containerPath hostPath s)
           (CopyFileFromContainer h ev cid containerPath hostPath t)"
proof -
  from assms have fs: "fs s = fs t" by (simp add: same_effects_def)
  let ?s1 = "emit (Docker (CliCopyFromContainer cid containerPath)) s"
  let ?t1 = "emit (Docker (CliCopyFromContainer cid containerPath)) t"
  have e1: "same_effects ?s1 ?t1" using assms by simp
  show ?thesis
  proof (cases "stat h (fs t) hostPath = None")
    case True
    with fs assms show ?thesis by (simp add: CopyFileFromContainer_def)
  next
    case False
    show ?thesis
    proof (cases "copy_from_container ev containerPath")
      case (Inl e)
      with False fs e1 show ?thesis by (auto simp: CopyFileFromContainer_def Let_def)
    next
      case (Inr x)
      obtain items n isd where x: "x = (items, n, isd)" by (cases x)
      obtain r s2 where exs: "ExtractTar h items n hostPath isd ?s1 = (r, s2)"
        by (cases "ExtractTar h items n hostPath isd ?s1")
      obtain r' t2 where ext: "ExtractTar h items n hostPath isd ?t1 = (r', t2)"
        by (cases "ExtractTar h items n hostPath isd ?t1")
      from ExtractTar_sim [OF e1, of h items n hostPath isd] exs ext
      have "r = r'" "same_effects s2 t2" by simp_all
      with False fs Inr x exs ext show ?thesis
        by (auto simp: CopyFileFromContainer_def Let_def split: option.splits)
    qed
  qed
qed

lemma collect_outputs_sim:
  "same_effects s t \<Longrightarrow>
     same_result (collect_outputs h ev taskName cid outs s) (collect_outputs h ev taskName cid outs t)"
proof (induction outs arbitrary: s t)
  case Nil
  then show ?case by simp
next
  case (Cons a outs)
  obtain cf ct where a: "a = (cf, ct)" by (cases a)
  note c = CopyFileFromContainer_sim [OF Cons.prems, of h ev cid cf ct]
  show ?case
  proof (cases "CopyFileFromContainer h ev cid cf ct s")
    case (Inl fin1)
    obtain o1 s1 where f1: "fin1 = (o1, s1)" by (cases fin1)
    from c Inl f1 obtain t1 where "CopyFileFromContainer h ev cid cf ct t = Inl (o1, t1)"
        "same_effects s1 t1"
      by (cases "CopyFileFromContainer h ev cid cf ct t") (auto simp: same_result_def)
    with Inl f1 a show ?thesis by simp
  next
    case (Inr x1)
    obtain e s1 where x1: "x1 = (e, s1)" by (cases x1)
    from c Inr x1 obtain t1 where t1: "CopyFileFromContainer h ev cid cf ct t = Inr (e, t1)"
        "same_effects s1 t1"
      by (cases "CopyFileFromContainer h ev cid cf ct t") (auto simp: same_result_def)
    show ?thesis
    proof (cases e)
      case None
      with Inr x1 t1 a Cons.IH [OF t1(2)] show ?thesis by simp
    next
      case (Some x)
      with Inr x1 t1 a show ?thesis by (simp add: Let_def)
    qed
  qed
qed

lemma stop_container_sim:
  "same_effects s t \<Longrightarrow> same_result (stop_container ev cid s) (stop_container ev cid t)"
  by (simp add: stop_container_def Let_def split: option.splits)

lemma remove_container_sim:
  "same_effects s t \<Longrightarrow> same_result (remove_container ev cid s) (remove_container ev cid t)"
  by (simp add: remove_container_def Let_def split: option.splits)

lemma after_wait_sim:
  "same_effects s t \<Longrightarrow>
     same_result (after_wait h ev taskName cid outs s) (after_wait h ev taskName cid outs t)"
  unfolding after_wait_def
  by (intro same_result_andThen collect_outputs_sim stop_container_sim remove_container_sim)

lemma stage_inputs_scan:
  "stage_inputs h (ev\<lparr>scan := f\<rparr>) cid ins st = stage_inputs h ev cid ins st"
  by (induction ins arbitrary: st) (auto simp: CopyToContainer_def Let_def split: sum.splits prod.splits option.splits)

lemma collect_outputs_scan:
  "collect_outputs h (ev\<lparr>scan := f\<rparr>) taskName cid outs st = collect_outputs h ev taskName cid outs st"
  by (induction outs arbitrary: st)
     (auto simp: CopyFileFromContainer_def Let_def split: sum.splits prod.splits option.splits)

lemma steps_scan:
  "new_client (ev\<lparr>scan := f\<rparr>) = new_client ev"
  "pull_options (ev\<lparr>scan := f\<rparr>) imageLink = pull_options ev imageLink"
  "pull_image (ev\<lparr>scan := f\<rparr>) imageLink auth = pull_image ev imageLink auth"
  "inspect_image (ev\<lparr>scan := f\<rparr>) imageLink pe = inspect_image ev imageLink pe"
  "create_container (ev\<lparr>scan := f\<rparr>) imageLink flags envCont
     = create_container ev imageLink flags envCont"
  "start_container (ev\<lparr>scan := f\<rparr>) cid = start_container ev cid"
  "stop_container (ev\<lparr>scan := f\<rparr>) cid = stop_container ev cid"
  "remove_container (ev\<lparr>scan := f\<rparr>) cid = remove_container ev cid"
  "stage_inputs h (ev\<lparr>scan := f\<rparr>) cid ins = stage_inputs h ev cid ins"
  "collect_outputs h (ev\<lparr>scan := f\<rparr>) taskName cid outs = collect_outputs h ev taskName cid outs"
  by (rule ext, simp add: new_client_def pull_options_def pull_image_def inspect_image_def
        create_container_def start_container_def stop_container_def remove_container_def
        stage_inputs_scan collect_outputs_scan
        cong: sum.case_cong option.case_cong prod.case_cong if_cong)+

lemma upto_start_scan:
  "upto_start h (ev\<lparr>scan := f\<rparr>) imageLink flags envCont ins outs
     = upto_start h ev imageLink flags envCont ins outs"
  by (simp add: upto_start_def upto_create_def upto_options_def acquire_image_def steps_scan)

lemma after_wait_scan:
  "after_wait h (ev\<lparr>scan := f\<rparr>) taskName cid outs = after_wait h ev taskName cid outs"
  by (simp add: after_wait_def steps_scan)

lemma same_result_return_now:
  assumes "same_effects s t"
  shows "same_result (Inl (return_now s)) (Inl (return_now t))"
proof -
  obtain o1 s1 where r1: "return_now s = (o1, s1)" by (cases "return_now s")
  obtain o2 t1 where r2: "return_now t = (o2, t1)" by (cases "return_now t")
  from return_now_sim [OF assms] r1 r2 show ?thesis by simp
qed

lemma collect_logs_sim:
  assumes "same_effects s t"
  shows "same_result (collect_logs ev cid code s)
           (collect_logs (ev\<lparr>scan := (\<lambda>buf. (fst (scan ev buf), None))\<rparr>) cid code t)"
proof (cases "container_logs ev")
  case (Inl e)
  have "same_effects
          (emit (Log DebugLevel (''Failed to get container logs: '' @ e))
             (defer_call (CloseLogs False) (emit (Docker (ContainerLogs cid)) s)))
          (emit (Log DebugLevel (''Failed to get container logs: '' @ e))
             (defer_call (CloseLogs False) (emit (Docker (ContainerLogs cid)) t)))"
    using assms by simp
  from same_result_return_now [OF this] Inl show ?thesis
    by (simp add: collect_logs_def)
next
  case (Inr out)
  show ?thesis
  proof (cases out)
    case (Inl e)
    with Inr assms show ?thesis by (simp add: collect_logs_def)
  next
    case (Inr buf)
    with \<open>container_logs ev = Inr out\<close> assms show ?thesis
      by (cases "snd (scan ev buf)") (simp_all add: collect_logs_def Let_def)
  qed
qed

lemma wait_container_sim:
  assumes "same_effects s t"
  shows "same_result (wait_container ev cid s)
           (wait_container (ev\<lparr>scan := (\<lambda>buf. (fst (scan ev buf), None))\<rparr>) cid t)"
proof -
  let ?s2 = "emit (Docker (ContainerInspect cid)) (emit (Docker (ContainerWait cid)) s)"
  let ?t2 = "emit (Docker (ContainerInspect cid)) (emit (Docker (ContainerWait cid)) t)"
  have e2: "same_effects ?s2 ?t2" using assms by simp
  show ?thesis
  proof (cases "container_wait ev")
    case (ErrSignal e)
    with assms show ?thesis by (cases e) (simp_all add: wait_container_def)
  next
    case (StatusSignal code)
    show ?thesis
    proof (cases "container_inspect ev")
      case (Inl e)
      with StatusSignal e2 show ?thesis by (simp add: wait_container_def)
    next
      case (Inr times)
      obtain sa fa where times: "times = (sa, fa)" by (cases times)
      from StatusSignal Inr times e2 collect_logs_sim [OF e2, of ev cid code] show ?thesis
        by (cases "time_parse ev sa"; cases "time_parse ev fa")
           (simp_all add: wait_container_def Let_def)
    qed
  next
    case NoSignal
    with assms show ?thesis by (simp add: wait_container_def)
  qed
qed

lemma run_scan_sim:
  "fst (RunGhcrContainer h ev taskName imageLink flags envCont ins outs st)
     = fst (RunGhcrContainer h (ev\<lparr>scan := (\<lambda>buf. (fst (scan ev buf), None))\<rparr>) taskName imageLink
              flags envCont ins outs st)
   \<and> same_effects (snd (RunGhcrContainer h ev taskName imageLink flags envCont ins outs st))
       (snd (RunGhcrContainer h (ev\<lparr>scan := (\<lambda>buf. (fst (scan ev buf), None))\<rparr>) taskName imageLink
              flags envCont ins outs st))"
  unfolding RunGhcrContainer_def upto_start_scan after_wait_scan
  by (intro finish_sim same_result_andThen same_result_refl wait_container_sim after_wait_sim)

lemma wait_container_scan_error:
  assumes "container_wait ev = StatusSignal 0"
    and "container_inspect ev = Inr (startedAt, finishedAt)"
    and "time_parse ev startedAt = None" and "time_parse ev finishedAt = None"
    and "container_logs ev = Inr (Inr sourceBuffer)"
    and "snd (scan ev sourceBuffer) = Some e"
  shows "wait_container ev cid st
      = Inr ((), emit (Log DebugLevel (''Container log:'' @ [CHR 0x0A]
                         @ concat (map (\<lambda>line. line @ [CHR 0x0A]) (fst (scan ev sourceBuffer)))))
                   (emit (Log DebugLevel (''Error reading container logs: '' @ e))
                      (defer_call (CloseLogs True)
                         (emit (Docker (ContainerLogs cid))
                            (emit (Docker (ContainerInspect cid))
                               (emit (Docker (ContainerWait cid)) st))))))"
  using assms by (simp add: wait_container_def collect_logs_def Let_def)

lemma demux_failure_ends_run:
  assumes "upto_start h ev imageLink flags envCont ins outs st = Inr (cid, st1)"
    and "container_wait ev = StatusSignal statusCode"
    and "container_inspect ev = Inr (startedAt, finishedAt)"
    and "time_parse ev startedAt = None" and "time_parse ev finishedAt = None"
    and "container_logs ev = Inr (Inl e)"
  shows "RunGhcrContainer h ev taskName imageLink flags envCont ins outs st
           = (Exited (LogsReadFailed e),
              defer_call (CloseLogs True)
                (emit (Docker (ContainerLogs cid))
                   (emit (Docker (ContainerInspect cid))
                      (emit (Docker (ContainerWait cid)) st1))))"
proof -
  from assms(2-6) have "wait_container ev cid st1
      = Inl (Exited (LogsReadFailed e),
             defer_call (CloseLogs True)
               (emit (Docker (ContainerLogs cid))
                  (emit (Docker (ContainerInspect cid))
                     (emit (Docker (ContainerWait cid)) st1))))"
    by (simp add: wait_container_def collect_logs_def Fatalf_def Let_def)
  from run_ends_in_wait [OF assms(1) this, of taskName] show ?thesis .
qed

text \<open>
  Claim C6, as amended: an error while the fetched logs are split into lines is not
  fatal, and a failure to demultiplex the fetched logs is. (1) When the container
  exited with status 0 and the logs were fetched and demultiplexed, an error of the
  splitting adds one line at debug level, and the wait step goes on to the collection
  of the outputs. (2) Any run ends with the same outcome, the same file system and the
  same calls, in the same order, as the run in which the splitting reports no error.
  (3) When the container was started and exited, with whatever status code, and the
  logs were fetched but cannot be demultiplexed, the run ends with that failure as a
  fatal error right after the fetch of the logs: nothing is logged, no output is
  collected, and the container is neither stopped nor removed.
\<close>

theorem scanner_error_is_not_fatal:
  "(container_wait ev = StatusSignal 0
      \<and> container_inspect ev = Inr (startedAt, finishedAt)
      \<and> time_parse ev startedAt = None \<and> time_parse ev finishedAt = None
      \<and> container_logs ev = Inr (Inr sourceBuffer)
      \<and> snd (scan ev sourceBuffer) = Some e \<longrightarrow>
    wait_container ev containerID st1
      = Inr ((), emit (Log DebugLevel (''Container log:'' @ [CHR 0x0A]
                         @ concat (map (\<lambda>line. line @ [CHR 0x0A]) (fst (scan ev sourceBuffer)))))
                   (emit (Log DebugLevel (''Error reading container logs: '' @ e))
                      (defer_call (CloseLogs True)
                         (emit (Docker (ContainerLogs containerID))
                            (emit (Docker (ContainerInspect containerID))
                               (emit (Docker (ContainerWait containerID)) st1)))))))
   \<and> (let without = ev\<lparr>scan := (\<lambda>buf. (fst (scan ev buf), None))\<rparr>;
            run = RunGhcrContainer h ev taskName imageLink flags envCont copyToContainer
                    copyFromContainer st;
            run' = RunGhcrContainer h without taskName imageLink flags envCont copyToContainer
                     copyFromContainer st
        in fst run = fst run' \<and> same_effects (snd run) (snd run'))
   \<and> (upto_start h ev imageLink flags envCont copyToContainer copyFromContainer st
         = Inr (containerID, st1)
      \<and> container_wait ev = StatusSignal statusCode
      \<and> container_inspect ev = Inr (startedAt, finishedAt)
      \<and> time_parse ev startedAt = None \<and> time_parse ev finishedAt = None
      \<and> container_logs ev = Inr (Inl demuxError) \<longrightarrow>
    RunGhcrContainer h ev taskName imageLink flags envCont copyToContainer
        copyFromContainer st
      = (Exited (LogsReadFailed demuxError),
         defer_call (CloseLogs True)
           (emit (Docker (ContainerLogs containerID))
              (emit (Docker (ContainerInspect containerID))
                 (emit (Docker (ContainerWait containerID)) st1)))))"
proof (intro conjI impI)
  assume "container_wait ev = StatusSignal 0
      \<and> container_inspect ev = Inr (startedAt, finishedAt)
      \<and> time_parse ev startedAt = None \<and> time_parse ev finishedAt = None
      \<and> container_logs ev = Inr (Inr sourceBuffer)
      \<and> snd (scan ev sourceBuffer) = Some e"
  then have "container_wait ev = StatusSignal 0"
    and "container_inspect ev = Inr (startedAt, finishedAt)"
    and "time_parse ev startedAt = None" and "time_parse ev finishedAt = None"
    and "container_logs ev = Inr (Inr sourceBuffer)"
    and "snd (scan ev sourceBuffer) = Some e"
    by blast+
  then show "wait_container ev containerID st1
      = Inr ((), emit (Log DebugLevel (''Container log:'' @ [CHR 0x0A]
                         @ concat (map (\<lambda>line. line @ [CHR 0x0A]) (fst (scan ev sourceBuffer)))))
                   (emit (Log DebugLevel (''Error reading container logs: '' @ e))
                      (defer_call (CloseLogs True)
                         (emit (Docker (ContainerLogs containerID))
                            (emit (Docker (ContainerInspect containerID))
                               (emit (Docker (ContainerWait containerID)) st1))))))"
    by (rule wait_container_scan_error)
next
  show "let without = ev\<lparr>scan := (\<lambda>buf. (fst (scan ev buf), None))\<rparr>;
            run = RunGhcrContainer h ev taskName imageLink flags envCont copyToContainer
                    copyFromContainer st;
            run' = RunGhcrContainer h without taskName imageLink flags envCont copyToContainer
                     copyFromContainer st
        in fst run = fst run' \<and> same_effects (snd run) (snd run')"
    unfolding Let_def by (rule run_scan_sim)
next
  assume "upto_start h ev imageLink flags envCont copyToContainer copyFromContainer st
         = Inr (containerID, st1)
      \<and> container_wait ev = StatusSignal statusCode
      \<and> container_inspect ev = Inr (startedAt, finishedAt)
      \<and> time_parse ev startedAt = None \<and> time_parse ev finishedAt = None
      \<and> container_logs ev = Inr (Inl demuxError)"
  then have "upto_start h ev imageLink flags envCont copyToContainer copyFromContainer st
         = Inr (containerID, st1)"
    and "container_wait ev = StatusSignal statusCode"
    and "container_inspect ev = Inr (startedAt, finishedAt)"
    and "time_parse ev startedAt = None" and "time_parse ev finishedAt = None"
    and "container_logs ev = Inr (Inl demuxError)"
    by blast+
  then show "RunGhcrContainer h ev taskName imageLink flags envCont copyToContainer
        copyFromContainer st
      = (Exited (LogsReadFailed demuxError),
         defer_call (CloseLogs True)
           (emit (Docker (ContainerLogs containerID))
              (emit (Docker (ContainerInspect containerID))
                 (emit (Docker (ContainerWait containerID)) st1))))"
    by (rule demux_failure_ends_run)
qed

theorem scanner_error_is_not_fatal_witness:
  "container_wait (scenario_env\<lparr>scan := (\<lambda>buf. ([buf], Some ''token too long''))\<rparr>)
     = StatusSignal 0
   \<and> container_logs (scenario_env\<lparr>scan := (\<lambda>buf. ([buf], Some ''token too long''))\<rparr>)
     = Inr (Inr ''BUILD OK'')
   \<and> snd (scan (scenario_env\<lparr>scan := (\<lambda>buf. ([buf], Some ''token too long''))\<rparr>) ''BUILD OK'')
     = Some ''token too long''
   \<and> wait_container (scenario_env\<lparr>scan := (\<lambda>buf. ([buf], Some ''token too long''))\<rparr>) ''c0ffee''
       (started_with scenario_env)
     = Inr ((), emit (Log DebugLevel (''Container log:'' @ [CHR 0x0A] @ ''BUILD OK'' @ [CHR 0x0A]))
                  (emit (Log DebugLevel ''Error reading container logs: token too long'')
                     (defer_call (CloseLogs True)
                        (emit (Docker (ContainerLogs ''c0ffee''))
                           (emit (Docker (ContainerInspect ''c0ffee''))
                              (emit (Docker (ContainerWait ''c0ffee''))
                                 (started_with scenario_env)))))))
   \<and> fst (scenario_run (scenario_env\<lparr>scan := (\<lambda>buf. ([buf], Some ''token too long''))\<rparr>))
     = fst (scenario_run scenario_env)
   \<and> same_effects
       (snd (scenario_run (scenario_env\<lparr>scan := (\<lambda>buf. ([buf], Some ''token too long''))\<rparr>)))
       (snd (scenario_run scenario_env))
   \<and> fst (scenario_run scenario_env) = Returned
   \<and> upto_start plain_host (scenario_env\<lparr>container_logs := Inr (Inl ''broken frame'')\<rparr>)
       ''registry/builder:v1'' [] []
       [(''/host/proj'', ''/data/project'')] [(''/data/build'', ''/host/out'')] scenario_start
     = Inr (''c0ffee'', started_with (scenario_env\<lparr>container_logs := Inr (Inl ''broken frame'')\<rparr>))
   \<and> container_wait (scenario_env\<lparr>container_logs := Inr (Inl ''broken frame'')\<rparr>) = StatusSignal 0
   \<and> container_logs (scenario_env\<lparr>container_logs := Inr (Inl ''broken frame'')\<rparr>) = Inr (Inl ''broken frame'')
   \<and> scenario_run (scenario_env\<lparr>container_logs := Inr (Inl ''broken frame'')\<rparr>)
     = (Exited (LogsReadFailed ''broken frame''),
        defer_call (CloseLogs True)
          (emit (Docker (ContainerLogs ''c0ffee''))
             (emit (Docker (ContainerInspect ''c0ffee''))
                (emit (Docker (ContainerWait ''c0ffee'')) (started_with (scenario_env\<lparr>container_logs := Inr (Inl ''broken frame'')\<rparr>))))))"
proof -
  let ?E = "scenario_env\<lparr>scan := (\<lambda>buf. ([buf], Some ''token too long''))\<rparr>"
  let ?D = "(scenario_env\<lparr>container_logs := Inr (Inl ''broken frame'')\<rparr>)"
  have d0: "upto_start plain_host ?D ''registry/builder:v1'' [] []
       [(''/host/proj'', ''/data/project'')] [(''/data/build'', ''/host/out'')] scenario_start
     = Inr (''c0ffee'', started_with ?D)"
    by code_simp
  have d1: "container_wait ?D = StatusSignal 0"
    and d2: "container_inspect ?D = Inr (''2025-09-01T10:00:00Z'', ''2025-09-01T10:00:05Z'')"
    and d3: "time_parse ?D ''2025-09-01T10:00:00Z'' = None"
      "time_parse ?D ''2025-09-01T10:00:05Z'' = None"
    and d4: "container_logs ?D = Inr (Inl ''broken frame'')"
    by (simp_all add: scenario_env_def)
  note u = scanner_error_is_not_fatal [where ev = ?D and startedAt = "''2025-09-01T10:00:00Z''"
      and finishedAt = "''2025-09-01T10:00:05Z''" and demuxError = "''broken frame''"
      and statusCode = 0 and containerID = "''c0ffee''"
      and ?st1.0 = "started_with ?D" and h = plain_host and taskName = "''Compile''"
      and imageLink = "''registry/builder:v1''" and flags = "[]" and envCont = "[]"
      and copyToContainer = "[(''/host/proj'', ''/data/project'')]"
      and copyFromContainer = "[(''/data/build'', ''/host/out'')]" and st = scenario_start]
  from u d0 d1 d2 d3 d4
  have d: "scenario_run ?D
     = (Exited (LogsReadFailed ''broken frame''),
        defer_call (CloseLogs True)
          (emit (Docker (ContainerLogs ''c0ffee''))
             (emit (Docker (ContainerInspect ''c0ffee''))
                (emit (Docker (ContainerWait ''c0ffee'')) (started_with ?D)))))"
    unfolding scenario_run_def by blast
  have h1: "container_wait ?E = StatusSignal 0"
    and h2: "container_inspect ?E = Inr (''2025-09-01T10:00:00Z'', ''2025-09-01T10:00:05Z'')"
    and h3: "time_parse ?E ''2025-09-01T10:00:00Z'' = None"
      "time_parse ?E ''2025-09-01T10:00:05Z'' = None"
    and h4: "container_logs ?E = Inr (Inr ''BUILD OK'')"
    by (simp_all add: scenario_env_def)
  have h5: "snd (scan ?E ''BUILD OK'') = Some ''token too long''"
    and h6: "fst (scan ?E ''BUILD OK'') = [''BUILD OK'']"
    by simp_all
  have w: "?E\<lparr>scan := (\<lambda>buf. (fst (scan ?E buf), None))\<rparr> = scenario_env"
    by (simp add: scenario_env_def)
  have r: "fst (scenario_run scenario_env) = Returned"
    by code_simp
  note t = scanner_error_is_not_fatal [where ev = ?E and startedAt = "''2025-09-01T10:00:00Z''"
      and finishedAt = "''2025-09-01T10:00:05Z''" and sourceBuffer = "''BUILD OK''"
      and e = "''token too long''" and containerID = "''c0ffee''"
      and ?st1.0 = "started_with scenario_env" and h = plain_host and taskName = "''Compile''"
      and imageLink = "''registry/builder:v1''" and flags = "[]" and envCont = "[]"
      and copyToContainer = "[(''/host/proj'', ''/data/project'')]"
      and copyFromContainer = "[(''/data/build'', ''/host/out'')]" and st = scenario_start]
  from t h1 h2 h3 h4 h5
  have a: "wait_container ?E ''c0ffee'' (started_with scenario_env)
     = Inr ((), emit (Log DebugLevel (''Container log:'' @ [CHR 0x0A]
                         @ concat (map (\<lambda>line. line @ [CHR 0x0A]) (fst (scan ?E ''BUILD OK'')))))
                  (emit (Log DebugLevel (''Error reading container logs: '' @ ''token too long''))
                     (defer_call (CloseLogs True)
                        (emit (Docker (ContainerLogs ''c0ffee''))
                           (emit (Docker (ContainerInspect ''c0ffee''))
                              (emit (Docker (ContainerWait ''c0ffee''))
                                 (started_with scenario_env)))))))"
    by blast
  from t have b: "fst (scenario_run ?E) = fst (scenario_run scenario_env)
      \<and> same_effects (snd (scenario_run ?E)) (snd (scenario_run scenario_env))"
    unfolding Let_def w scenario_run_def by blast
  from a have a': "wait_container ?E ''c0ffee'' (started_with scenario_env)
     = Inr ((), emit (Log DebugLevel (''Container log:'' @ [CHR 0x0A] @ ''BUILD OK'' @ [CHR 0x0A]))
                  (emit (Log DebugLevel ''Error reading container logs: token too long'')
                     (defer_call (CloseLogs True)
                        (emit (Docker (ContainerLogs ''c0ffee''))
                           (emit (Docker (ContainerInspect ''c0ffee''))
                              (emit (Docker (ContainerWait ''c0ffee''))
                                 (started_with scenario_env)))))))"
    unfolding h6 by simp
  from h1 h4 h5 a' b r d0 d1 d4 d show ?thesis
    by (simp only: simp_thms)
qed

text \<open>
  The claim as stated fails when the log stream cannot be demultiplexed: the run ends
  with a fatal error, without collecting the outputs and without a teardown call.
\<close>

theorem scanner_error_is_not_fatal_counterexample:
  "container_wait (scenario_env\<lparr>container_logs := Inr (Inl ''broken frame'')\<rparr>) = StatusSignal 0
   \<and> fst (scenario_run (scenario_env\<lparr>container_logs := Inr (Inl ''broken frame'')\<rparr>))
       = Exited (LogsReadFailed ''broken frame'')
   \<and> Docker (CliCopyFromContainer ''c0ffee'' ''/data/build'')
       \<notin> set (trace (snd (scenario_run
                 (scenario_env\<lparr>container_logs := Inr (Inl ''broken frame'')\<rparr>))))
   \<and> list_all (\<lambda>e. \<not> teardown_call e)
        (trace (snd (scenario_run (scenario_env\<lparr>container_logs := Inr (Inl ''broken frame'')\<rparr>))))"
  by code_simp

end
